theory Spec2Isabelle
  imports Main "HOL-Library.Sublist"
begin

section \<open>JavaScript string primitives used by the generator\<close>

text \<open>
  The generator (\<^verbatim>\<open>src/src/commands/createProject.ts\<close>, compiled to
  \<^verbatim>\<open>src/dist/index.js\<close>) is a catalogue of string templates driven by a small
  field grammar. A JavaScript string is modelled as a \<^typ>\<open>string\<close>, i.e. a list of
  8-bit characters, so the development speaks about ASCII text: case conversion touches
  the letters \<^verbatim>\<open>a-z\<close> and \<^verbatim>\<open>A-Z\<close> only, and the line terminators are
  \<^verbatim>\<open>\n\<close> and \<^verbatim>\<open>\r\<close>.
\<close>

definition upper_char :: "char \<Rightarrow> char" where
  "upper_char c =
     (let n = (of_char c :: nat) in if 97 \<le> n \<and> n \<le> 122 then char_of (n - 32) else c)"

definition lower_char :: "char \<Rightarrow> char" where
  "lower_char c =
     (let n = (of_char c :: nat) in if 65 \<le> n \<and> n \<le> 90 then char_of (n + 32) else c)"

definition toUpperCase :: "string \<Rightarrow> string" where
  "toUpperCase s = map upper_char s"

definition toLowerCase :: "string \<Rightarrow> string" where
  "toLowerCase s = map lower_char s"

text \<open>\<^verbatim>\<open>s.startsWith(p)\<close>.\<close>

definition startsWith :: "string \<Rightarrow> string \<Rightarrow> bool" where
  "startsWith s p = (take (length p) s = p)"

text \<open>
  \<^verbatim>\<open>s.split(sep)\<close> for a one-character separator. The result is never empty:
  \<^verbatim>\<open>"".split(",")\<close> is \<^verbatim>\<open>[""]\<close>, and a separator at either end yields an
  empty piece there.
\<close>

fun js_split :: "char \<Rightarrow> string \<Rightarrow> string list" where
  "js_split sep [] = [[]]"
| "js_split sep (c # cs) =
     (if c = sep then [] # js_split sep cs
      else (case js_split sep cs of p # ps \<Rightarrow> (c # p) # ps | [] \<Rightarrow> [[c]]))"

text \<open>\<^verbatim>\<open>xs.join(sep)\<close> on an array of strings.\<close>

fun js_join :: "string \<Rightarrow> string list \<Rightarrow> string" where
  "js_join sep [] = []"
| "js_join sep [x] = x"
| "js_join sep (x # y # ys) = x @ sep @ js_join sep (y # ys)"

section \<open>Data model and utility functions\<close>

record Field =
  name :: string
  type :: string
  rule :: "string option"

record Feature =
  feature_name :: string
  feature_fields :: string

text \<open>
  \<^verbatim>\<open>capitalize = (str) => str ? str.charAt(0).toUpperCase() + str.slice(1) : str\<close>
\<close>

definition capitalize :: "string \<Rightarrow> string" where
  "capitalize str = (if str \<noteq> [] then toUpperCase (take 1 str) @ drop 1 str else str)"

definition toTsType :: "string \<Rightarrow> string" where
  "toTsType t =
     (if t = ''string'' then ''string''
      else if t = ''number'' then ''number''
      else if t = ''boolean'' then ''boolean''
      else ''any'')"

definition toMongooseType :: "string \<Rightarrow> string" where
  "toMongooseType t =
     (if t = ''string'' then ''String''
      else if t = ''number'' then ''Number''
      else if t = ''boolean'' then ''Boolean''
      else ''Mixed'')"

section \<open>Field grammar\<close>

text \<open>
  \<^verbatim>\<open>FieldSchema\<close> refines \<^verbatim>\<open>z.string()\<close> by the regular expression
  \<^verbatim>\<open>/^[^:]+:[^:]+(:[^:]+)?$/\<close>. The matcher below reads the expression from left to
  right: a non-empty run without colon, a colon, a second such run, and then either the
  end of the input or a colon, a third non-empty run and the end of the input.
\<close>

definition not_colon :: "char \<Rightarrow> bool" where
  "not_colon c = (c \<noteq> CHR '':'')"

definition FieldSchema_test :: "string \<Rightarrow> bool" where
  "FieldSchema_test val =
     (let a = takeWhile not_colon val; r1 = dropWhile not_colon val in
      a \<noteq> [] \<and>
      (case r1 of
         [] \<Rightarrow> False
       | _ # s1 \<Rightarrow>
           (let b = takeWhile not_colon s1; r2 = dropWhile not_colon s1 in
            b \<noteq> [] \<and>
            (case r2 of
               [] \<Rightarrow> True
             | _ # s2 \<Rightarrow>
                 (let c = takeWhile not_colon s2; r3 = dropWhile not_colon s2 in
                  c \<noteq> [] \<and> r3 = [])))))"

text \<open>
  What the commands can throw: the validation error of \<^verbatim>\<open>FieldSchema.parse\<close>, a read of
  a file that does not exist, and the access to a property of \<^verbatim>\<open>null\<close>.
\<close>

datatype error = ZodError string | ENOENT string | TypeError string

definition FieldSchema_message :: string where
  "FieldSchema_message = ''Field must be in format name:type[:rule]''"

text \<open>
  The callback of \<^verbatim>\<open>fields.split(',').map(...)\<close>: the entry is destructured into
  \<^verbatim>\<open>[name, type, rule]\<close>, then \<^verbatim>\<open>FieldSchema.parse(pair)\<close> throws unless the
  entry matches. An entry with fewer than two pieces has no colon, so the parse throws
  for it as well (lemma \<open>FieldSchema_test_parts\<close>); a missing third piece leaves
  \<^verbatim>\<open>rule\<close> undefined.
\<close>

definition parseFields_pair :: "string \<Rightarrow> error + Field" where
  "parseFields_pair pair =
     (case js_split CHR '':'' pair of
        n # t # rest \<Rightarrow>
          if FieldSchema_test pair
          then Inr \<lparr>name = n, type = t, rule = (case rest of [] \<Rightarrow> None | r # _ \<Rightarrow> Some r)\<rparr>
          else Inl (ZodError FieldSchema_message)
      | _ \<Rightarrow> Inl (ZodError FieldSchema_message))"

text \<open>\<^verbatim>\<open>Array.map\<close> with a callback that may throw: the first exception ends the call.\<close>

fun map_throwing :: "('a \<Rightarrow> error + 'b) \<Rightarrow> 'a list \<Rightarrow> error + 'b list" where
  "map_throwing f [] = Inr []"
| "map_throwing f (x # xs) =
     (case f x of
        Inl e \<Rightarrow> Inl e
      | Inr y \<Rightarrow> (case map_throwing f xs of Inl e \<Rightarrow> Inl e | Inr ys \<Rightarrow> Inr (y # ys)))"

definition parseFields :: "string \<Rightarrow> error + Field list" where
  "parseFields fieldDefs =
     (if fieldDefs = [] then Inr []
      else map_throwing parseFields_pair (js_split CHR '','' fieldDefs))"

section \<open>Rule compilation and sample values\<close>

text \<open>
  The body of the loop of \<^verbatim>\<open>getZodSchema\<close>: the validator expression of one field.
  \<^verbatim>\<open>if (rule)\<close> is false for an absent and for an empty rule;
  \<^verbatim>\<open>switch (true)\<close> takes the first case that holds. Each
  \<^verbatim>\<open>rule.split('=')[1]\<close> is guarded by a \<^verbatim>\<open>startsWith\<close> whose prefix ends with
  \<^verbatim>\<open>=\<close>, so the index is in range (lemma \<open>split_eq_index\<close>).
\<close>

definition getZodSchema_zodType :: "Field \<Rightarrow> string" where
  \<open>getZodSchema_zodType f =
     (let zodType =
        (if type f = ''string'' then ''z.string()''
         else if type f = ''number'' then ''z.number()''
         else if type f = ''boolean'' then ''z.boolean()''
         else ''z.any()'')
      in case rule f of
           None \<Rightarrow> zodType
         | Some r \<Rightarrow>
             if r = [] then zodType
             else if r = ''email'' then zodType @ ''.email()''
             else if startsWith r ''minlength='' then
               zodType @ ''.min('' @ js_split CHR ''='' r ! 1 @ '')''
             else if startsWith r ''maxlength='' then
               zodType @ ''.max('' @ js_split CHR ''='' r ! 1 @ '')''
             else if startsWith r ''min='' then
               zodType @ ''.min('' @ js_split CHR ''='' r ! 1 @ '')''
             else if startsWith r ''max='' then
               zodType @ ''.max('' @ js_split CHR ''='' r ! 1 @ '')''
             else if startsWith r ''enum='' then
               ''z.enum(['' @
               js_join '', ''
                 (map (\<lambda>e. ''"'' @ e @ ''"'') (js_split CHR ''|'' (js_split CHR ''='' r ! 1))) @
               ''])''
             else zodType)\<close>

definition getZodSchema :: "Field list \<Rightarrow> string" where
  "getZodSchema fs =
     foldl (\<lambda>schema f. schema @ ''    '' @ name f @ '': '' @ getZodSchema_zodType f @ '',\<newline>'')
       ''z.object({\<newline>'' fs @ ''})''"

text \<open>The body of the loop of \<^verbatim>\<open>getSampleJson\<close>: the sample literal of one field.\<close>

definition getSampleJson_value :: "Field \<Rightarrow> string" where
  \<open>getSampleJson_value f =
     (if type f = ''string'' then
        (if rule f = Some ''email'' then ''"test@example.com"''
         else if (case rule f of None \<Rightarrow> False | Some r \<Rightarrow> startsWith r ''enum='') then
           ''"'' @ hd (js_split CHR ''|'' (js_split CHR ''='' (the (rule f)) ! 1)) @ ''"''
         else ''"sample_'' @ name f @ ''"'')
      else if type f = ''number'' then ''123''
      else if type f = ''boolean'' then ''true''
      else ''null'')\<close>

text \<open>
  \<^verbatim>\<open>json.slice(0, -2)\<close> drops the last two characters, and everything when there are
  fewer than two.
\<close>

definition getSampleJson :: "Field list \<Rightarrow> string" where
  \<open>getSampleJson fs =
     (let json = foldl (\<lambda>json f. json @ ''"'' @ name f @ ''": '' @ getSampleJson_value f @ '', '')
                   ''{'' fs
      in take (length json - 2) json @ ''}'')\<close>

section \<open>Template catalogue\<close>

text \<open>
  The members of the object \<^verbatim>\<open>templates\<close>, one definition per emitter. A template
  literal is the concatenation of its text pieces and its interpolated expressions; the
  text is cut at the line ends of the source. An interpolated array element that does
  not exist prints as \<^verbatim>\<open>undefined\<close>.
\<close>

definition template_index :: "string list \<Rightarrow> nat \<Rightarrow> string" where
  "template_index xs i = (if i < length xs then xs ! i else ''undefined'')"

definition packageJson :: "string \<Rightarrow> string" where
  \<open>packageJson projectName =
     ''{\<newline>'' @
     ''    "name": "'' @ projectName @ ''",\<newline>'' @
     ''    "version": "1.0.0",\<newline>'' @
     ''    "description": "Express API with TypeScript, MongoDB, and clean architecture",\<newline>'' @
     ''    "main": "dist/Server/index.js",\<newline>'' @
     ''    "scripts": {\<newline>'' @
     ''      "start": "node dist/Server/index.js",\<newline>'' @
     ''      "build": "tsc",\<newline>'' @
     ''      "dev": "nodemon Server/index.ts",\<newline>'' @
     ''      "test": "jest",\<newline>'' @
     ''      "test:watch": "jest --watch"\<newline>'' @
     ''    },\<newline>'' @
     ''    "dependencies": {\<newline>'' @
     ''      "dotenv": "^16.4.5",\<newline>'' @
     ''      "express": "^4.21.1",\<newline>'' @
     ''      "mongoose": "^8.7.2",\<newline>'' @
     ''      "tsyringe": "^4.8.0",\<newline>'' @
     ''      "zod": "^3.23.8"\<newline>'' @
     ''    },\<newline>'' @
     ''    "devDependencies": {\<newline>'' @
     ''      "@types/express": "^5.0.0",\<newline>'' @
     ''      "@types/jest": "^29.5.13",\<newline>'' @
     ''      "@types/node": "^22.7.5",\<newline>'' @
     ''      "@types/supertest": "^6.0.2",\<newline>'' @
     ''      "jest": "^29.7.0",\<newline>'' @
     ''      "nodemon": "^3.1.7",\<newline>'' @
     ''      "supertest": "^7.0.0",\<newline>'' @
     ''      "ts-jest": "^29.2.5",\<newline>'' @
     ''      "ts-node": "^10.9.2",\<newline>'' @
     ''      "typescript": "^5.6.3"\<newline>'' @
     ''    }\<newline>'' @
     ''  }''\<close>

definition tsconfigJson :: string where
  \<open>tsconfigJson =
     ''{\<newline>'' @
     ''    "compilerOptions": {\<newline>'' @
     ''      "target": "ES2020",\<newline>'' @
     ''      "module": "commonjs",\<newline>'' @
     ''      "outDir": "./dist",\<newline>'' @
     ''      "rootDir": "./",\<newline>'' @
     ''      "strict": true,\<newline>'' @
     ''      "esModuleInterop": true,\<newline>'' @
     ''      "skipLibCheck": true,\<newline>'' @
     ''      "forceConsistentCasingInFileNames": true,\<newline>'' @
     ''      "experimentalDecorators": true,\<newline>'' @
     ''      "emitDecoratorMetadata": true\<newline>'' @
     ''    },\<newline>'' @
     ''    "include": ["Core/**/*", "Features/**/*", "Server/**/*", "__tests__/**/*"],\<newline>'' @
     ''    "exclude": ["node_modules", "dist"]\<newline>'' @
     ''  }''\<close>

definition jestConfigTs :: string where
  \<open>jestConfigTs =
     ''export default {\<newline>'' @
     ''    preset: 'ts-jest',\<newline>'' @
     ''    testEnvironment: 'node',\<newline>'' @
     ''    testMatch: ['**/__tests__/**/*.test.ts'],\<newline>'' @
     ''    moduleFileExtensions: ['ts', 'js'],\<newline>'' @
     ''    coverageDirectory: 'coverage',\<newline>'' @
     ''    collectCoverageFrom: ['Features/**/*.{ts,js}', 'Core/**/*.{ts,js}'],\<newline>'' @
     ''  };''\<close>

definition env :: "string \<Rightarrow> string" where
  \<open>env projectName =
     ''PORT=3000\<newline>'' @
     ''MONGODB_URI=mongodb://localhost:27017/'' @ projectName\<close>

definition gitignore :: string where
  \<open>gitignore =
     ''node_modules/\<newline>'' @
     ''dist/\<newline>'' @
     ''.env\<newline>'' @
     ''coverage/''\<close>

definition resultTs :: string where
  \<open>resultTs =
     ''export type Result<T, E> = Ok<T> | Err<E>;\<newline>'' @
     ''\<newline>'' @
     ''interface Ok<T> {\<newline>'' @
     ''  kind: 'Ok';\<newline>'' @
     ''  value: T;\<newline>'' @
     ''  isOk(): boolean;\<newline>'' @
     ''  isErr(): boolean;\<newline>'' @
     ''  unwrap(): T;\<newline>'' @
     ''  unwrapErr(): never;\<newline>'' @
     ''}\<newline>'' @
     ''\<newline>'' @
     ''interface Err<E> {\<newline>'' @
     ''  kind: 'Err';\<newline>'' @
     ''  error: E;\<newline>'' @
     ''  isOk(): boolean;\<newline>'' @
     ''  isErr(): boolean;\<newline>'' @
     ''  unwrap(): never;\<newline>'' @
     ''  unwrapErr(): E;\<newline>'' @
     ''}\<newline>'' @
     ''\<newline>'' @
     ''export function Ok<T>(value: T): Ok<T> {\<newline>'' @
     ''  return {\<newline>'' @
     ''    kind: 'Ok',\<newline>'' @
     ''    value,\<newline>'' @
     ''    isOk: () => true,\<newline>'' @
     ''    isErr: () => false,\<newline>'' @
     ''    unwrap: () => value,\<newline>'' @
     ''    unwrapErr: () => { throw new Error('Cannot unwrapErr an Ok value'); },\<newline>'' @
     ''  };\<newline>'' @
     ''}\<newline>'' @
     ''\<newline>'' @
     ''export function Err<E>(error: E): Err<E> {\<newline>'' @
     ''  return {\<newline>'' @
     ''    kind: 'Err',\<newline>'' @
     ''    error,\<newline>'' @
     ''    isOk: () => false,\<newline>'' @
     ''    isErr: () => true,\<newline>'' @
     ''    unwrap: () => { throw new Error('Cannot unwrap an Err value'); },\<newline>'' @
     ''    unwrapErr: () => error,\<newline>'' @
     ''  };\<newline>'' @
     ''}''\<close>

definition customErrorTs :: string where
  \<open>customErrorTs =
     ''export class CustomError extends Error {\<newline>'' @
     ''  constructor(public statusCode: number, message: string) {\<newline>'' @
     ''    super(message);\<newline>'' @
     ''    this.name = 'CustomError';\<newline>'' @
     ''  }\<newline>'' @
     ''}''\<close>

definition databaseTs :: string where
  \<open>databaseTs =
     ''import mongoose from 'mongoose';\<newline>'' @
     ''\<newline>'' @
     ''export const connectToDatabase = async () => {\<newline>'' @
     ''  const uri = process.env.MONGODB_URI;\<newline>'' @
     ''  if (!uri) {\<newline>'' @
     ''    throw new Error('MONGODB_URI is not defined in .env');\<newline>'' @
     ''  }\<newline>'' @
     ''  await mongoose.connect(uri);\<newline>'' @
     ''  console.log('Connected to MongoDB');\<newline>'' @
     ''};''\<close>

definition serverIndexTs_import :: "Feature \<Rightarrow> string" where
  \<open>serverIndexTs_import f =
     ''import { '' @ capitalize (feature_name f) @ ''Controller } from '../Features/'' @
     feature_name f @ ''/delivery/controllers/'' @ feature_name f @ ''.controller';''\<close>

definition serverIndexTs_route :: "Feature \<Rightarrow> string" where
  \<open>serverIndexTs_route f =
     ''const '' @ feature_name f @ ''Controller = container.resolve('' @
     capitalize (feature_name f) @ ''Controller);\<newline>'' @
     ''app.use('/api/'' @ feature_name f @ ''', '' @ feature_name f @
     ''Controller.getRouter());''\<close>

definition serverIndexTs :: "Feature list \<Rightarrow> string" where
  \<open>serverIndexTs features =
     ''import 'reflect-metadata';\<newline>'' @
     ''import express from 'express';\<newline>'' @
     ''import dotenv from 'dotenv';\<newline>'' @
     ''import { container } from 'tsyringe';\<newline>'' @
     ''import { connectToDatabase } from '../Core/config/database';\<newline>'' @
     js_join ''\<newline>'' (map serverIndexTs_import features) @ ''\<newline>'' @
     ''\<newline>'' @
     ''dotenv.config();\<newline>'' @
     ''\<newline>'' @
     ''const app = express();\<newline>'' @
     ''const port = process.env.PORT || 3000;\<newline>'' @
     ''\<newline>'' @
     ''app.use(express.json());\<newline>'' @
     js_join ''\<newline>'' (map serverIndexTs_route features) @ ''\<newline>'' @
     ''\<newline>'' @
     ''const startServer = async () => {\<newline>'' @
     ''  try {\<newline>'' @
     ''    await connectToDatabase();\<newline>'' @
     ''    app.listen(port, () => {\<newline>'' @
     ''      console.log(`Server running on http://localhost:${port}`);\<newline>'' @
     ''    });\<newline>'' @
     ''  } catch (error) {\<newline>'' @
     ''    console.error('Failed to start server:', error);\<newline>'' @
     ''  }\<newline>'' @
     ''};\<newline>'' @
     ''\<newline>'' @
     ''startServer();''\<close>

definition featureContainerTs :: "string \<Rightarrow> string" where
  \<open>featureContainerTs feature =
     ''import 'reflect-metadata';\<newline>'' @
     ''import { container } from 'tsyringe';\<newline>'' @
     ''import { '' @ capitalize feature @ ''Controller } from './delivery/controllers/'' @
     feature @ ''.controller';\<newline>'' @
     ''import { Create'' @ capitalize feature @ ''UseCase } from './domain/usecases/create-'' @
     feature @ ''.usecase';\<newline>'' @
     ''import { '' @ capitalize feature @ ''RepositoryImpl } from './data/repositories/'' @
     feature @ ''.repository';\<newline>'' @
     ''import { '' @ capitalize feature @ ''DataSource } from './data/datasources/'' @ feature @
     ''.datasource';\<newline>'' @
     ''\<newline>'' @
     ''container.register<Create'' @ capitalize feature @ ''UseCase>('Create'' @
     capitalize feature @ ''UseCase', Create'' @ capitalize feature @ ''UseCase);\<newline>'' @
     ''container.register<'' @ capitalize feature @ ''RepositoryImpl>('' @ [CHR 0x27] @
     capitalize feature @ ''Repository', '' @ capitalize feature @
     ''RepositoryImpl);\<newline>'' @
     ''container.register<'' @ capitalize feature @ ''DataSource>('' @ [CHR 0x27] @
     capitalize feature @ ''DataSource', '' @ capitalize feature @ ''DataSource);\<newline>'' @
     ''container.register<'' @ capitalize feature @ ''Controller>('' @ capitalize feature @
     ''Controller, '' @ capitalize feature @ ''Controller);\<newline>'' @
     ''\<newline>'' @
     ''export { container };''\<close>

definition featureEntityTs :: "string \<Rightarrow> Field list \<Rightarrow> string" where
  \<open>featureEntityTs feature flds =
     ''export class '' @ capitalize feature @ '' {\<newline>'' @
     ''  constructor(\<newline>'' @
     ''    public id: string,\<newline>'' @
     ''    public '' @
     js_join '', '' (map (\<lambda>f. name f @ '': '' @ toTsType (type f)) flds) @
     ''\<newline>'' @
     ''  ) {}\<newline>'' @
     ''}''\<close>

definition featureRepositoryInterfaceTs :: "string \<Rightarrow> string" where
  \<open>featureRepositoryInterfaceTs feature =
     ''import { Result } from '../../../../Core/result/result';\<newline>'' @
     ''import { '' @ capitalize feature @ '' } from '../entity/'' @ feature @
     ''.entity';\<newline>'' @
     ''import { CustomError } from '../../../../Core/error/custom-error';\<newline>'' @
     ''\<newline>'' @
     ''export interface '' @ capitalize feature @ ''Repository {\<newline>'' @
     ''  create('' @ feature @ '': '' @ capitalize feature @ ''): Promise<Result<'' @
     capitalize feature @ '', CustomError>>;\<newline>'' @
     ''  findById(id: string): Promise<Result<'' @ capitalize feature @
     '' | null, CustomError>>;\<newline>'' @
     ''}''\<close>

definition featureUseCaseTs :: "string \<Rightarrow> Field list \<Rightarrow> string" where
  \<open>featureUseCaseTs feature flds =
     ''import { injectable, inject } from 'tsyringe';\<newline>'' @
     ''import { '' @ capitalize feature @ '' } from '../entity/'' @ feature @
     ''.entity';\<newline>'' @
     ''import { '' @ capitalize feature @ ''Repository } from '../repositories/'' @ feature @
     ''.repository.interface';\<newline>'' @
     ''import { Result, Ok, Err } from '../../../../Core/result/result';\<newline>'' @
     ''import { CustomError } from '../../../../Core/error/custom-error';\<newline>'' @
     ''\<newline>'' @
     ''export interface Create'' @ capitalize feature @ ''Dto {\<newline>'' @
     ''  '' @
     js_join ''\<newline>'' (map (\<lambda>f. ''  '' @ name f @ '': '' @ toTsType (type f) @ '';'') flds) @
     ''\<newline>'' @
     ''}\<newline>'' @
     ''\<newline>'' @
     ''@injectable()\<newline>'' @
     ''export class Create'' @ capitalize feature @ ''UseCase {\<newline>'' @
     ''  constructor(@inject('' @ [CHR 0x27] @ capitalize feature @ ''Repository') private '' @
     feature @ ''Repository: '' @ capitalize feature @ ''Repository) {}\<newline>'' @
     ''\<newline>'' @
     ''  async execute(dto: Create'' @ capitalize feature @ ''Dto): Promise<Result<'' @
     capitalize feature @ '', CustomError>> {\<newline>'' @
     ''    const '' @ feature @ '' = new '' @ capitalize feature @ ''(\<newline>'' @
     ''      Math.random().toString(36).substring(2), // Simple ID generation\<newline>'' @
     ''      '' @ js_join '', '' (map (\<lambda>f. ''dto.'' @ name f) flds) @ ''\<newline>'' @
     ''    );\<newline>'' @
     ''    return await this.'' @ feature @ ''Repository.create('' @ feature @
     '');\<newline>'' @
     ''  }\<newline>'' @
     ''}''\<close>

definition featureModelTs :: "string \<Rightarrow> Field list \<Rightarrow> string" where
  \<open>featureModelTs feature flds =
     ''import mongoose, { Schema, Document } from 'mongoose';\<newline>'' @
     ''\<newline>'' @
     ''export interface I'' @ capitalize feature @ '' extends Document {\<newline>'' @
     ''  id: string;\<newline>'' @
     ''  '' @
     js_join '';\<newline>  '' (map (\<lambda>f. name f @ '': '' @ toTsType (type f)) flds) @
     '';\<newline>'' @
     ''}\<newline>'' @
     ''\<newline>'' @
     ''const '' @ capitalize feature @ ''Schema: Schema = new Schema({\<newline>'' @
     ''  id: { type: String, required: true, unique: true },\<newline>'' @
     ''  '' @
     js_join '',\<newline>  '' (map (\<lambda>f. name f @ '': { type: '' @ toMongooseType (type f) @
                          '', required: true }'') flds) @
     ''\<newline>'' @
     ''});\<newline>'' @
     ''\<newline>'' @
     ''export const '' @ capitalize feature @ ''Model = mongoose.model<I'' @
     capitalize feature @ ''>('' @ [CHR 0x27] @ capitalize feature @ ''', '' @
     capitalize feature @ ''Schema);''\<close>

definition featureDataSourceTs :: "string \<Rightarrow> Field list \<Rightarrow> string" where
  \<open>featureDataSourceTs feature flds =
     ''import { injectable } from 'tsyringe';\<newline>'' @
     ''import { '' @ capitalize feature @ '' } from '../../domain/entity/'' @ feature @
     ''.entity';\<newline>'' @
     ''import { '' @ capitalize feature @ ''Model } from '../models/'' @ feature @
     ''.model';\<newline>'' @
     ''import { Result, Ok, Err } from '../../../../Core/result/result';\<newline>'' @
     ''import { CustomError } from '../../../../Core/error/custom-error';\<newline>'' @
     ''\<newline>'' @
     ''@injectable()\<newline>'' @
     ''export class '' @ capitalize feature @ ''DataSource {\<newline>'' @
     ''  async create('' @ feature @ '': '' @ capitalize feature @ ''): Promise<Result<'' @
     capitalize feature @ '', CustomError>> {\<newline>'' @
     ''    try {\<newline>'' @
     ''      const '' @ feature @ ''Doc = new '' @ capitalize feature @ ''Model('' @ feature @
     '');\<newline>'' @
     ''      await '' @ feature @ ''Doc.save();\<newline>'' @
     ''      return Ok('' @ feature @ '');\<newline>'' @
     ''    } catch (error) {\<newline>'' @
     ''      return Err(new CustomError(500, 'Failed to create '' @ feature @
     '': ' + (error as Error).message));\<newline>'' @
     ''    }\<newline>'' @
     ''  }\<newline>'' @
     ''\<newline>'' @
     ''  async findById(id: string): Promise<Result<'' @ capitalize feature @
     '' | null, CustomError>> {\<newline>'' @
     ''    try {\<newline>'' @
     ''      const '' @ feature @ ''Doc = await '' @ capitalize feature @
     ''Model.findOne({ id });\<newline>'' @
     ''      if (!'' @ feature @ ''Doc) return Ok(null);\<newline>'' @
     ''      return Ok(new '' @ capitalize feature @ ''('' @ feature @ ''Doc.id, '' @
     js_join '', '' (map (\<lambda>f. feature @ ''Doc.'' @ name f) flds) @ ''));\<newline>'' @
     ''    } catch (error) {\<newline>'' @
     ''      return Err(new CustomError(500, 'Failed to find '' @ feature @
     '': ' + (error as Error).message));\<newline>'' @
     ''    }\<newline>'' @
     ''  }\<newline>'' @
     ''}''\<close>

definition featureRepositoryTs :: "string \<Rightarrow> string" where
  \<open>featureRepositoryTs feature =
     ''import { injectable, inject } from 'tsyringe';\<newline>'' @
     ''import { '' @ capitalize feature @ '' } from '../../domain/entity/'' @ feature @
     ''.entity';\<newline>'' @
     ''import { '' @ capitalize feature @ ''Repository } from '../../domain/repositories/'' @
     feature @ ''.repository.interface';\<newline>'' @
     ''import { '' @ capitalize feature @ ''DataSource } from '../datasources/'' @ feature @
     ''.datasource';\<newline>'' @
     ''import { Result } from '../../../../Core/result/result';\<newline>'' @
     ''import { CustomError } from '../../../../Core/error/custom-error';\<newline>'' @
     ''\<newline>'' @
     ''@injectable()\<newline>'' @
     ''export class '' @ capitalize feature @ ''RepositoryImpl implements '' @
     capitalize feature @ ''Repository {\<newline>'' @
     ''  constructor(@inject('' @ [CHR 0x27] @ capitalize feature @
     ''DataSource') private dataSource: '' @ capitalize feature @ ''DataSource) {}\<newline>'' @
     ''\<newline>'' @
     ''  async create('' @ feature @ '': '' @ capitalize feature @ ''): Promise<Result<'' @
     capitalize feature @ '', CustomError>> {\<newline>'' @
     ''    return await this.dataSource.create('' @ feature @ '');\<newline>'' @
     ''  }\<newline>'' @
     ''\<newline>'' @
     ''  async findById(id: string): Promise<Result<'' @ capitalize feature @
     '' | null, CustomError>> {\<newline>'' @
     ''    return await this.dataSource.findById(id);\<newline>'' @
     ''  }\<newline>'' @
     ''}''\<close>

definition featureMiddlewareTs :: "string \<Rightarrow> string \<Rightarrow> string" where
  \<open>featureMiddlewareTs feature zodSchema =
     ''import { Request, Response, NextFunction } from 'express';\<newline>'' @
     ''import { z } from 'zod';\<newline>'' @
     ''import { CustomError } from '../../../Core/error/custom-error';\<newline>'' @
     ''\<newline>'' @
     ''const '' @ feature @ ''Schema = '' @ zodSchema @ '';\<newline>'' @
     ''\<newline>'' @
     ''export const validate'' @ capitalize feature @
     '' = (req: Request, res: Response, next: NextFunction) => {\<newline>'' @
     ''  try {\<newline>'' @
     ''    '' @ feature @ ''Schema.parse(req.body);\<newline>'' @
     ''    next();\<newline>'' @
     ''  } catch (error) {\<newline>'' @
     ''    if (error instanceof z.ZodError) {\<newline>'' @
     ''      throw new CustomError(400, error.errors.map(e => e.message).join(', '));\<newline>'' @
     ''    }\<newline>'' @
     ''    throw new CustomError(500, 'Validation error');\<newline>'' @
     ''  }\<newline>'' @
     ''};''\<close>

definition featureControllerTs :: "string \<Rightarrow> string" where
  \<open>featureControllerTs feature =
     ''import { injectable, inject } from 'tsyringe';\<newline>'' @
     ''import { Request, Response, NextFunction } from 'express';\<newline>'' @
     ''import { Router } from 'express';\<newline>'' @
     ''import { Create'' @ capitalize feature @ ''UseCase, Create'' @ capitalize feature @
     ''Dto } from '../../domain/usecases/create-'' @ feature @ ''.usecase';\<newline>'' @
     ''import { CustomError } from '../../../Core/error/custom-error';\<newline>'' @
     ''import { validate'' @ capitalize feature @ '' } from '../middlewares/validate-'' @
     feature @ ''.middleware';\<newline>'' @
     ''\<newline>'' @
     ''@injectable()\<newline>'' @
     ''export class '' @ capitalize feature @ ''Controller {\<newline>'' @
     ''  private router: Router;\<newline>'' @
     ''\<newline>'' @
     ''  constructor(@inject('Create'' @ capitalize feature @ ''UseCase') private create'' @
     capitalize feature @ ''UseCase: Create'' @ capitalize feature @ ''UseCase) {\<newline>'' @
     ''    this.router = Router();\<newline>'' @
     ''    this.router.post('/', validate'' @ capitalize feature @ '', this.create'' @
     capitalize feature @ ''.bind(this));\<newline>'' @
     ''  }\<newline>'' @
     ''\<newline>'' @
     ''  async create'' @ capitalize feature @
     ''(req: Request, res: Response): Promise<void> {\<newline>'' @
     ''    const dto: Create'' @ capitalize feature @ ''Dto = req.body;\<newline>'' @
     ''    const result = await this.create'' @ capitalize feature @
     ''UseCase.execute(dto);\<newline>'' @
     ''    if (result.isOk()) {\<newline>'' @
     ''      res.status(201).json(result.unwrap());\<newline>'' @
     ''    } else {\<newline>'' @
     ''      const error = result.unwrapErr();\<newline>'' @
     ''      res.status(error.statusCode).json({ message: error.message });\<newline>'' @
     ''    }\<newline>'' @
     ''  }\<newline>'' @
     ''\<newline>'' @
     ''  getRouter(): Router {\<newline>'' @
     ''    return this.router;\<newline>'' @
     ''  }\<newline>'' @
     ''}''\<close>

definition featureUseCaseTestTs :: "string \<Rightarrow> Field list \<Rightarrow> string \<Rightarrow> string" where
  \<open>featureUseCaseTestTs feature flds sampleJson =
     ''import { container } from 'tsyringe';\<newline>'' @
     ''import { Create'' @ capitalize feature @ ''UseCase, Create'' @ capitalize feature @
     ''Dto } from '../../../Features/'' @ feature @ ''/domain/usecases/create-'' @ feature @
     ''.usecase';\<newline>'' @
     ''import { '' @ capitalize feature @ ''Repository } from '../../../Features/'' @ feature @
     ''/domain/repositories/'' @ feature @ ''.repository.interface';\<newline>'' @
     ''import { Result, Ok, Err } from '../../../Core/result/result';\<newline>'' @
     ''import { CustomError } from '../../../Core/error/custom-error';\<newline>'' @
     ''import { '' @ capitalize feature @ '' } from '../../../Features/'' @ feature @
     ''/domain/entity/'' @ feature @ ''.entity';\<newline>'' @
     ''\<newline>'' @
     ''describe('Create'' @ capitalize feature @ ''UseCase', () => {\<newline>'' @
     ''  let create'' @ capitalize feature @ ''UseCase: Create'' @ capitalize feature @
     ''UseCase;\<newline>'' @
     ''  let mockRepository: jest.Mocked<'' @ capitalize feature @ ''Repository>;\<newline>'' @
     ''\<newline>'' @
     ''  beforeEach(() => {\<newline>'' @
     ''    mockRepository = {\<newline>'' @
     ''      create: jest.fn(),\<newline>'' @
     ''      findById: jest.fn(),\<newline>'' @
     ''    };\<newline>'' @
     ''    container.registerInstance('' @ [CHR 0x27] @ capitalize feature @
     ''Repository', mockRepository);\<newline>'' @
     ''    create'' @ capitalize feature @ ''UseCase = container.resolve<Create'' @
     capitalize feature @ ''UseCase>('Create'' @ capitalize feature @ ''UseCase');\<newline>'' @
     ''  });\<newline>'' @
     ''\<newline>'' @
     ''  afterEach(() => {\<newline>'' @
     ''    container.reset();\<newline>'' @
     ''  });\<newline>'' @
     ''\<newline>'' @
     ''  it('should create a '' @ feature @ '' successfully', async () => {\<newline>'' @
     ''    const dto: Create'' @ capitalize feature @ ''Dto = '' @ sampleJson @
     '';\<newline>'' @
     ''    const '' @ feature @ '' = new '' @ capitalize feature @ ''('123', '' @
     js_join '', '' (map (\<lambda>f. ''dto.'' @ name f) flds) @ '');\<newline>'' @
     ''    mockRepository.create.mockResolvedValue(Ok('' @ feature @ ''));\<newline>'' @
     ''\<newline>'' @
     ''    const result = await create'' @ capitalize feature @
     ''UseCase.execute(dto);\<newline>'' @
     ''\<newline>'' @
     ''    expect(result.isOk()).toBe(true);\<newline>'' @
     ''    expect(result.unwrap()).toEqual('' @ feature @ '');\<newline>'' @
     ''    expect(mockRepository.create).toHaveBeenCalledWith(expect.any('' @
     capitalize feature @ ''));\<newline>'' @
     ''  });\<newline>'' @
     ''\<newline>'' @
     ''  it('should return an error if repository fails', async () => {\<newline>'' @
     ''    const dto: Create'' @ capitalize feature @ ''Dto = '' @ sampleJson @
     '';\<newline>'' @
     ''    const error = new CustomError(500, 'Repository error');\<newline>'' @
     ''    mockRepository.create.mockResolvedValue(Err(error));\<newline>'' @
     ''\<newline>'' @
     ''    const result = await create'' @ capitalize feature @
     ''UseCase.execute(dto);\<newline>'' @
     ''\<newline>'' @
     ''    expect(result.isErr()).toBe(true);\<newline>'' @
     ''    expect(result.unwrapErr()).toEqual(error);\<newline>'' @
     ''  });\<newline>'' @
     ''});''\<close>

definition featureControllerTestTs :: "string \<Rightarrow> Field list \<Rightarrow> string \<Rightarrow> string" where
  \<open>featureControllerTestTs feature flds sampleJson =
     ''import request from 'supertest';\<newline>'' @
     ''import express from 'express';\<newline>'' @
     ''import { container } from 'tsyringe';\<newline>'' @
     ''import { '' @ capitalize feature @ ''Controller } from '../../../Features/'' @ feature @
     ''/delivery/controllers/'' @ feature @ ''.controller';\<newline>'' @
     ''import { Create'' @ capitalize feature @ ''UseCase } from '../../../Features/'' @
     feature @ ''/domain/usecases/create-'' @ feature @ ''.usecase';\<newline>'' @
     ''import { Result, Ok } from '../../../Core/result/result';\<newline>'' @
     ''import { '' @ capitalize feature @ '' } from '../../../Features/'' @ feature @
     ''/domain/entity/'' @ feature @ ''.entity';\<newline>'' @
     ''\<newline>'' @
     ''describe('' @ [CHR 0x27] @ capitalize feature @ ''Controller', () => {\<newline>'' @
     ''  let app: express.Application;\<newline>'' @
     ''  let mockUseCase: jest.Mocked<Create'' @ capitalize feature @ ''UseCase>;\<newline>'' @
     ''\<newline>'' @
     ''  beforeEach(() => {\<newline>'' @
     ''    mockUseCase = {\<newline>'' @
     ''      execute: jest.fn(),\<newline>'' @
     ''    };\<newline>'' @
     ''    container.registerInstance('Create'' @ capitalize feature @
     ''UseCase', mockUseCase);\<newline>'' @
     ''    const controller = container.resolve('' @ capitalize feature @
     ''Controller);\<newline>'' @
     ''    app = express();\<newline>'' @
     ''    app.use(express.json());\<newline>'' @
     ''    app.use('/api/'' @ feature @ ''', controller.getRouter());\<newline>'' @
     ''  });\<newline>'' @
     ''\<newline>'' @
     ''  afterEach(() => {\<newline>'' @
     ''    container.reset();\<newline>'' @
     ''  });\<newline>'' @
     ''\<newline>'' @
     ''  it('should create a '' @ feature @ '' and return 201', async () => {\<newline>'' @
     ''    const dto = '' @ sampleJson @ '';\<newline>'' @
     ''    const '' @ feature @ '' = new '' @ capitalize feature @ ''('123', '' @
     js_join '', '' (map (\<lambda>f. ''dto.'' @ name f) flds) @ '');\<newline>'' @
     ''    mockUseCase.execute.mockResolvedValue(Ok('' @ feature @ ''));\<newline>'' @
     ''\<newline>'' @
     ''    const response = await request(app)\<newline>'' @
     ''      .post('/api/'' @ feature @ ''')\<newline>'' @
     ''      .send(dto)\<newline>'' @
     ''      .set('Accept', 'application/json');\<newline>'' @
     ''\<newline>'' @
     ''    expect(response.status).toBe(201);\<newline>'' @
     ''    expect(response.body).toEqual({\<newline>'' @
     ''      id: '123',\<newline>'' @
     ''      '' @ js_join '', '' (map (\<lambda>f. name f @ '': dto.'' @ name f) flds) @
     ''\<newline>'' @
     ''    });\<newline>'' @
     ''    expect(mockUseCase.execute).toHaveBeenCalledWith(dto);\<newline>'' @
     ''  });\<newline>'' @
     ''\<newline>'' @
     ''  it('should return 400 for invalid input', async () => {\<newline>'' @
     ''    const invalidDto = {};\<newline>'' @
     ''\<newline>'' @
     ''    const response = await request(app)\<newline>'' @
     ''      .post('/api/'' @ feature @ ''')\<newline>'' @
     ''      .send(invalidDto)\<newline>'' @
     ''      .set('Accept', 'application/json');\<newline>'' @
     ''\<newline>'' @
     ''    expect(response.status).toBe(400);\<newline>'' @
     ''    expect(response.body.message).toContain('is required');\<newline>'' @
     ''  });\<newline>'' @
     ''};''\<close>

definition readmeMd_request :: "string list \<Rightarrow> Feature \<times> nat \<Rightarrow> string" where
  \<open>readmeMd_request sampleJsons = (\<lambda>(f, i).
     ''- Create a '' @ feature_name f @ '':\<newline>'' @
     ''  ```bash\<newline>'' @
     ''  curl -X POST http://localhost:3000/api/'' @ feature_name f @
     '' -H "Content-Type: application/json" -d '' @ [CHR 0x27] @ template_index sampleJsons i @
     '''\<newline>'' @
     ''  ```'')\<close>

definition readmeMd :: "string \<Rightarrow> Feature list \<Rightarrow> string list \<Rightarrow> string" where
  \<open>readmeMd projectName features sampleJsons =
     ''# '' @ projectName @ ''\<newline>'' @
     ''\<newline>'' @
     ''A TypeScript-based Express API with MongoDB, Mongoose, clean architecture, Zod validation, tsyringe DI, and Jest testing.\<newline>'' @
     ''\<newline>'' @
     ''## Setup\<newline>'' @
     ''\<newline>'' @
     ''1. Ensure MongoDB is running locally or update `.env` with your MongoDB URI.\<newline>'' @
     ''2. Install dependencies:\<newline>'' @
     ''   ```bash\<newline>'' @
     ''   npm install\<newline>'' @
     ''   ```\<newline>'' @
     ''3. Run in development mode:\<newline>'' @
     ''   ```bash\<newline>'' @
     ''   npm run dev\<newline>'' @
     ''   ```\<newline>'' @
     ''4. Build for production:\<newline>'' @
     ''   ```bash\<newline>'' @
     ''   npm run build\<newline>'' @
     ''   npm start\<newline>'' @
     ''   ```\<newline>'' @
     ''5. Run tests:\<newline>'' @
     ''   ```bash\<newline>'' @
     ''   npm test\<newline>'' @
     ''   ```\<newline>'' @
     ''\<newline>'' @
     ''## Testing\<newline>'' @
     ''\<newline>'' @
     js_join ''\<newline>'' (map (readmeMd_request sampleJsons) (zip features [0..<length features])) @
     ''\<newline>'' @
     ''\<newline>'' @
     ''## Structure\<newline>'' @
     ''\<newline>'' @
     ''- `Core/`: Shared utilities (config, error, result).\<newline>'' @
     ''- `Features/`: Feature-specific modules ('' @
     js_join '', '' (map feature_name features) @ '').\<newline>'' @
     ''  - `domain/`: Business logic (entities, use cases, repositories).\<newline>'' @
     ''  - `data/`: Data access (models, data sources, repositories).\<newline>'' @
     ''  - `delivery/`: HTTP layer (controllers, middleware).\<newline>'' @
     ''  - `container.ts`: DI container setup.\<newline>'' @
     ''- `Server/`: Application entry point.\<newline>'' @
     ''- `__tests__/`: Jest tests for features.\<newline>'' @
     ''\<newline>'' @
     ''## Notes\<newline>'' @
     ''\<newline>'' @
     ''- Uses `tsyringe` for dependency injection and `zod` for validation.\<newline>'' @
     ''- Run `npm test` to execute unit and integration tests.\<newline>'' @
     ''- Ensure MongoDB is running for integration tests.''\<close>


section \<open>File system and process model\<close>

text \<open>
  The commands act on the file system through \<^verbatim>\<open>fs.promises\<close> and end either by
  returning or by \<^verbatim>\<open>process.exit(1)\<close>. The file system is a set of directories, a
  partial map from paths to file contents and the working directory of the process.
  Every awaited call is run in program order (the members of a \<^verbatim>\<open>Promise.all\<close>
  touch pairwise different paths, so their order does not show). Of the failures of the
  platform only a read of a missing file is modelled; permission errors and full disks
  are not.

  A write never fails here. On the platform \<^verbatim>\<open>writeFile\<close> throws \<^verbatim>\<open>ENOENT\<close> when
  the directory of the file is missing; the commands create every directory before they
  write into it, except for a feature name with a \<^verbatim>\<open>/\<close> in it, whose last part
  becomes part of a directory that is never created. Such names are outside what is
  proved below about successful runs.

  Paths are those of POSIX. \<^verbatim>\<open>path.join\<close> joins its non-empty arguments with
  \<^verbatim>\<open>/\<close> and normalises the result as \<^verbatim>\<open>path.normalize\<close> does: empty and
  \<^verbatim>\<open>.\<close> segments are dropped, \<^verbatim>\<open>..\<close> removes the segment before it (at the
  root of an absolute path it is dropped, at the start of a relative path it is kept),
  and a trailing separator is kept. A system call resolves its path against the working
  directory in the same way (\<^verbatim>\<open>path.resolve\<close>); symbolic links are not modelled.
\<close>

record filesystem =
  dirs :: "string set"
  files :: "string \<Rightarrow> string option"
  cwd :: string

text \<open>
  One step of \<^verbatim>\<open>normalizeString\<close>: the segments kept so far and the next segment.
\<close>

definition normalizeString_segment :: "bool \<Rightarrow> string list \<Rightarrow> string \<Rightarrow> string list" where
  "normalizeString_segment allowAboveRoot res seg =
     (if seg = [] \<or> seg = ''.'' then res
      else if seg = ''..'' then
        (if res \<noteq> [] \<and> last res \<noteq> ''..'' then butlast res
         else if allowAboveRoot then res @ [''..''] else res)
      else res @ [seg])"

definition normalizeString :: "string \<Rightarrow> bool \<Rightarrow> string list" where
  "normalizeString path allowAboveRoot =
     foldl (normalizeString_segment allowAboveRoot) [] (js_split CHR ''/'' path)"

definition path_normalize :: "string \<Rightarrow> string" where
  "path_normalize path =
     (if path = [] then ''.''
      else
        (let isAbsolute = (hd path = CHR ''/'');
             trailingSeparator = (last path = CHR ''/'');
             p = js_join ''/'' (normalizeString path (\<not> isAbsolute))
         in if p = [] then (if isAbsolute then ''/'' else if trailingSeparator then ''./'' else ''.'')
            else (if isAbsolute then ''/'' else []) @ p @ (if trailingSeparator then ''/'' else [])))"

definition path_join :: "string list \<Rightarrow> string" where
  "path_join segs =
     (let xs = filter (\<lambda>s. s \<noteq> []) segs
      in if xs = [] then ''.'' else path_normalize (js_join ''/'' xs))"

text \<open>The path a system call acts on.\<close>

definition path_resolve :: "filesystem \<Rightarrow> string \<Rightarrow> string" where
  "path_resolve fs p =
     (let full = (if startsWith p ''/'' then p else cwd fs @ ''/'' @ p);
          isAbsolute = startsWith full ''/'';
          q = js_join ''/'' (normalizeString full (\<not> isAbsolute))
      in if isAbsolute then CHR ''/'' # q else if q = [] then ''.'' else q)"

text \<open>The proper ancestors of a path, which a recursive \<^verbatim>\<open>mkdir\<close> creates as well.\<close>

fun path_prefixes :: "string \<Rightarrow> string \<Rightarrow> string list" where
  "path_prefixes acc [] = []"
| "path_prefixes acc (c # cs) =
     (if c = CHR ''/'' \<and> acc \<noteq> [] then acc # path_prefixes (acc @ [c]) cs
      else path_prefixes (acc @ [c]) cs)"

definition fs_access :: "filesystem \<Rightarrow> string \<Rightarrow> bool" where
  "fs_access fs p = (let q = path_resolve fs p in q \<in> dirs fs \<or> files fs q \<noteq> None)"

text \<open>\<^verbatim>\<open>fs.mkdir(p, { recursive: true })\<close>\<close>

definition fs_mkdir :: "filesystem \<Rightarrow> string \<Rightarrow> filesystem" where
  "fs_mkdir fs p =
     (let q = path_resolve fs p in fs\<lparr>dirs := dirs fs \<union> set (path_prefixes [] q) \<union> {q}\<rparr>)"

definition fs_writeFile :: "filesystem \<Rightarrow> string \<Rightarrow> string \<Rightarrow> filesystem" where
  "fs_writeFile fs p content = fs\<lparr>files := (files fs)(path_resolve fs p \<mapsto> content)\<rparr>"

definition fs_readFile :: "filesystem \<Rightarrow> string \<Rightarrow> error + string" where
  "fs_readFile fs p =
     (case files fs (path_resolve fs p) of
        None \<Rightarrow> Inl (ENOENT (path_resolve fs p))
      | Some content \<Rightarrow> Inr content)"

definition process_chdir :: "filesystem \<Rightarrow> string \<Rightarrow> filesystem" where
  "process_chdir fs p = fs\<lparr>cwd := path_resolve fs p\<rparr>"

text \<open>
  What a run leaves behind: the exit status (\<open>None\<close> when the command returns without
  calling \<^verbatim>\<open>process.exit\<close>), the file system and the console lines. The third
  constructor is \<^verbatim>\<open>console.error(message, error)\<close> of a catch block.
\<close>

datatype console_line = Log string | Error string | ErrorWith string error

record outcome =
  exit_code :: "nat option"
  fs_after :: filesystem
  console :: "console_line list"

definition default_fields :: string where
  "default_fields = ''name:string:minlength=3,email:string:email''"

text \<open>\<^verbatim>\<open>fieldDefs || 'name:string:minlength=3,email:string:email'\<close>\<close>

definition or_default :: "string \<Rightarrow> string" where
  "or_default fieldDefs = (if fieldDefs \<noteq> [] then fieldDefs else default_fields)"

subsection \<open>generateFeature\<close>

definition generateFeature :: "filesystem \<Rightarrow> string \<Rightarrow> string \<Rightarrow> Field list \<Rightarrow> filesystem \<times> console_line list" where
  "generateFeature fs projectRoot feature flds =
     (let featurePath = path_join [''Features'', feature];
          zodSchema = getZodSchema flds;
          sampleJson = getSampleJson flds;
          featureDirs =
            [path_join [featurePath, ''domain/entity''],
             path_join [featurePath, ''domain/usecases''],
             path_join [featurePath, ''domain/repositories''],
             path_join [featurePath, ''data/repositories''],
             path_join [featurePath, ''data/datasources''],
             path_join [featurePath, ''data/models''],
             path_join [featurePath, ''delivery/routes''],
             path_join [featurePath, ''delivery/controllers''],
             path_join [featurePath, ''delivery/middlewares''],
             path_join [''__tests__'', ''Features'', feature]];
          fs1 = foldl (\<lambda>s dir. fs_mkdir s (path_join [projectRoot, dir])) fs featureDirs;
          fs2 = foldl (\<lambda>s (p, content). fs_writeFile s p content) fs1
            [(path_join [projectRoot, featurePath, ''container.ts''], featureContainerTs feature),
             (path_join [projectRoot, featurePath, ''domain/entity'', feature @ ''.entity.ts''],
                featureEntityTs feature flds),
             (path_join [projectRoot, featurePath, ''domain/repositories'',
                feature @ ''.repository.interface.ts''], featureRepositoryInterfaceTs feature),
             (path_join [projectRoot, featurePath, ''domain/usecases'',
                ''create-'' @ feature @ ''.usecase.ts''], featureUseCaseTs feature flds),
             (path_join [projectRoot, featurePath, ''data/models'', feature @ ''.model.ts''],
                featureModelTs feature flds),
             (path_join [projectRoot, featurePath, ''data/datasources'',
                feature @ ''.datasource.ts''], featureDataSourceTs feature flds),
             (path_join [projectRoot, featurePath, ''data/repositories'',
                feature @ ''.repository.ts''], featureRepositoryTs feature),
             (path_join [projectRoot, featurePath, ''delivery/middlewares'',
                ''validate-'' @ feature @ ''.middleware.ts''],
                featureMiddlewareTs feature zodSchema),
             (path_join [projectRoot, featurePath, ''delivery/controllers'',
                feature @ ''.controller.ts''], featureControllerTs feature),
             (path_join [projectRoot, ''__tests__'', ''Features'', feature,
                feature @ ''.usecase.test.ts''], featureUseCaseTestTs feature flds sampleJson),
             (path_join [projectRoot, ''__tests__'', ''Features'', feature,
                feature @ ''.controller.test.ts''],
                featureControllerTestTs feature flds sampleJson)]
      in (fs2, [Log (''Created folder structure for feature: '' @ feature)]))"

subsection \<open>createProject\<close>

definition is_digit :: "char \<Rightarrow> bool" where
  "is_digit c = (let n = (of_char c :: nat) in 48 \<le> n \<and> n \<le> 57)"

text \<open>\<^verbatim>\<open>process.version.match(/^v(\d+)/)?.[1]\<close>\<close>

definition nodeVersion :: "string \<Rightarrow> string option" where
  "nodeVersion process_version =
     (case process_version of
        [] \<Rightarrow> None
      | c # r \<Rightarrow>
          if c = CHR ''v'' \<and> takeWhile is_digit r \<noteq> [] then Some (takeWhile is_digit r)
          else None)"

text \<open>\<^verbatim>\<open>parseInt\<close> on a string of decimal digits.\<close>

definition parseInt :: "string \<Rightarrow> nat" where
  "parseInt ds = foldl (\<lambda>n c. 10 * n + (of_char c - 48)) 0 ds"

definition NODE_VERSION :: string where
  "NODE_VERSION = ''18''"

definition createProject_directories :: "Feature list \<Rightarrow> string list" where
  "createProject_directories features =
     [''Core/config'', ''Core/error'', ''Core/result'', ''Server'', ''__tests__''] @
     concat (map (\<lambda>f.
       [''Features/'' @ feature_name f @ ''/domain/entity'',
        ''Features/'' @ feature_name f @ ''/domain/usecases'',
        ''Features/'' @ feature_name f @ ''/domain/repositories'',
        ''Features/'' @ feature_name f @ ''/data/repositories'',
        ''Features/'' @ feature_name f @ ''/data/datasources'',
        ''Features/'' @ feature_name f @ ''/data/models'',
        ''Features/'' @ feature_name f @ ''/delivery/routes'',
        ''Features/'' @ feature_name f @ ''/delivery/controllers'',
        ''Features/'' @ feature_name f @ ''/delivery/middlewares'',
        ''__tests__/Features/'' @ feature_name f]) features)"

text \<open>
  The loop \<^verbatim>\<open>for (const { name: feature, fields: fieldDefs } of features)\<close>. A throw
  of \<^verbatim>\<open>parseFields\<close> leaves the loop with the file system as it is at that moment.
\<close>

fun createProject_features ::
  "string \<Rightarrow> Feature list \<Rightarrow> filesystem \<times> string list \<times> console_line list \<Rightarrow>
   (error \<times> filesystem \<times> console_line list) + (filesystem \<times> string list \<times> console_line list)" where
  "createProject_features projectRoot [] st = Inr st"
| "createProject_features projectRoot (f # rest) (fs, sampleJsons, out) =
     (case parseFields (or_default (feature_fields f)) of
        Inl e \<Rightarrow> Inl (e, fs, out)
      | Inr flds \<Rightarrow>
          (case generateFeature fs projectRoot (feature_name f) flds of
             (fs', logged) \<Rightarrow>
               createProject_features projectRoot rest
                 (fs', sampleJsons @ [getSampleJson flds], out @ logged)))"

definition createProject ::
  "string \<Rightarrow> filesystem \<Rightarrow> string \<Rightarrow> string \<Rightarrow> Feature list \<Rightarrow> outcome" where
  "createProject process_version fs projectName pathSpec features =
     (let projectRoot = path_join [pathSpec, projectName] in
      if (case nodeVersion process_version of
            None \<Rightarrow> True
          | Some v \<Rightarrow> parseInt v < parseInt NODE_VERSION)
      then \<lparr>exit_code = Some 1, fs_after = fs,
             console = [Error (''Node.js version '' @ NODE_VERSION @
               '' or higher is required. Found: '' @ process_version)]\<rparr>
      else if fs_access fs projectRoot
      then \<lparr>exit_code = Some 1, fs_after = fs,
             console = [Error (''Directory '' @ projectRoot @
               '' already exists. Please remove it or choose a different name.'')]\<rparr>
      else
        (let fs1 = fs_mkdir fs projectRoot;
             fs2 = foldl (\<lambda>s dir. fs_mkdir s (path_join [projectRoot, dir])) fs1
                     (createProject_directories features);
             fs3 = process_chdir fs2 projectRoot;
             fs4 = foldl (\<lambda>s (p, content). fs_writeFile s p content) fs3
                     [(''package.json'', packageJson projectName),
                      (''tsconfig.json'', tsconfigJson),
                      (''jest.config.ts'', jestConfigTs),
                      (''.env'', env projectName),
                      (''.gitignore'', gitignore),
                      (''Core/result/result.ts'', resultTs),
                      (''Core/error/custom-error.ts'', customErrorTs),
                      (''Core/config/database.ts'', databaseTs),
                      (''Server/index.ts'', serverIndexTs features)]
         in case createProject_features projectRoot features
                   (fs4, [], [Log ''Created core folder structure'',
                              Log ''Initialized Node.js project'']) of
              Inl (e, fs', out) \<Rightarrow>
                \<lparr>exit_code = Some 1, fs_after = fs',
                 console = out @ [ErrorWith ''Failed to create project:'' e]\<rparr>
            | Inr (fs5, sampleJsons, out) \<Rightarrow>
                \<lparr>exit_code = None,
                 fs_after = fs_writeFile fs5 ''README.md''
                              (readmeMd projectName features sampleJsons),
                 console = out @
                   [Log ''Project setup complete!'',
                    Log ''To start the development server, run:'',
                    Log (''  cd '' @ projectRoot),
                    Log ''  npm install'',
                    Log ''  npm run dev'',
                    Log ''To run tests, run:'',
                    Log ''  npm test'',
                    Log ''Ensure MongoDB is running and update .env with the correct MONGODB_URI if needed.'']\<rparr>))"

subsection \<open>Regular expressions of the roster recovery\<close>

text \<open>The class \<^verbatim>\<open>\w\<close>: letters, digits and the underscore.\<close>

definition is_word :: "char \<Rightarrow> bool" where
  "is_word c =
     (let n = (of_char c :: nat)
      in (48 \<le> n \<and> n \<le> 57) \<or> (65 \<le> n \<and> n \<le> 90) \<or> n = 95 \<or> (97 \<le> n \<and> n \<le> 122))"

text \<open>
  A greedy \<^verbatim>\<open>(\w+)\<close> followed by the rest of the expression: the group first takes the
  whole run of word characters and gives characters back one by one until the rest
  matches; it never shrinks below one character. The result is the length of the group.
\<close>

fun backtrack :: "(string \<Rightarrow> bool) \<Rightarrow> string \<Rightarrow> nat \<Rightarrow> nat option" where
  "backtrack rest s 0 = None"
| "backtrack rest s (Suc k) =
     (if rest (drop (Suc k) s) then Some (Suc k) else backtrack rest s k)"

definition word_group :: "(string \<Rightarrow> bool) \<Rightarrow> string \<Rightarrow> nat option" where
  "word_group rest s = backtrack rest s (length (takeWhile is_word s))"

text \<open>
  \<^verbatim>\<open>s.match(/.../g)\<close>: all matches from left to right, the search resuming behind each
  match. The matcher gives the length of the match that starts at the current position;
  the counter says how many characters of the last match are still to be skipped.
\<close>

fun match_all :: "(string \<Rightarrow> nat option) \<Rightarrow> nat \<Rightarrow> string \<Rightarrow> string list" where
  "match_all m k [] = []"
| "match_all m (Suc k) (c # cs) = match_all m k cs"
| "match_all m 0 (c # cs) =
     (case m (c # cs) of
        Some n \<Rightarrow> take n (c # cs) # match_all m (n - 1) cs
      | None \<Rightarrow> match_all m 0 cs)"

text \<open>\<^verbatim>\<open>s.match(/.../)\<close> without the global flag: the leftmost match.\<close>

fun first_match :: "(string \<Rightarrow> 'a option) \<Rightarrow> string \<Rightarrow> 'a option" where
  "first_match m [] = m []"
| "first_match m (c # cs) =
     (case m (c # cs) of Some r \<Rightarrow> Some r | None \<Rightarrow> first_match m cs)"

text \<open>\<^verbatim>\<open>/import { (\w+)Controller }/\<close> at the current position.\<close>

definition match_import_controller :: "string \<Rightarrow> nat option" where
  "match_import_controller s =
     (if startsWith s ''import { '' then
        (case word_group (\<lambda>r. startsWith r ''Controller }'') (drop 9 s) of
           None \<Rightarrow> None
         | Some k \<Rightarrow> Some (9 + k + 12))
      else None)"

text \<open>\<^verbatim>\<open>/(\w+)Controller/\<close> at the current position; the result is group 1.\<close>

definition match_controller :: "string \<Rightarrow> string option" where
  "match_controller s =
     (case word_group (\<lambda>r. startsWith r ''Controller'') s of
        None \<Rightarrow> None
      | Some k \<Rightarrow> Some (take k s))"

text \<open>\<^verbatim>\<open>/Create a (\w+)/\<close> at the current position.\<close>

definition match_create_a :: "string \<Rightarrow> nat option" where
  "match_create_a s =
     (if startsWith s ''Create a '' then
        (case word_group (\<lambda>r. True) (drop 9 s) of
           None \<Rightarrow> None
         | Some k \<Rightarrow> Some (9 + k))
      else None)"

text \<open>
  \<^verbatim>\<open>/^# (.+)/m\<close>: with the flag \<^verbatim>\<open>m\<close> the anchor matches at the start of the text
  and behind every line terminator; the dot matches everything but a line terminator.
  The result is group 1 of the leftmost match.
\<close>

definition is_line_terminator :: "char \<Rightarrow> bool" where
  "is_line_terminator c = (c = CHR 0x0A \<or> c = CHR 0x0D)"

definition match_heading :: "string \<Rightarrow> string option" where
  "match_heading s =
     (let g = takeWhile (\<lambda>c. \<not> is_line_terminator c) (drop 2 s)
      in if startsWith s ''# '' \<and> g \<noteq> [] then Some g else None)"

fun first_match_at_line_start :: "(string \<Rightarrow> 'a option) \<Rightarrow> bool \<Rightarrow> string \<Rightarrow> 'a option" where
  "first_match_at_line_start m at_start [] = (if at_start then m [] else None)"
| "first_match_at_line_start m at_start (c # cs) =
     (case (if at_start then m (c # cs) else None) of
        Some r \<Rightarrow> Some r
      | None \<Rightarrow> first_match_at_line_start m (is_line_terminator c) cs)"

subsection \<open>addFeature\<close>

text \<open>
  The roster read back from the bootstrap file:
  \<^verbatim>\<open>serverContent.match(/import { (\w+)Controller }/g)?.map(m =>
    ({ name: m.match(/(\w+)Controller/)![1].toLowerCase(), fields: '' })) || []\<close>.
  Were the inner match null, reading its index 1 would throw a TypeError.
\<close>

definition addFeature_serverFeatures :: "string \<Rightarrow> error + Feature list" where
  "addFeature_serverFeatures serverContent =
     map_throwing
       (\<lambda>m. case first_match match_controller m of
               None \<Rightarrow> Inl (TypeError ''Cannot read properties of null'')
             | Some g \<Rightarrow> Inr \<lparr>feature_name = toLowerCase g, feature_fields = []\<rparr>)
       (match_all match_import_controller 0 serverContent)"

text \<open>\<^verbatim>\<open>readmeContent.match(/^# (.+)/m)?.[1] || 'Project'\<close>\<close>

definition addFeature_projectName :: "string \<Rightarrow> string" where
  "addFeature_projectName readmeContent =
     (case first_match_at_line_start match_heading True readmeContent of
        None \<Rightarrow> ''Project''
      | Some g \<Rightarrow> g)"

text \<open>
  \<^verbatim>\<open>readmeContent.match(/Create a (\w+)/g)?.map(m => m.split(' ')[2]) || []\<close>; each match
  holds two blanks, so index 2 is in range (lemma \<open>create_a_third_piece\<close>).
\<close>

definition addFeature_existingFeatures :: "string \<Rightarrow> string list" where
  "addFeature_existingFeatures readmeContent =
     map (\<lambda>m. js_split CHR '' '' m ! 2) (match_all match_create_a 0 readmeContent)"

definition addFeature_newFeatures :: "string list \<Rightarrow> string \<Rightarrow> string \<Rightarrow> Feature list" where
  "addFeature_newFeatures existingFeatures featureName fieldDefs =
     map (\<lambda>n. \<lparr>feature_name = n,
                feature_fields = (if n = featureName then fieldDefs else [])\<rparr>)
       (existingFeatures @ [featureName])"

text \<open>The body of the \<^verbatim>\<open>try\<close> block behind the marker check.\<close>

definition addFeature_try ::
  "filesystem \<Rightarrow> string \<Rightarrow> string \<Rightarrow> string \<Rightarrow>
   (error \<times> filesystem \<times> console_line list) + (filesystem \<times> console_line list)" where
  "addFeature_try fs projectRoot featureName fieldDefs =
     (case parseFields (or_default fieldDefs) of
        Inl e \<Rightarrow> Inl (e, fs, [])
      | Inr parsedFields \<Rightarrow>
     (case generateFeature fs projectRoot featureName parsedFields of (fs1, out1) \<Rightarrow>
     (case fs_readFile fs1 (path_join [projectRoot, ''Server/index.ts'']) of
        Inl e \<Rightarrow> Inl (e, fs1, out1)
      | Inr serverContent \<Rightarrow>
     (case addFeature_serverFeatures serverContent of
        Inl e \<Rightarrow> Inl (e, fs1, out1)
      | Inr recovered \<Rightarrow>
     (let feature = \<lparr>feature_name = featureName, feature_fields = fieldDefs\<rparr>;
          newServerContent = serverIndexTs (recovered @ [feature]);
          fs2 = fs_writeFile fs1 (path_join [projectRoot, ''Server/index.ts'']) newServerContent
      in
     (case fs_readFile fs2 (path_join [projectRoot, ''README.md'']) of
        Inl e \<Rightarrow> Inl (e, fs2, out1)
      | Inr readmeContent \<Rightarrow>
     (let projectName = addFeature_projectName readmeContent;
          existingFeatures = addFeature_existingFeatures readmeContent;
          newFeatures = addFeature_newFeatures existingFeatures featureName fieldDefs
      in
     (case map_throwing
             (\<lambda>f. case parseFields (or_default (feature_fields f)) of
                     Inl e \<Rightarrow> Inl e
                   | Inr parsed \<Rightarrow> Inr (getSampleJson parsed)) newFeatures of
        Inl e \<Rightarrow> Inl (e, fs2, out1)
      | Inr sampleJsons \<Rightarrow>
          Inr (fs_writeFile fs2 (path_join [projectRoot, ''README.md''])
                 (readmeMd projectName newFeatures sampleJsons),
               out1 @
               [Log (''Feature '' @ [CHR 0x27] @ featureName @ ''' added to '' @ projectName),
                Log ''Ensure MongoDB is running and update .env with the correct MONGODB_URI if needed.''])))))))))"

definition addFeature :: "filesystem \<Rightarrow> string \<Rightarrow> string \<Rightarrow> outcome" where
  "addFeature fs featureName fieldDefs =
     (let projectRoot = cwd fs in
      if \<not> fs_access fs (path_join [projectRoot, ''Server/index.ts''])
      then \<lparr>exit_code = Some 1, fs_after = fs,
             console = [Error ''Error: Current directory is not a tsclean project. Run from the project root.'']\<rparr>
      else
        (case addFeature_try fs projectRoot featureName fieldDefs of
           Inl (e, fs', out) \<Rightarrow>
             \<lparr>exit_code = Some 1, fs_after = fs',
              console = out @ [ErrorWith ''Failed to add feature:'' e]\<rparr>
         | Inr (fs', out) \<Rightarrow> \<lparr>exit_code = None, fs_after = fs', console = out\<rparr>))"

section \<open>Notions used in the statements\<close>

text \<open>One entry of the sample object, without the separator that follows it.\<close>

definition getSampleJson_entry :: "Field \<Rightarrow> string" where
  \<open>getSampleJson_entry f = ''"'' @ name f @ ''": '' @ getSampleJson_value f\<close>

text \<open>
  The grammar \<^verbatim>\<open>name:type[:rule]\<close> in the words of the specification: an entry has two
  or three colon-delimited parts, none of them empty; a field specification is a
  comma-separated list of such entries. \<open>field_to_spec\<close> writes a descriptor back in
  that grammar.
\<close>

definition valid_entry :: "string \<Rightarrow> bool" where
  "valid_entry e =
     (let parts = js_split CHR '':'' e
      in (length parts = 2 \<or> length parts = 3) \<and> list_all (\<lambda>p. p \<noteq> []) parts)"

definition valid_field_spec :: "string \<Rightarrow> bool" where
  "valid_field_spec s = list_all valid_entry (js_split CHR '','' s)"

definition field_to_spec :: "Field \<Rightarrow> string" where
  "field_to_spec f =
     name f @ '':'' @ type f @ (case rule f of None \<Rightarrow> [] | Some r \<Rightarrow> '':'' @ r)"

text \<open>The validator of a field type before any rule is applied.\<close>

definition bare_validator :: "string \<Rightarrow> string" where
  "bare_validator t =
     (if t = ''string'' then ''z.string()''
      else if t = ''number'' then ''z.number()''
      else if t = ''boolean'' then ''z.boolean()''
      else ''z.any()'')"

text \<open>
  A lower-case identifier: a non-empty string of the letters \<^verbatim>\<open>a-z\<close>, the digits and
  the underscore.
\<close>

definition is_lower_word :: "char \<Rightarrow> bool" where
  "is_lower_word c =
     (let n = (of_char c :: nat) in (48 \<le> n \<and> n \<le> 57) \<or> n = 95 \<or> (97 \<le> n \<and> n \<le> 122))"

definition lower_identifier :: "string \<Rightarrow> bool" where
  "lower_identifier n = (n \<noteq> [] \<and> list_all is_lower_word n)"

text \<open>
  Notions of the proofs about the roster recovery. A text is \<open>clean\<close> for a phrase
  when the phrase starts nowhere in it and no end of the text is a beginning of the
  phrase; a matcher \<open>needs\<close> a phrase when every match starts with it; \<open>scan m u out\<close>
  says that a global match over a text that begins with \<open>u\<close> finds \<open>out\<close> inside
  \<open>u\<close> and resumes behind it.
\<close>

fun clean :: "string \<Rightarrow> string \<Rightarrow> bool" where
  "clean P [] = True"
| "clean P (c # cs) = (\<not> prefix P (c # cs) \<and> \<not> prefix (c # cs) P \<and> clean P cs)"

definition needs :: "(string \<Rightarrow> nat option) \<Rightarrow> string \<Rightarrow> bool" where
  "needs m P = (\<forall>s k. m s = Some k \<longrightarrow> prefix P s)"

definition scan :: "(string \<Rightarrow> nat option) \<Rightarrow> string \<Rightarrow> string list \<Rightarrow> bool" where
  "scan m u out = (\<forall>rest. match_all m 0 (u @ rest) = out @ match_all m 0 rest)"

text \<open>
  A path segment that normalisation leaves alone, and the absolute path with given
  segments.
\<close>

definition plain_segment :: "string \<Rightarrow> bool" where
  "plain_segment s = (s \<noteq> [] \<and> CHR ''/'' \<notin> set s \<and> s \<noteq> ''.'' \<and> s \<noteq> ''..'')"

definition absolute_path :: "string list \<Rightarrow> string" where
  "absolute_path ds = CHR ''/'' # js_join ''/'' ds"

subsection \<open>What a reader of the generated files sees\<close>

text \<open>
  The routes a bootstrap file mounts: of every line that starts with
  \<^verbatim>\<open>app.use('/\<close>, the text between the quotes. The example requests of a README: of
  every line that starts with \<^verbatim>\<open>  curl -X POST \<close>, the address that follows.
\<close>

definition text_lines :: "string \<Rightarrow> string list" where
  "text_lines s = js_split CHR ''\<newline>'' s"

definition is_mount :: "string \<Rightarrow> bool" where
  \<open>is_mount l = startsWith l ''app.use('/''\<close>

definition mounted_routes :: "string \<Rightarrow> string list" where
  \<open>mounted_routes src =
     map (\<lambda>l. takeWhile (\<lambda>ch. ch \<noteq> CHR 0x27) (drop 9 l)) (filter is_mount (text_lines src))\<close>

definition is_request :: "string \<Rightarrow> bool" where
  \<open>is_request l = startsWith l ''  curl -X POST ''\<close>

definition example_requests :: "string \<Rightarrow> string list" where
  \<open>example_requests readme =
     map (\<lambda>l. takeWhile (\<lambda>ch. ch \<noteq> CHR '' '') (drop 15 l)) (filter is_request (text_lines readme))\<close>

text \<open>
  The lines of a text that satisfy a predicate, read character by character with the
  line read so far; this is \<open>filter P (text_lines s)\<close> (lemma \<open>filter_text_lines\<close>) in
  a form that computes on texts with variable parts.
\<close>

fun select_lines :: "(string \<Rightarrow> bool) \<Rightarrow> string \<Rightarrow> string \<Rightarrow> string list" where
  "select_lines P acc [] = (if P acc then [acc] else [])"
| "select_lines P acc (c # cs) =
     (if c = CHR ''\<newline>'' then (if P acc then [acc] else []) @ select_lines P [] cs
      else select_lines P (acc @ [c]) cs)"

subsection \<open>A sample project\<close>

text \<open>The descriptors of the default field specification.\<close>

definition default_parsed :: "Field list" where
  "default_parsed =
     [\<lparr>name = ''name'', type = ''string'', rule = Some ''minlength=3''\<rparr>,
      \<lparr>name = ''email'', type = ''string'', rule = Some ''email''\<rparr>]"

text \<open>
  A directory \<^verbatim>\<open>/work\<close> with nothing in it, and what \<^verbatim>\<open>createProject\<close> leaves
  there under Node.js 20 for the project \<^verbatim>\<open>shop\<close> with the features \<^verbatim>\<open>user\<close> (no
  field specification) and \<^verbatim>\<open>product\<close>.
\<close>

definition workspace :: filesystem where
  "workspace = \<lparr>dirs = {''/work''}, files = (\<lambda>p. None), cwd = ''/work''\<rparr>"

definition shop_features :: "Feature list" where
  "shop_features =
     [\<lparr>feature_name = ''user'', feature_fields = ''''\<rparr>,
      \<lparr>feature_name = ''product'', feature_fields = ''title:string,price:number:min=0''\<rparr>]"

definition shop :: filesystem where
  "shop = fs_after (createProject ''v20.11.0'' workspace ''shop'' ''/work'' shop_features)"

text \<open>The same create run for a project named \<^verbatim>\<open>Create a x\<close>.\<close>

definition phrase_project :: filesystem where
  "phrase_project =
     fs_after (createProject ''v20.11.0'' workspace ''Create a x'' ''/work'' shop_features)"

section \<open>Sample objects and the type mapper\<close>

lemma foldl_append_concat:
  "foldl (\<lambda>acc x. acc @ g x) init xs = init @ concat (map g xs)"
  by (induction xs arbitrary: init) simp_all

lemma concat_sep_js_join:
  "xs \<noteq> [] \<Longrightarrow> concat (map (\<lambda>x. g x @ sep) xs) = js_join sep (map g xs) @ sep"
proof (induction xs)
  case Nil
  then show ?case by simp
next
  case (Cons x xs)
  then show ?case by (cases xs) simp_all
qed

lemma getSampleJson_nonempty:
  assumes "fs \<noteq> []"
  shows "getSampleJson fs = ''{'' @ js_join '', '' (map getSampleJson_entry fs) @ ''}''"
proof -
  let ?g = "\<lambda>f. getSampleJson_entry f @ '', ''"
  have "foldl (\<lambda>json f. json @ ?g f) ''{'' fs = ''{'' @ concat (map ?g fs)"
    by (rule foldl_append_concat)
  also have "\<dots> = (''{'' @ js_join '', '' (map getSampleJson_entry fs)) @ '', ''"
    using assms by (simp add: concat_sep_js_join)
  finally have json: "foldl (\<lambda>json f. json @ ?g f) ''{'' fs =
      (''{'' @ js_join '', '' (map getSampleJson_entry fs)) @ '', ''" .
  have "getSampleJson fs = (let json = foldl (\<lambda>json f. json @ ?g f) ''{'' fs in take (length json - 2) json @ ''}'')"
    by (simp add: getSampleJson_def getSampleJson_entry_def)
  then show ?thesis
    unfolding json Let_def by simp
qed

text \<open>
  Claim C10: for the empty field list \<^verbatim>\<open>getSampleJson\<close> returns the single character
  \<^verbatim>\<open>}\<close>, not \<^verbatim>\<open>{}\<close>, because two characters are sliced off before the brace is
  appended; for every non-empty list the result begins with \<^verbatim>\<open>{\<close> and ends with
  \<^verbatim>\<open>}\<close>.
\<close>

theorem getSampleJson_braces:
  \<open>getSampleJson [] = ''}'' \<and> getSampleJson [] \<noteq> ''{}'' \<and>
   (fs \<noteq> [] \<longrightarrow> (\<exists>body. getSampleJson fs = ''{'' @ body @ ''}''))\<close>
proof (intro conjI impI)
  show "getSampleJson [] = ''}''" by (simp add: getSampleJson_def)
  show "getSampleJson [] \<noteq> ''{}''" by (simp add: getSampleJson_def)
next
  assume "fs \<noteq> []"
  then show "\<exists>body. getSampleJson fs = ''{'' @ body @ ''}''"
    using getSampleJson_nonempty by blast
qed

theorem getSampleJson_braces_witness:
  \<open>[\<lparr>name = ''age'', type = ''number'', rule = Some ''min=18''\<rparr>] \<noteq> [] \<and>
   (\<exists>body. getSampleJson [\<lparr>name = ''age'', type = ''number'', rule = Some ''min=18''\<rparr>]
      = ''{'' @ body @ ''}'') \<and>
   getSampleJson [\<lparr>name = ''age'', type = ''number'', rule = Some ''min=18''\<rparr>] = ''{"age": 123}''\<close>
  using getSampleJson_braces [of "[\<lparr>name = ''age'', type = ''number'', rule = Some ''min=18''\<rparr>]"]
  by (simp add: getSampleJson_def getSampleJson_value_def)

text \<open>
  Claim C7: the type mapper is total. The tokens \<^verbatim>\<open>string\<close>, \<^verbatim>\<open>number\<close> and
  \<^verbatim>\<open>boolean\<close> map to their target and storage types, every other token maps to
  \<^verbatim>\<open>any\<close> and \<^verbatim>\<open>Mixed\<close>, and the result is always one of the four mapped values.
\<close>

theorem type_mapper_total:
  "toTsType ''string'' = ''string'' \<and> toMongooseType ''string'' = ''String'' \<and>
   toTsType ''number'' = ''number'' \<and> toMongooseType ''number'' = ''Number'' \<and>
   toTsType ''boolean'' = ''boolean'' \<and> toMongooseType ''boolean'' = ''Boolean'' \<and>
   (t \<notin> {''string'', ''number'', ''boolean''} \<longrightarrow>
      toTsType t = ''any'' \<and> toMongooseType t = ''Mixed'') \<and>
   toTsType t \<in> {''string'', ''number'', ''boolean'', ''any''} \<and>
   toMongooseType t \<in> {''String'', ''Number'', ''Boolean'', ''Mixed''}"
  by (simp add: toTsType_def toMongooseType_def)

theorem type_mapper_total_witness:
  "''date'' \<notin> {''string'', ''number'', ''boolean''} \<and>
   toTsType ''date'' = ''any'' \<and> toMongooseType ''date'' = ''Mixed''"
  using type_mapper_total [of "''date''"] by simp

section \<open>Field grammar: validity and round trip\<close>


lemma js_split_nonempty: "js_split sep s \<noteq> []"
  by (induction s) (auto split: list.splits)

lemma js_split_takeWhile:
  "js_split sep s =
     takeWhile (\<lambda>c. c \<noteq> sep) s #
     (case dropWhile (\<lambda>c. c \<noteq> sep) s of [] \<Rightarrow> [] | _ # r \<Rightarrow> js_split sep r)"
  by (induction s) (auto split: list.splits)

lemma hd_js_split: "hd (js_split sep s) = takeWhile (\<lambda>c. c \<noteq> sep) s"
  by (subst js_split_takeWhile) simp

lemma js_split_no_sep: "sep \<notin> set s \<Longrightarrow> js_split sep s = [s]"
  by (induction s) auto

lemma js_split_append:
  "sep \<notin> set a \<Longrightarrow> js_split sep (a @ sep # b) = a # js_split sep b"
  by (induction a) auto

lemma js_split_pieces: "x \<in> set (js_split sep s) \<Longrightarrow> sep \<notin> set x"
proof (induction s arbitrary: x)
  case Nil
  then show ?case by simp
next
  case (Cons c cs)
  then show ?case
    by (cases "js_split sep cs") (auto simp: js_split_nonempty split: if_splits)
qed

lemma js_join_js_split: "js_join [sep] (js_split sep s) = s"
proof (induction s)
  case Nil
  then show ?case by simp
next
  case (Cons c cs)
  obtain p ps where ps: "js_split sep cs = p # ps"
    using js_split_nonempty by (cases "js_split sep cs") auto
  with Cons show ?case by (cases ps) auto
qed

lemma js_split_js_join:
  "xs \<noteq> [] \<Longrightarrow> \<forall>x\<in>set xs. sep \<notin> set x \<Longrightarrow> js_split sep (js_join [sep] xs) = xs"
proof (induction xs)
  case Nil
  then show ?case by simp
next
  case (Cons x xs)
  show ?case
  proof (cases xs)
    case Nil
    with Cons.prems show ?thesis by (simp add: js_split_no_sep)
  next
    case (Cons y ys)
    with Cons.IH Cons.prems have "js_split sep (js_join [sep] xs) = xs" by simp
    with Cons Cons.prems show ?thesis by (simp add: js_split_append)
  qed
qed

lemma FieldSchema_test_parts: "FieldSchema_test e = valid_entry e"
proof -
  let ?P = "\<lambda>c. c \<noteq> CHR '':''"
  have split: "\<And>s. js_split CHR '':'' s =
      takeWhile ?P s # (case dropWhile ?P s of [] \<Rightarrow> [] | _ # r \<Rightarrow> js_split CHR '':'' r)"
    by (rule js_split_takeWhile)
  have nc: "not_colon = ?P" by (simp add: not_colon_def fun_eq_iff)
  show ?thesis
  proof (cases "dropWhile ?P e")
    case Nil
    then show ?thesis
      by (simp add: FieldSchema_test_def valid_entry_def nc split[of e] del: dropWhile_eq_Nil_conv)
  next
    case e: (Cons c1 s1)
    show ?thesis
    proof (cases "dropWhile ?P s1")
      case Nil
      with e show ?thesis
        by (simp add: FieldSchema_test_def valid_entry_def nc split[of e] split[of s1] del: dropWhile_eq_Nil_conv)
    next
      case s1: (Cons c2 s2)
      show ?thesis
      proof (cases "dropWhile ?P s2")
        case Nil
        with e s1 show ?thesis
          by (simp add: FieldSchema_test_def valid_entry_def nc split[of e] split[of s1] split[of s2] del: dropWhile_eq_Nil_conv)
      next
        case s2: (Cons c3 s3)
        with e s1 show ?thesis
          by (simp add: FieldSchema_test_def valid_entry_def nc split[of e] split[of s1] split[of s2]
                js_split_nonempty del: dropWhile_eq_Nil_conv)
      qed
    qed
  qed
qed

lemma parseFields_pair_valid:
  "valid_entry e \<Longrightarrow> \<exists>f. parseFields_pair e = Inr f \<and> field_to_spec f = e"
proof -
  assume v: "valid_entry e"
  have j: "js_join '':'' (js_split CHR '':'' e) = e" by (rule js_join_js_split)
  from v consider n t where "js_split CHR '':'' e = [n, t]"
    | n t r where "js_split CHR '':'' e = [n, t, r]"
    unfolding valid_entry_def Let_def
    by (cases "js_split CHR '':'' e" rule: list.exhaust; simp)
       (metis (no_types, opaque_lifting) length_0_conv length_Suc_conv numeral_2_eq_2 numeral_3_eq_3 Suc_inject)
  then show ?thesis
  proof cases
    case 1
    with v j show ?thesis
      by (auto simp: parseFields_pair_def FieldSchema_test_parts field_to_spec_def)
  next
    case 2
    with v j show ?thesis
      by (auto simp: parseFields_pair_def FieldSchema_test_parts field_to_spec_def)
  qed
qed

lemma parseFields_pair_invalid:
  "\<not> valid_entry e \<Longrightarrow> parseFields_pair e = Inl (ZodError FieldSchema_message)"
  by (auto simp: parseFields_pair_def FieldSchema_test_parts split: list.splits)

lemma map_throwing_all_valid:
  "list_all valid_entry es \<Longrightarrow>
   \<exists>flds. map_throwing parseFields_pair es = Inr flds \<and> map field_to_spec flds = es"
proof (induction es)
  case Nil
  then show ?case by simp
next
  case (Cons e es)
  then obtain f flds where "parseFields_pair e = Inr f" "field_to_spec f = e"
    "map_throwing parseFields_pair es = Inr flds" "map field_to_spec flds = es"
    using parseFields_pair_valid by fastforce
  then show ?case by simp
qed

lemma map_throwing_some_invalid:
  "\<not> list_all valid_entry es \<Longrightarrow>
   map_throwing parseFields_pair es = Inl (ZodError FieldSchema_message)"
proof (induction es)
  case Nil
  then show ?case by simp
next
  case (Cons e es)
  show ?case
  proof (cases "valid_entry e")
    case True
    with Cons have "map_throwing parseFields_pair es = Inl (ZodError FieldSchema_message)" by simp
    moreover from True obtain f where "parseFields_pair e = Inr f"
      using parseFields_pair_valid by blast
    ultimately show ?thesis by simp
  next
    case False
    then show ?thesis by (simp add: parseFields_pair_invalid)
  qed
qed

lemma parseFields_valid:
  assumes "valid_field_spec s"
  shows "\<exists>flds. parseFields s = Inr flds \<and> map field_to_spec flds = js_split CHR '','' s"
proof -
  from assms have "s \<noteq> []"
    by (auto simp: valid_field_spec_def valid_entry_def)
  moreover from assms obtain flds where
    "map_throwing parseFields_pair (js_split CHR '','' s) = Inr flds"
    "map field_to_spec flds = js_split CHR '','' s"
    using map_throwing_all_valid unfolding valid_field_spec_def by blast
  ultimately show ?thesis by (simp add: parseFields_def)
qed

lemma parseFields_invalid:
  "s \<noteq> [] \<Longrightarrow> \<not> valid_field_spec s \<Longrightarrow> parseFields s = Inl (ZodError FieldSchema_message)"
  by (simp add: parseFields_def valid_field_spec_def map_throwing_some_invalid)

lemma parseFields_error: "parseFields s = Inl e \<Longrightarrow> e = ZodError FieldSchema_message"
proof -
  assume a: "parseFields s = Inl e"
  then have "s \<noteq> []" by (auto simp: parseFields_def)
  moreover from a have "\<not> valid_field_spec s" using parseFields_valid by fastforce
  ultimately show ?thesis using a parseFields_invalid by simp
qed

text \<open>
  Claim C4: for every field specification that matches the grammar, \<^verbatim>\<open>parseFields\<close>
  succeeds, and writing each returned descriptor back as \<^verbatim>\<open>name:type[:rule]\<close> and
  joining the entries with commas gives the original string; the descriptors come in the
  order of the entries.
\<close>

theorem parseFields_roundtrip:
  "valid_field_spec s \<Longrightarrow>
   \<exists>flds. parseFields s = Inr flds \<and>
          js_join '','' (map field_to_spec flds) = s \<and>
          map field_to_spec flds = js_split CHR '','' s"
proof -
  assume "valid_field_spec s"
  then obtain flds where "parseFields s = Inr flds" "map field_to_spec flds = js_split CHR '','' s"
    using parseFields_valid by blast
  moreover have "js_join '','' (js_split CHR '','' s) = s" by (rule js_join_js_split)
  ultimately show ?thesis by simp
qed

theorem parseFields_roundtrip_witness:
  "valid_field_spec ''name:string:minlength=3,price:number'' \<and>
   (\<exists>flds. parseFields ''name:string:minlength=3,price:number'' = Inr flds \<and>
      js_join '','' (map field_to_spec flds) = ''name:string:minlength=3,price:number'' \<and>
      map field_to_spec flds = [''name:string:minlength=3'', ''price:number''])"
proof -
  have v: "valid_field_spec ''name:string:minlength=3,price:number''"
    by (simp add: valid_field_spec_def valid_entry_def)
  show ?thesis using v parseFields_roundtrip [OF v] by simp
qed

section \<open>Rules: sample values\<close>


lemma takeWhile_not_mem: "c \<notin> set l \<Longrightarrow> takeWhile (\<lambda>x. x \<noteq> c) l = l"
  by (induction l) auto

lemma takeWhile_append_not_mem:
  "c \<notin> set l \<Longrightarrow> takeWhile (\<lambda>x. x \<noteq> c) (l @ r) = l @ takeWhile (\<lambda>x. x \<noteq> c) r"
  by (induction l) auto

lemma startsWith_append: "startsWith r p \<Longrightarrow> r = p @ drop (length p) r"
  unfolding startsWith_def by (metis append_take_drop_id)

lemma split_eq_argument:
  assumes "startsWith r (p @ ''='')" and "CHR ''='' \<notin> set p"
  shows "js_split CHR ''='' r =
           p # js_split CHR ''='' (drop (length p + 1) r)"
proof -
  from assms(1) have "r = p @ CHR ''='' # drop (length p + 1) r"
    using startsWith_append by fastforce
  then have "js_split CHR ''='' r = js_split CHR ''='' (p @ CHR ''='' # drop (length p + 1) r)"
    by simp
  also have "\<dots> = p # js_split CHR ''='' (drop (length p + 1) r)"
    using assms(2) by (rule js_split_append)
  finally show ?thesis .
qed

lemma split_eq_index:
  assumes "startsWith r (p @ ''='')" and "CHR ''='' \<notin> set p"
  shows "1 < length (js_split CHR ''='' r)"
    and "js_split CHR ''='' r ! 1 = takeWhile (\<lambda>c. c \<noteq> CHR ''='') (drop (length p + 1) r)"
proof -
  have s: "js_split CHR ''='' r = p # js_split CHR ''='' (drop (length p + 1) r)"
    using assms by (rule split_eq_argument)
  show "1 < length (js_split CHR ''='' r)"
    unfolding s using js_split_nonempty[of "CHR ''=''" "drop (length p + 1) r"]
    by (cases "js_split CHR ''='' (drop (length p + 1) r)") simp_all
  show "js_split CHR ''='' r ! 1 = takeWhile (\<lambda>c. c \<noteq> CHR ''='') (drop (length p + 1) r)"
    unfolding s using hd_js_split[of "CHR ''=''" "drop (length p + 1) r"]
      js_split_nonempty[of "CHR ''=''" "drop (length p + 1) r"]
    by (cases "js_split CHR ''='' (drop (length p + 1) r)") simp_all
qed

lemma rule_argument_plain:
  assumes "CHR ''='' \<notin> set p" and "CHR ''='' \<notin> set a"
  shows "js_split CHR ''='' (p @ ''='' @ a) ! 1 = a"
proof -
  have "startsWith (p @ ''='' @ a) (p @ ''='')" by (simp add: startsWith_def)
  from split_eq_index(2)[OF this assms(1)] assms(2) show ?thesis by auto
qed

lemma getSampleJson_value_enum:
  assumes "type f = ''string''" and "rule f = Some r" and "startsWith r ''enum=''"
  shows \<open>getSampleJson_value f =
           ''"'' @ takeWhile (\<lambda>c. c \<noteq> CHR ''|'') (takeWhile (\<lambda>c. c \<noteq> CHR ''='') (drop 5 r)) @ ''"''\<close>
proof -
  have "startsWith r (''enum'' @ ''='')" using assms(3) by simp
  then have "js_split CHR ''='' r ! 1 =
      takeWhile (\<lambda>c. c \<noteq> CHR ''='') (drop (length ''enum'' + 1) r)"
    by (rule split_eq_index(2)) simp
  moreover have "length ''enum'' + 1 = (5::nat)" by simp
  ultimately have "js_split CHR ''='' r ! 1 = takeWhile (\<lambda>c. c \<noteq> CHR ''='') (drop 5 r)"
    by (simp only:)
  moreover have "r \<noteq> ''email''" using assms(3) by (auto simp: startsWith_def)
  ultimately show ?thesis
    using assms by (simp add: getSampleJson_value_def hd_js_split)
qed

lemma getSampleJson_value_cases:
  \<open>(type f = ''string'' \<and> rule f = Some ''email'' \<longrightarrow>
      getSampleJson_value f = ''"test@example.com"'') \<and>
   (type f = ''string'' \<and> rule f = Some (''enum='' @ js_join ''|'' (l # ls)) \<and>
    CHR ''='' \<notin> set l \<and> CHR ''|'' \<notin> set l \<longrightarrow>
      getSampleJson_value f = ''"'' @ l @ ''"'') \<and>
   (type f = ''number'' \<longrightarrow> getSampleJson_value f = ''123'') \<and>
   (type f = ''boolean'' \<longrightarrow> getSampleJson_value f = ''true'') \<and>
   (type f \<notin> {''string'', ''number'', ''boolean''} \<longrightarrow> getSampleJson_value f = ''null'') \<and>
   (type f = ''string'' \<and> rule f \<noteq> Some ''email'' \<and>
    (\<forall>r. rule f = Some r \<longrightarrow> \<not> startsWith r ''enum='') \<longrightarrow>
      getSampleJson_value f = ''"sample_'' @ name f @ ''"'')\<close>
proof (intro conjI impI)
  assume a: "type f = ''string'' \<and> rule f = Some (''enum='' @ js_join ''|'' (l # ls)) \<and>
    CHR ''='' \<notin> set l \<and> CHR ''|'' \<notin> set l"
  have tw: "takeWhile (\<lambda>c. c \<noteq> CHR ''|'') (takeWhile (\<lambda>c. c \<noteq> CHR ''='') (js_join ''|'' (l # ls))) = l"
  proof (cases ls)
    case Nil
    with a show ?thesis by (simp add: takeWhile_not_mem)
  next
    case (Cons y ys)
    then have "js_join ''|'' (l # ls) = l @ CHR ''|'' # js_join ''|'' ls" by simp
    with a show ?thesis by (simp add: takeWhile_append_not_mem)
  qed
  have "startsWith (''enum='' @ js_join ''|'' (l # ls)) ''enum=''" by (simp add: startsWith_def)
  from getSampleJson_value_enum[OF _ _ this, of f] a tw
  show \<open>getSampleJson_value f = ''"'' @ l @ ''"''\<close> by simp
qed (auto simp: getSampleJson_value_def split: option.splits)

text \<open>
  Claim C6 says that a string field with an \<^verbatim>\<open>enum=\<close> rule gets the first listed
  literal as its sample. The generator takes \<^verbatim>\<open>rule.split('=')[1]\<close>, which ends at
  the next \<^verbatim>\<open>=\<close>: for the field \<^verbatim>\<open>op:string:enum=a=b|c\<close>, which the parser accepts
  and whose first listed literal is \<^verbatim>\<open>a=b\<close>, the sample is \<^verbatim>\<open>"a"\<close>. The other
  cases of the claim, and the enum case for a first literal without \<^verbatim>\<open>=\<close>, are
  lemma \<open>getSampleJson_value_cases\<close>.
\<close>

theorem getSampleJson_enum_literal_cut:
  \<open>getSampleJson_value \<lparr>name = ''op'', type = ''string'', rule = Some ''enum=a=b|c''\<rparr> = ''"a"'' \<and>
   getSampleJson [\<lparr>name = ''op'', type = ''string'', rule = Some ''enum=a=b|c''\<rparr>] = ''{"op": "a"}'' \<and>
   parseFields ''op:string:enum=a=b|c'' = Inr [\<lparr>name = ''op'', type = ''string'', rule = Some ''enum=a=b|c''\<rparr>]\<close>
  by (simp add: getSampleJson_def getSampleJson_value_def startsWith_def parseFields_def
        parseFields_pair_def FieldSchema_test_def not_colon_def)

section \<open>Rules: schema fragments\<close>


lemma rule_argument:
  "CHR ''='' \<notin> set a \<Longrightarrow> js_split CHR ''='' (''minlength='' @ a) ! 1 = a"
  "CHR ''='' \<notin> set a \<Longrightarrow> js_split CHR ''='' (''maxlength='' @ a) ! 1 = a"
  "CHR ''='' \<notin> set a \<Longrightarrow> js_split CHR ''='' (''min='' @ a) ! 1 = a"
  "CHR ''='' \<notin> set a \<Longrightarrow> js_split CHR ''='' (''max='' @ a) ! 1 = a"
  "CHR ''='' \<notin> set a \<Longrightarrow> js_split CHR ''='' (''enum='' @ a) ! 1 = a"
  using rule_argument_plain[of "''minlength''" a] rule_argument_plain[of "''maxlength''" a]
    rule_argument_plain[of "''min''" a] rule_argument_plain[of "''max''" a]
    rule_argument_plain[of "''enum''" a]
  by simp_all

lemma js_join_no_sep:
  "\<forall>l\<in>set ls. c \<notin> set l \<Longrightarrow> c \<notin> set sep \<Longrightarrow> c \<notin> set (js_join sep ls)"
  by (induction sep ls rule: js_join.induct) auto

lemma getZodSchema_zodType_cases:
  \<open>(rule f = None \<or> rule f = Some [] \<longrightarrow> getZodSchema_zodType f = bare_validator (type f)) \<and>
   (rule f = Some ''email'' \<longrightarrow> getZodSchema_zodType f = bare_validator (type f) @ ''.email()'') \<and>
   (rule f = Some (''minlength='' @ n) \<and> CHR ''='' \<notin> set n \<longrightarrow>
      getZodSchema_zodType f = bare_validator (type f) @ ''.min('' @ n @ '')'') \<and>
   (rule f = Some (''maxlength='' @ n) \<and> CHR ''='' \<notin> set n \<longrightarrow>
      getZodSchema_zodType f = bare_validator (type f) @ ''.max('' @ n @ '')'') \<and>
   (rule f = Some (''min='' @ n) \<and> CHR ''='' \<notin> set n \<longrightarrow>
      getZodSchema_zodType f = bare_validator (type f) @ ''.min('' @ n @ '')'') \<and>
   (rule f = Some (''max='' @ n) \<and> CHR ''='' \<notin> set n \<longrightarrow>
      getZodSchema_zodType f = bare_validator (type f) @ ''.max('' @ n @ '')'') \<and>
   (rule f = Some (''enum='' @ js_join ''|'' ls) \<and> ls \<noteq> [] \<and>
    (\<forall>l\<in>set ls. CHR ''='' \<notin> set l \<and> CHR ''|'' \<notin> set l) \<longrightarrow>
      getZodSchema_zodType f =
        ''z.enum(['' @ js_join '', '' (map (\<lambda>l. ''"'' @ l @ ''"'') ls) @ ''])'') \<and>
   (rule f = Some r \<and> r \<noteq> ''email'' \<and> \<not> startsWith r ''minlength='' \<and>
    \<not> startsWith r ''maxlength='' \<and> \<not> startsWith r ''min='' \<and> \<not> startsWith r ''max='' \<and>
    \<not> startsWith r ''enum='' \<longrightarrow> getZodSchema_zodType f = bare_validator (type f))\<close>
proof (intro conjI impI)
  assume a: "rule f = Some (''enum='' @ js_join ''|'' ls) \<and> ls \<noteq> [] \<and>
    (\<forall>l\<in>set ls. CHR ''='' \<notin> set l \<and> CHR ''|'' \<notin> set l)"
  then have "CHR ''='' \<notin> set (js_join ''|'' ls)"
    by (intro js_join_no_sep) auto
  then have "js_split CHR ''='' (''enum='' @ js_join ''|'' ls) ! 1 = js_join ''|'' ls"
    by (rule rule_argument)
  moreover have "js_split CHR ''|'' (js_join ''|'' ls) = ls"
    using a js_split_js_join[of ls "CHR ''|''"] by simp
  ultimately show \<open>getZodSchema_zodType f =
        ''z.enum(['' @ js_join '', '' (map (\<lambda>l. ''"'' @ l @ ''"'') ls) @ ''])''\<close>
    using a by (simp add: getZodSchema_zodType_def startsWith_def)
next
  assume "rule f = Some r \<and> r \<noteq> ''email'' \<and> \<not> startsWith r ''minlength='' \<and>
    \<not> startsWith r ''maxlength='' \<and> \<not> startsWith r ''min='' \<and> \<not> startsWith r ''max='' \<and>
    \<not> startsWith r ''enum=''"
  then show "getZodSchema_zodType f = bare_validator (type f)"
    by (simp add: getZodSchema_zodType_def bare_validator_def Let_def)
qed (auto simp: getZodSchema_zodType_def bare_validator_def startsWith_def Let_def js_split_no_sep)

text \<open>
  Claim C5 says that \<^verbatim>\<open>enum=a|b|c\<close> replaces the validator by an enum over exactly
  the listed literals. \<^verbatim>\<open>getZodSchema\<close> splits \<^verbatim>\<open>rule.split('=')[1]\<close> at the
  bars, so the list ends at the second \<^verbatim>\<open>=\<close> of the rule: for the field
  \<^verbatim>\<open>op:string:enum=a=b|c\<close>, whose listed literals are \<^verbatim>\<open>a=b\<close> and \<^verbatim>\<open>c\<close>, the
  emitted validator is \<^verbatim>\<open>z.enum(["a"])\<close>. The other cases of the claim, and the enum
  case for literals without \<^verbatim>\<open>=\<close>, are lemma \<open>getZodSchema_zodType_cases\<close>.
\<close>

theorem getZodSchema_enum_literal_cut:
  \<open>parseFields ''op:string:enum=a=b|c'' =
     Inr [\<lparr>name = ''op'', type = ''string'', rule = Some ''enum=a=b|c''\<rparr>] \<and>
   getZodSchema_zodType \<lparr>name = ''op'', type = ''string'', rule = Some ''enum=a=b|c''\<rparr> =
     ''z.enum(["a"])'' \<and>
   getZodSchema [\<lparr>name = ''op'', type = ''string'', rule = Some ''enum=a=b|c''\<rparr>] =
     ''z.object({\<newline>    op: z.enum(["a"]),\<newline>})''\<close>
  by (simp add: getZodSchema_def getZodSchema_zodType_def startsWith_def parseFields_def
        parseFields_pair_def FieldSchema_test_def not_colon_def)

section \<open>Naming convention across the emitted files\<close>









section \<open>Commands: preconditions and failures\<close>


lemma dirs_fs_mkdir: "dirs fs \<subseteq> dirs (fs_mkdir fs p)"
  by (auto simp: fs_mkdir_def Let_def)

lemma resolved_in_fs_mkdir: "path_resolve fs p \<in> dirs (fs_mkdir fs p)"
  by (simp add: fs_mkdir_def Let_def)

lemma cwd_fs_mkdir [simp]: "cwd (fs_mkdir fs p) = cwd fs"
  by (simp add: fs_mkdir_def Let_def)

lemma files_fs_mkdir [simp]: "files (fs_mkdir fs p) = files fs"
  by (simp add: fs_mkdir_def Let_def)

lemma dirs_fs_writeFile [simp]: "dirs (fs_writeFile fs p c) = dirs fs"
  by (simp add: fs_writeFile_def)

lemma cwd_fs_writeFile [simp]: "cwd (fs_writeFile fs p c) = cwd fs"
  by (simp add: fs_writeFile_def)

lemma dirs_process_chdir [simp]: "dirs (process_chdir fs p) = dirs fs"
  by (simp add: process_chdir_def)

lemma dirs_foldl_mkdir: "dirs fs \<subseteq> dirs (foldl (\<lambda>s d. fs_mkdir s (g d)) fs ds)"
proof (induction ds arbitrary: fs)
  case Nil
  then show ?case by simp
next
  case (Cons d ds)
  have "dirs fs \<subseteq> dirs (fs_mkdir fs (g d))" by (rule dirs_fs_mkdir)
  also have "\<dots> \<subseteq> dirs (foldl (\<lambda>s d. fs_mkdir s (g d)) (fs_mkdir fs (g d)) ds)" by (rule Cons.IH)
  finally show ?case by simp
qed

lemma dirs_foldl_writeFile:
  "dirs (foldl (\<lambda>s (p, content). fs_writeFile s p content) fs ws) = dirs fs"
  by (induction ws arbitrary: fs) (auto)

lemma dirs_generateFeature: "dirs fs \<subseteq> dirs (fst (generateFeature fs root n flds))"
  unfolding generateFeature_def Let_def fst_conv dirs_foldl_writeFile
  by (rule dirs_foldl_mkdir)

subsection \<open>Paths\<close>

lemma js_split_sep_append:
  "js_split sep (a @ sep # b) = js_split sep a @ js_split sep b"
proof (induction a)
  case Nil
  then show ?case by simp
next
  case (Cons c a)
  obtain p ps where "js_split sep a = p # ps"
    using js_split_nonempty by (cases "js_split sep a") auto
  with Cons show ?case by simp
qed

lemma js_split_js_join_concat:
  "xs \<noteq> [] \<Longrightarrow> js_split sep (js_join [sep] xs) = concat (map (js_split sep) xs)"
proof (induction xs)
  case Nil
  then show ?case by simp
next
  case (Cons x xs)
  then show ?case by (cases xs) (simp_all add: js_split_sep_append)
qed

lemma plain_segment_no_sep: "plain_segment s \<Longrightarrow> js_split CHR ''/'' s = [s]"
  by (simp add: plain_segment_def js_split_no_sep)

lemma normalize_plain:
  "list_all plain_segment segs \<Longrightarrow>
   foldl (normalizeString_segment a) res segs = res @ segs"
  by (induction segs arbitrary: res) (simp_all add: normalizeString_segment_def plain_segment_def)

lemma normalize_empty [simp]:
  "foldl (normalizeString_segment a) res ([] # segs) = foldl (normalizeString_segment a) res segs"
  by (simp add: normalizeString_segment_def)

lemma js_join_plain_nonempty:
  "list_all plain_segment ds \<Longrightarrow> ds \<noteq> [] \<Longrightarrow>
   js_join ''/'' ds \<noteq> [] \<and> last (js_join ''/'' ds) \<noteq> CHR ''/''"
proof (induction ds)
  case Nil
  then show ?case by simp
next
  case (Cons d ds)
  show ?case
  proof (cases ds)
    case Nil
    from Cons.prems have "d \<noteq> []" "CHR ''/'' \<notin> set d" by (simp_all add: plain_segment_def)
    with last_in_set[of d] have "last d \<noteq> CHR ''/''" by metis
    with Nil \<open>d \<noteq> []\<close> show ?thesis by simp
  next
    case (Cons e es)
    with Cons.IH Cons.prems show ?thesis by (auto simp: plain_segment_def)
  qed
qed

lemma js_split_absolute_path:
  "list_all plain_segment ds \<Longrightarrow>
   js_split CHR ''/'' (absolute_path ds) = [] # (if ds = [] then [[]] else ds)"
  by (auto simp: absolute_path_def js_split_js_join plain_segment_def list_all_iff)

lemma pieces_plain_last:
  assumes "list_all plain_segment (js_split CHR ''/'' x)"
  shows "x \<noteq> [] \<and> hd x \<noteq> CHR ''/'' \<and> last x \<noteq> CHR ''/''"
proof -
  have "js_join ''/'' (js_split CHR ''/'' x) = x"
  proof (induction x)
    case Nil
    then show ?case by simp
  next
    case (Cons c cs)
    obtain p ps where ps: "js_split CHR ''/'' cs = p # ps"
      using js_split_nonempty by (cases "js_split CHR ''/'' cs") auto
    with Cons show ?case by (cases ps) auto
  qed
  moreover have "js_split CHR ''/'' x \<noteq> []" by (rule js_split_nonempty)
  moreover note js_join_plain_nonempty[OF assms this]
  moreover have "hd x \<noteq> CHR ''/''"
    using assms by (cases x) (auto simp: plain_segment_def)
  ultimately show ?thesis by simp
qed

lemma path_join_absolute:
  assumes ds: "list_all plain_segment ds"
    and xs: "\<forall>x\<in>set xs. list_all plain_segment (js_split CHR ''/'' x)"
  shows "path_join (absolute_path ds # xs) = absolute_path (ds @ concat (map (js_split CHR ''/'') xs))"
proof -
  let ?es = "concat (map (js_split CHR ''/'') xs)"
  let ?joined = "js_join ''/'' (absolute_path ds # xs)"
  have ne: "\<forall>x\<in>set xs. x \<noteq> []" using xs pieces_plain_last by blast
  then have filt: "filter (\<lambda>s. s \<noteq> []) (absolute_path ds # xs) = absolute_path ds # xs"
    by (simp add: absolute_path_def filter_id_conv)
  have es: "list_all plain_segment ?es" using xs by (induction xs) simp_all
  have split: "js_split CHR ''/'' ?joined = [] # (if ds = [] then [[]] else ds) @ ?es"
    using js_split_js_join_concat[of "absolute_path ds # xs" "CHR ''/''"]
    by (simp add: js_split_absolute_path[OF ds])
  have segs: "normalizeString ?joined False = ds @ ?es"
    unfolding normalizeString_def split using ds es
    by (simp add: normalize_plain normalizeString_segment_def)
  have hd: "hd ?joined = CHR ''/''" by (cases xs) (simp_all add: absolute_path_def)
  have nonempty: "?joined \<noteq> []" by (cases xs) (simp_all add: absolute_path_def)
  have all: "list_all plain_segment (ds @ ?es)" using ds es by simp
  show ?thesis
  proof (cases "ds @ ?es = []")
    case True
    then have "xs = []" using js_split_nonempty by (cases xs) auto
    with True show ?thesis
      unfolding path_join_def filt Let_def path_normalize_def using hd nonempty segs
      by (simp add: absolute_path_def)
  next
    case False
    have last: "last ?joined \<noteq> CHR ''/''"
    proof (cases xs rule: rev_cases)
      case Nil
      with False have "ds \<noteq> []" by simp
      with Nil js_join_plain_nonempty[OF ds] show ?thesis by (simp add: absolute_path_def)
    next
      case (snoc ys y)
      have "js_join ''/'' (zs @ [y]) \<noteq> [] \<and> last (js_join ''/'' (zs @ [y])) = last y"
        if "y \<noteq> []" for zs :: "string list"
        using that
      proof (induction zs)
        case Nil
        then show ?case by simp
      next
        case (Cons z zs)
        then show ?case by (cases zs) simp_all
      qed
      from this[of "absolute_path ds # ys"] snoc xs pieces_plain_last[of y] show ?thesis by simp
    qed
    from js_join_plain_nonempty[OF all False] have p: "js_join ''/'' (ds @ ?es) \<noteq> []" by simp
    show ?thesis
      unfolding path_join_def filt Let_def path_normalize_def using hd nonempty segs last p
      by (simp add: absolute_path_def)
  qed
qed


lemma path_join_relative:
  assumes ne: "xs \<noteq> []"
    and xs: "\<forall>x\<in>set xs. list_all plain_segment (js_split CHR ''/'' x)"
  shows "path_join xs = js_join ''/'' xs"
proof -
  let ?es = "concat (map (js_split CHR ''/'') xs)"
  let ?joined = "js_join ''/'' xs"
  have "\<forall>x\<in>set xs. x \<noteq> []" using xs pieces_plain_last by blast
  then have filt: "filter (\<lambda>s. s \<noteq> []) xs = xs" by (simp add: filter_id_conv)
  have es: "list_all plain_segment ?es" using xs by (induction xs) simp_all
  have es_ne: "?es \<noteq> []" using ne js_split_nonempty by (cases xs) auto
  have joined: "js_join ''/'' ?es = ?joined"
    using js_join_js_split[of "CHR ''/''" ?joined] js_split_js_join_concat[OF ne, of "CHR ''/''"]
    by simp
  have segs: "normalizeString ?joined True = ?es"
    unfolding normalizeString_def js_split_js_join_concat[OF ne] using es
    by (simp add: normalize_plain)
  from js_join_plain_nonempty[OF es es_ne] joined
  have j: "?joined \<noteq> []" "last ?joined \<noteq> CHR ''/''" by simp_all
  obtain x ys where x: "xs = x # ys" using ne by (cases xs) auto
  with xs pieces_plain_last[of x] have "hd ?joined \<noteq> CHR ''/''" by (cases ys) simp_all
  with j segs joined show ?thesis
    unfolding path_join_def filt Let_def path_normalize_def using ne by simp
qed

lemma path_resolve_absolute:
  assumes "list_all plain_segment ds"
  shows "path_resolve fs (absolute_path ds) = absolute_path ds"
proof -
  have st: "startsWith (absolute_path ds) ''/''" by (simp add: absolute_path_def startsWith_def)
  have "normalizeString (absolute_path ds) False = ds"
    unfolding normalizeString_def js_split_absolute_path[OF assms] using assms
    by (simp add: normalize_plain normalizeString_segment_def)
  with st show ?thesis by (simp add: path_resolve_def Let_def absolute_path_def)
qed

lemma path_resolve_relative:
  assumes cwd: "cwd fs = absolute_path ds" and ds: "list_all plain_segment ds"
    and x: "list_all plain_segment (js_split CHR ''/'' x)"
  shows "path_resolve fs x = absolute_path (ds @ js_split CHR ''/'' x)"
proof -
  from pieces_plain_last[OF x] have rel: "\<not> startsWith x ''/''"
    by (cases x) (simp_all add: startsWith_def)
  have st: "startsWith (absolute_path ds @ ''/'' @ x) ''/''"
    by (simp add: absolute_path_def startsWith_def)
  have "js_split CHR ''/'' (absolute_path ds @ ''/'' @ x) =
          js_split CHR ''/'' (absolute_path ds) @ js_split CHR ''/'' x"
    using js_split_sep_append[of "CHR ''/''" "absolute_path ds" x] by simp
  then have "normalizeString (absolute_path ds @ ''/'' @ x) False = ds @ js_split CHR ''/'' x"
    unfolding normalizeString_def js_split_absolute_path[OF ds] using ds x
    by (simp add: normalize_plain normalizeString_segment_def)
  with st rel cwd show ?thesis by (simp add: path_resolve_def Let_def absolute_path_def)
qed

lemma absolute_path_inject:
  assumes "list_all plain_segment xs" and "list_all plain_segment ys"
  shows "(absolute_path xs = absolute_path ys) = (xs = ys)"
proof
  assume "absolute_path xs = absolute_path ys"
  then have "js_split CHR ''/'' (absolute_path xs) = js_split CHR ''/'' (absolute_path ys)" by simp
  then show "xs = ys"
    unfolding js_split_absolute_path[OF assms(1)] js_split_absolute_path[OF assms(2)]
    using assms by (auto simp: plain_segment_def split: if_splits)
qed simp

subsection \<open>A successful create run\<close>

lemma startsWith_simps:
  "startsWith s [] = True"
  "startsWith [] (p # ps) = False"
  "startsWith (c # cs) (p # ps) = (c = p \<and> startsWith cs ps)"
  by (auto simp: startsWith_def)

lemma parseFields_default: "parseFields default_fields = Inr default_parsed"
  by (simp add: default_fields_def default_parsed_def parseFields_def parseFields_pair_def
        FieldSchema_test_def not_colon_def)

lemma cwd_generateFeature: "cwd (fst (generateFeature fs root c pf)) = cwd fs"
proof -
  have m: "cwd (foldl (\<lambda>s d. fs_mkdir s (g d)) s0 ds) = cwd s0" for g s0 ds
    by (induction ds arbitrary: s0) simp_all
  have w: "cwd (foldl (\<lambda>s (p, content). fs_writeFile s p content) s0 ws) = cwd s0" for s0 ws
    by (induction ws arbitrary: s0) auto
  show ?thesis
    unfolding generateFeature_def Let_def fst_conv w m ..
qed

lemma files_foldl_mkdir: "files (foldl (\<lambda>s d. fs_mkdir s (g d)) s0 ds) = files s0"
  by (induction ds arbitrary: s0) simp_all

lemma plain_segment_literal:
  "plain_segment (a # s) = (CHR ''/'' \<notin> set (a # s) \<and> a # s \<noteq> ''.'' \<and> a # s \<noteq> ''..'')"
  by (simp add: plain_segment_def)

lemma plain_segment_append:
  assumes "plain_segment c" and "CHR ''/'' \<notin> set x"
  shows "plain_segment (c @ x)"
proof -
  from assms(1) obtain a r where c: "c = a # r" by (cases c) (auto simp: plain_segment_def)
  with assms show ?thesis by (cases r) (auto simp: plain_segment_def)
qed

lemma plain_segment_no_slash: "plain_segment c \<Longrightarrow> CHR ''/'' \<notin> set c"
  by (simp add: plain_segment_def)

lemmas path_simps =
  path_join_relative path_join_absolute path_resolve_absolute absolute_path_inject
  plain_segment_no_sep plain_segment_literal plain_segment_append plain_segment_no_slash
  js_split_no_sep js_split_append

lemma files_generateFeature_kept:
  assumes "plain_segment c" and "list_all plain_segment ds"
  shows "files (fst (generateFeature fs (absolute_path ds) c pf))
           (absolute_path (ds @ [''Server'', ''index.ts'']))
          = files fs (absolute_path (ds @ [''Server'', ''index.ts'']))"
    and "files (fst (generateFeature fs (absolute_path ds) c pf)) (absolute_path (ds @ [''README.md'']))
          = files fs (absolute_path (ds @ [''README.md'']))"
  using assms
  unfolding generateFeature_def Let_def fst_conv
  by (simp_all add: fs_writeFile_def files_foldl_mkdir path_simps)

lemma files_generateFeature_written:
  assumes "plain_segment c" and "list_all plain_segment ds"
  shows "files (fst (generateFeature fs (absolute_path ds) c pf))
           (absolute_path (ds @ [''Features'', c, ''container.ts''])) = Some (featureContainerTs c)"
  using assms
  unfolding generateFeature_def Let_def fst_conv
  by (simp add: fs_writeFile_def files_foldl_mkdir path_simps)

lemma or_default_Nil: "or_default [] = default_fields"
  by (simp add: or_default_def)

lemma createProject_features_ok:
  assumes "\<forall>f\<in>set features. plain_segment (feature_name f) \<and>
             parseFields (or_default (feature_fields f)) = Inr (g f)"
    and ds: "list_all plain_segment ds"
  shows "\<exists>fs' out'. createProject_features (absolute_path ds) features (fs, sj, out) =
            Inr (fs', sj @ map (\<lambda>f. getSampleJson (g f)) features, out') \<and>
          cwd fs' = cwd fs \<and> dirs fs \<subseteq> dirs fs' \<and>
          files fs' (absolute_path (ds @ [''Server'', ''index.ts''])) =
            files fs (absolute_path (ds @ [''Server'', ''index.ts'']))"
  using assms(1)
proof (induction features arbitrary: fs sj out)
  case Nil
  then show ?case by simp
next
  case (Cons f rest)
  obtain fs1 lg where gen: "generateFeature fs (absolute_path ds) (feature_name f) (g f) = (fs1, lg)"
    by (cases "generateFeature fs (absolute_path ds) (feature_name f) (g f)")
  from Cons.prems have nm: "plain_segment (feature_name f)"
    and pf: "parseFields (or_default (feature_fields f)) = Inr (g f)"
    and rest: "\<forall>f\<in>set rest. plain_segment (feature_name f) \<and>
             parseFields (or_default (feature_fields f)) = Inr (g f)" by simp_all
  have fs1: "cwd fs1 = cwd fs" "dirs fs \<subseteq> dirs fs1"
    "files fs1 (absolute_path (ds @ [''Server'', ''index.ts''])) =
       files fs (absolute_path (ds @ [''Server'', ''index.ts'']))"
    using cwd_generateFeature[of fs "absolute_path ds" "feature_name f" "g f"]
      dirs_generateFeature[of fs "absolute_path ds" "feature_name f" "g f"]
      files_generateFeature_kept(1)[OF nm ds, of fs "g f"] gen by simp_all
  from Cons.IH[OF rest, of fs1 "sj @ [getSampleJson (g f)]" "out @ lg"]
  obtain fs' out' where
    "createProject_features (absolute_path ds) rest (fs1, sj @ [getSampleJson (g f)], out @ lg) =
       Inr (fs', (sj @ [getSampleJson (g f)]) @ map (\<lambda>f. getSampleJson (g f)) rest, out')"
    "cwd fs' = cwd fs1" "dirs fs1 \<subseteq> dirs fs'"
    "files fs' (absolute_path (ds @ [''Server'', ''index.ts''])) =
       files fs1 (absolute_path (ds @ [''Server'', ''index.ts'']))"
    by blast
  with fs1 pf gen show ?case by auto
qed

lemma createProject_generates:
  assumes node: "nodeVersion v = Some d" "parseInt NODE_VERSION \<le> parseInt d"
    and ps: "list_all plain_segment ps" and pn: "plain_segment projectName"
    and free: "\<not> fs_access fs (absolute_path (ps @ [projectName]))"
    and ok: "\<forall>f\<in>set features. plain_segment (feature_name f) \<and>
             parseFields (or_default (feature_fields f)) = Inr (g f)"
  shows "exit_code (createProject v fs projectName (absolute_path ps) features) = None"
    and "cwd (fs_after (createProject v fs projectName (absolute_path ps) features)) =
           absolute_path (ps @ [projectName])"
    and "files (fs_after (createProject v fs projectName (absolute_path ps) features))
           (absolute_path (ps @ [projectName, ''Server'', ''index.ts''])) =
           Some (serverIndexTs features)"
    and "files (fs_after (createProject v fs projectName (absolute_path ps) features))
           (absolute_path (ps @ [projectName, ''README.md''])) =
           Some (readmeMd projectName features (map (\<lambda>f. getSampleJson (g f)) features))"
    and "absolute_path (ps @ [projectName])
           \<in> dirs (fs_after (createProject v fs projectName (absolute_path ps) features))"
proof -
  let ?ds = "ps @ [projectName]"
  let ?root = "absolute_path ?ds"
  have ds: "list_all plain_segment ?ds" using ps pn by simp
  have root: "path_join [absolute_path ps, projectName] = ?root"
    using ps pn by (simp add: path_join_absolute plain_segment_no_sep)
  let ?fs1 = "fs_mkdir fs ?root"
  let ?fs2 = "foldl (\<lambda>s dir. fs_mkdir s (path_join [?root, dir])) ?fs1 (createProject_directories features)"
  let ?fs3 = "process_chdir ?fs2 ?root"
  let ?fs4 = "foldl (\<lambda>s (p, content). fs_writeFile s p content) ?fs3
                     [(''package.json'', packageJson projectName),
                      (''tsconfig.json'', tsconfigJson),
                      (''jest.config.ts'', jestConfigTs),
                      (''.env'', env projectName),
                      (''.gitignore'', gitignore),
                      (''Core/result/result.ts'', resultTs),
                      (''Core/error/custom-error.ts'', customErrorTs),
                      (''Core/config/database.ts'', databaseTs),
                      (''Server/index.ts'', serverIndexTs features)]"
  let ?out = "[Log ''Created core folder structure'', Log ''Initialized Node.js project'']"
  have cwd3: "cwd ?fs3 = ?root"
    using ds by (simp add: process_chdir_def path_resolve_absolute)
  have cwd4: "cwd ?fs4 = ?root"
    using cwd3 by simp
  have server: "path_resolve s ''Server/index.ts'' = absolute_path (?ds @ [''Server'', ''index.ts''])"
    if "cwd s = ?root" for s
    using path_resolve_relative[OF that ds, of "''Server/index.ts''"]
    by (simp add: plain_segment_literal)
  have readme: "path_resolve s ''README.md'' = absolute_path (?ds @ [''README.md''])"
    if "cwd s = ?root" for s
    using path_resolve_relative[OF that ds, of "''README.md''"]
    by (simp add: plain_segment_literal)
  have server4: "files ?fs4 (absolute_path (?ds @ [''Server'', ''index.ts''])) =
      Some (serverIndexTs features)"
    using server cwd3 by (simp add: fs_writeFile_def)
  have "?root \<in> dirs ?fs1"
    using resolved_in_fs_mkdir[of fs ?root] ds by (simp add: path_resolve_absolute)
  also have "dirs ?fs1 \<subseteq> dirs ?fs2" by (rule dirs_foldl_mkdir)
  also have "dirs ?fs2 = dirs ?fs4" unfolding dirs_foldl_writeFile by simp
  finally have dir4: "?root \<in> dirs ?fs4" .
  obtain fs5 out5 where loop: "createProject_features ?root features (?fs4, [], ?out) =
       Inr (fs5, map (\<lambda>f. getSampleJson (g f)) features, out5)"
    and fs5: "cwd fs5 = cwd ?fs4" "dirs ?fs4 \<subseteq> dirs fs5"
      "files fs5 (absolute_path (?ds @ [''Server'', ''index.ts''])) =
         files ?fs4 (absolute_path (?ds @ [''Server'', ''index.ts'']))"
    using createProject_features_ok[OF ok ds, of ?fs4 "[]" ?out] by auto
  have run: "createProject v fs projectName (absolute_path ps) features =
      \<lparr>exit_code = None,
       fs_after = fs_writeFile fs5 ''README.md''
                    (readmeMd projectName features (map (\<lambda>f. getSampleJson (g f)) features)),
       console = out5 @
                   [Log ''Project setup complete!'',
                    Log ''To start the development server, run:'',
                    Log (''  cd '' @ ?root),
                    Log ''  npm install'',
                    Log ''  npm run dev'',
                    Log ''To run tests, run:'',
                    Log ''  npm test'',
                    Log ''Ensure MongoDB is running and update .env with the correct MONGODB_URI if needed.'']\<rparr>"
    unfolding createProject_def Let_def root using node free loop by simp
  have readme5: "path_resolve fs5 ''README.md'' = absolute_path (?ds @ [''README.md''])"
    using readme[of fs5] fs5(1) cwd4 by simp
  have differ: "absolute_path (?ds @ [''README.md'']) \<noteq> absolute_path (?ds @ [''Server'', ''index.ts''])"
    using ds by (simp add: absolute_path_inject plain_segment_literal)
  show "exit_code (createProject v fs projectName (absolute_path ps) features) = None"
    using run by simp
  show "cwd (fs_after (createProject v fs projectName (absolute_path ps) features)) =
           absolute_path (ps @ [projectName])"
    using run fs5(1) cwd4 by simp
  show "files (fs_after (createProject v fs projectName (absolute_path ps) features))
           (absolute_path (ps @ [projectName, ''Server'', ''index.ts''])) =
           Some (serverIndexTs features)"
    using run fs5(3) server4 readme5 differ by (simp add: fs_writeFile_def)
  show "files (fs_after (createProject v fs projectName (absolute_path ps) features))
           (absolute_path (ps @ [projectName, ''README.md''])) =
           Some (readmeMd projectName features (map (\<lambda>f. getSampleJson (g f)) features))"
    using run readme5 by (simp add: fs_writeFile_def)
  show "absolute_path (ps @ [projectName])
           \<in> dirs (fs_after (createProject v fs projectName (absolute_path ps) features))"
    using run dir4 fs5(2) by auto
qed

lemma node_20: "nodeVersion ''v20.11.0'' = Some ''20''" "parseInt NODE_VERSION \<le> parseInt ''20''"
  by (simp_all add: nodeVersion_def is_digit_def parseInt_def NODE_VERSION_def)

lemma path_join_work_shop: "path_join [''/work'', ''shop''] = ''/work/shop''"
  using path_join_absolute[of "[''work'']" "[''shop'']"]
  by (simp add: absolute_path_def plain_segment_literal)

lemma path_resolve_work_shop: "path_resolve fs ''/work/shop'' = ''/work/shop''"
  using path_resolve_absolute[of "[''work'', ''shop'']" fs]
  by (simp add: absolute_path_def plain_segment_literal)

lemma workspace_free: "\<not> fs_access workspace (path_join [''/work'', ''shop''])"
  by (simp add: fs_access_def path_join_work_shop path_resolve_work_shop workspace_def)

lemma shop_generated:
  \<open>cwd shop = ''/work/shop''\<close>
  \<open>files shop ''/work/shop/Server/index.ts'' = Some (serverIndexTs shop_features)\<close>
  \<open>files shop ''/work/shop/README.md'' =
     Some (readmeMd ''shop'' shop_features
       [''{"name": "sample_name", "email": "test@example.com"}'',
        ''{"title": "sample_title", "price": 123}''])\<close>
  \<open>''/work/shop'' \<in> dirs shop\<close>
proof -
  define g where "g = (\<lambda>f::Feature. if feature_name f = ''user'' then default_parsed
     else [\<lparr>name = ''title'', type = ''string'', rule = None\<rparr>,
           \<lparr>name = ''price'', type = ''number'', rule = Some ''min=0''\<rparr>])"
  have ok: "\<forall>f\<in>set shop_features. plain_segment (feature_name f) \<and>
             parseFields (or_default (feature_fields f)) = Inr (g f)"
    by (simp add: shop_features_def g_def or_default_Nil parseFields_default plain_segment_literal)
       (simp add: or_default_def parseFields_def parseFields_pair_def FieldSchema_test_def not_colon_def)
  have sj: \<open>map (\<lambda>f. getSampleJson (g f)) shop_features =
       [''{"name": "sample_name", "email": "test@example.com"}'',
        ''{"title": "sample_title", "price": 123}'']\<close>
    by (simp add: shop_features_def g_def default_parsed_def getSampleJson_def getSampleJson_value_def
          startsWith_def)
  have free: "\<not> fs_access workspace (absolute_path ([''work''] @ [''shop'']))"
    using workspace_free by (simp add: path_join_work_shop absolute_path_def)
  have ws: "absolute_path [''work''] = ''/work''" by (simp add: absolute_path_def)
  note gen = createProject_generates[OF node_20 _ _ free ok, unfolded ws]
  show \<open>cwd shop = ''/work/shop''\<close>
    using gen(2) by (simp add: shop_def absolute_path_def plain_segment_literal)
  show \<open>files shop ''/work/shop/Server/index.ts'' = Some (serverIndexTs shop_features)\<close>
    using gen(3) by (simp add: shop_def absolute_path_def plain_segment_literal)
  show \<open>files shop ''/work/shop/README.md'' =
     Some (readmeMd ''shop'' shop_features
       [''{"name": "sample_name", "email": "test@example.com"}'',
        ''{"title": "sample_title", "price": 123}''])\<close>
    using gen(4) sj by (simp add: shop_def absolute_path_def plain_segment_literal)
  show \<open>''/work/shop'' \<in> dirs shop\<close>
    using gen(5) by (simp add: shop_def absolute_path_def plain_segment_literal)
qed

subsection \<open>Failures\<close>

lemma createProject_features_fail:
  "f \<in> set features \<Longrightarrow> parseFields (or_default (feature_fields f)) = Inl e \<Longrightarrow>
   \<exists>fs' out'. createProject_features root features (fs, sj, out) =
       Inl (ZodError FieldSchema_message, fs', out') \<and> dirs fs \<subseteq> dirs fs'"
proof (induction features arbitrary: fs sj out)
  case Nil
  then show ?case by simp
next
  case (Cons g gs)
  show ?case
  proof (cases "parseFields (or_default (feature_fields g))")
    case (Inl e')
    then have "e' = ZodError FieldSchema_message" by (rule parseFields_error)
    with Inl show ?thesis by simp
  next
    case (Inr flds)
    with Cons.prems have mem: "f \<in> set gs" by auto
    obtain fs1 lg where gen: "generateFeature fs root (feature_name g) flds = (fs1, lg)"
      by (cases "generateFeature fs root (feature_name g) flds")
    from Cons.IH[OF mem Cons.prems(2), of fs1 "sj @ [getSampleJson flds]" "out @ lg"]
    obtain fs' out' where r: "createProject_features root gs (fs1, sj @ [getSampleJson flds], out @ lg)
       = Inl (ZodError FieldSchema_message, fs', out')" "dirs fs1 \<subseteq> dirs fs'" by blast
    have "dirs fs \<subseteq> dirs fs1" using dirs_generateFeature[of fs root "feature_name g" flds] gen by simp
    with r Inr gen show ?thesis by auto
  qed
qed


lemma createProject_late_failure:
  assumes node: "nodeVersion v = Some d" "parseInt NODE_VERSION \<le> parseInt d"
    and free: "\<not> fs_access fs (path_join [pathSpec, projectName])"
    and bad: "f \<in> set features" "parseFields (or_default (feature_fields f)) = Inl e"
  shows "exit_code (createProject v fs projectName pathSpec features) = Some 1"
    and "path_resolve fs (path_join [pathSpec, projectName])
           \<in> dirs (fs_after (createProject v fs projectName pathSpec features))"
    and "last (console (createProject v fs projectName pathSpec features)) =
           ErrorWith ''Failed to create project:'' (ZodError FieldSchema_message)"
proof -
  let ?root = "path_join [pathSpec, projectName]"
  let ?fs1 = "fs_mkdir fs ?root"
  let ?fs2 = "foldl (\<lambda>s dir. fs_mkdir s (path_join [?root, dir])) ?fs1 (createProject_directories features)"
  let ?fs3 = "process_chdir ?fs2 ?root"
  let ?fs4 = "foldl (\<lambda>s (p, content). fs_writeFile s p content) ?fs3
                     [(''package.json'', packageJson projectName),
                      (''tsconfig.json'', tsconfigJson),
                      (''jest.config.ts'', jestConfigTs),
                      (''.env'', env projectName),
                      (''.gitignore'', gitignore),
                      (''Core/result/result.ts'', resultTs),
                      (''Core/error/custom-error.ts'', customErrorTs),
                      (''Core/config/database.ts'', databaseTs),
                      (''Server/index.ts'', serverIndexTs features)]"
  let ?out = "[Log ''Created core folder structure'', Log ''Initialized Node.js project'']"
  obtain fs' out' where loop: "createProject_features ?root features (?fs4, [], ?out) =
       Inl (ZodError FieldSchema_message, fs', out')" and sub: "dirs ?fs4 \<subseteq> dirs fs'"
    using createProject_features_fail[OF bad] by blast
  have run: "createProject v fs projectName pathSpec features =
      \<lparr>exit_code = Some 1, fs_after = fs',
       console = out' @ [ErrorWith ''Failed to create project:'' (ZodError FieldSchema_message)]\<rparr>"
    unfolding createProject_def Let_def using node free loop by simp
  have "path_resolve fs ?root \<in> dirs ?fs1" by (rule resolved_in_fs_mkdir)
  also have "dirs ?fs1 \<subseteq> dirs ?fs2" by (rule dirs_foldl_mkdir)
  also have "dirs ?fs2 = dirs ?fs4" unfolding dirs_foldl_writeFile by simp
  finally have "path_resolve fs ?root \<in> dirs fs'" using sub by blast
  with run show "exit_code (createProject v fs projectName pathSpec features) = Some 1"
    and "path_resolve fs (path_join [pathSpec, projectName])
           \<in> dirs (fs_after (createProject v fs projectName pathSpec features))"
    and "last (console (createProject v fs projectName pathSpec features)) =
           ErrorWith ''Failed to create project:'' (ZodError FieldSchema_message)"
    by simp_all
qed

text \<open>
  Claim C3, as the code has it: a non-empty field specification fails to parse, with the
  message of \<^verbatim>\<open>FieldSchema\<close>, exactly when one of its entries does not have two or
  three non-empty colon-delimited parts, and otherwise yields one descriptor per entry;
  \<^verbatim>\<open>name\<close> and \<^verbatim>\<open>a:b:c:d\<close> both fail. In a create run the specification of a
  feature is parsed inside the feature loop, behind the creation of the directory tree:
  the run then ends with status 1 and the report of the catch block, and the project
  directory exists.
\<close>

theorem parseFields_rejects_malformed:
  "(s \<noteq> [] \<longrightarrow> (parseFields s = Inl (ZodError FieldSchema_message)) = (\<not> valid_field_spec s)) \<and>
   (s \<noteq> [] \<and> valid_field_spec s \<longrightarrow>
      (\<exists>flds. parseFields s = Inr flds \<and> length flds = length (js_split CHR '','' s))) \<and>
   parseFields ''name'' = Inl (ZodError FieldSchema_message) \<and>
   parseFields ''a:b:c:d'' = Inl (ZodError FieldSchema_message) \<and>
   (nodeVersion v = Some d \<and> parseInt NODE_VERSION \<le> parseInt d \<and>
    \<not> fs_access fs (path_join [pathSpec, projectName]) \<and>
    f \<in> set features \<and> feature_fields f \<noteq> [] \<and> \<not> valid_field_spec (feature_fields f) \<longrightarrow>
      exit_code (createProject v fs projectName pathSpec features) = Some 1 \<and>
      last (console (createProject v fs projectName pathSpec features)) =
        ErrorWith ''Failed to create project:'' (ZodError FieldSchema_message) \<and>
      path_resolve fs (path_join [pathSpec, projectName])
        \<in> dirs (fs_after (createProject v fs projectName pathSpec features)))"
proof (intro conjI impI)
  show "parseFields ''name'' = Inl (ZodError FieldSchema_message)"
    by (simp add: parseFields_def parseFields_pair_def)
  show "parseFields ''a:b:c:d'' = Inl (ZodError FieldSchema_message)"
    by (simp add: parseFields_def parseFields_pair_def FieldSchema_test_def not_colon_def)
next
  assume "s \<noteq> []"
  then show "(parseFields s = Inl (ZodError FieldSchema_message)) = (\<not> valid_field_spec s)"
    using parseFields_valid[of s] parseFields_invalid[of s] by auto
next
  assume "s \<noteq> [] \<and> valid_field_spec s"
  then obtain flds where "parseFields s = Inr flds" "map field_to_spec flds = js_split CHR '','' s"
    using parseFields_valid by blast
  then show "\<exists>flds. parseFields s = Inr flds \<and> length flds = length (js_split CHR '','' s)"
    by (metis length_map)
next
  assume a: "nodeVersion v = Some d \<and> parseInt NODE_VERSION \<le> parseInt d \<and>
    \<not> fs_access fs (path_join [pathSpec, projectName]) \<and>
    f \<in> set features \<and> feature_fields f \<noteq> [] \<and> \<not> valid_field_spec (feature_fields f)"
  then have bad: "parseFields (or_default (feature_fields f)) = Inl (ZodError FieldSchema_message)"
    by (simp add: or_default_def parseFields_invalid)
  from a have n1: "nodeVersion v = Some d" and n2: "parseInt NODE_VERSION \<le> parseInt d"
    and fr: "\<not> fs_access fs (path_join [pathSpec, projectName])" and mem: "f \<in> set features"
    by simp_all
  note late = createProject_late_failure[OF n1 n2 fr mem bad]
  show "exit_code (createProject v fs projectName pathSpec features) = Some 1" by (rule late(1))
  show "last (console (createProject v fs projectName pathSpec features)) =
        ErrorWith ''Failed to create project:'' (ZodError FieldSchema_message)" by (rule late(3))
  show "path_resolve fs (path_join [pathSpec, projectName])
        \<in> dirs (fs_after (createProject v fs projectName pathSpec features))" by (rule late(2))
qed

theorem parseFields_rejects_malformed_witness:
  "''title:string,price:number:min=0'' \<noteq> [] \<and>
   valid_field_spec ''title:string,price:number:min=0'' \<and>
   parseFields ''title:string,price:number:min=0'' \<noteq> Inl (ZodError FieldSchema_message) \<and>
   (\<exists>flds. parseFields ''title:string,price:number:min=0'' = Inr flds \<and> length flds = 2) \<and>
   nodeVersion ''v20.11.0'' = Some ''20'' \<and> parseInt NODE_VERSION \<le> parseInt ''20'' \<and>
   \<not> fs_access workspace (path_join [''/work'', ''shop'']) \<and>
   \<not> valid_field_spec ''a:b:c:d'' \<and>
   exit_code (createProject ''v20.11.0'' workspace ''shop'' ''/work''
     [\<lparr>feature_name = ''user'', feature_fields = ''a:b:c:d''\<rparr>]) = Some 1 \<and>
   last (console (createProject ''v20.11.0'' workspace ''shop'' ''/work''
     [\<lparr>feature_name = ''user'', feature_fields = ''a:b:c:d''\<rparr>])) =
     ErrorWith ''Failed to create project:'' (ZodError FieldSchema_message) \<and>
   ''/work/shop'' \<in> dirs (fs_after (createProject ''v20.11.0'' workspace ''shop'' ''/work''
     [\<lparr>feature_name = ''user'', feature_fields = ''a:b:c:d''\<rparr>]))"
proof -
  have v: "valid_field_spec ''title:string,price:number:min=0''"
    by (simp add: valid_field_spec_def valid_entry_def)
  have nv: "\<not> valid_field_spec ''a:b:c:d''"
    by (simp add: valid_field_spec_def valid_entry_def)
  have sp: "js_split CHR '','' ''title:string,price:number:min=0'' = [''title:string'', ''price:number:min=0'']"
    by simp
  show ?thesis
    using parseFields_rejects_malformed[of "''title:string,price:number:min=0''" "''v20.11.0''" "''20''"
        workspace "''/work''" "''shop''" "\<lparr>feature_name = ''user'', feature_fields = ''a:b:c:d''\<rparr>"
        "[\<lparr>feature_name = ''user'', feature_fields = ''a:b:c:d''\<rparr>]"]
      v nv node_20 workspace_free sp
    by (simp add: path_join_work_shop path_resolve_work_shop numeral_2_eq_2)
qed

text \<open>
  Claim C3 as first stated has a failing parse create no directory, and has every
  specification with a malformed entry fail. The create run for a feature \<^verbatim>\<open>user\<close>
  with the specification \<^verbatim>\<open>name\<close> in the empty directory ends with status 1, and
  \<^verbatim>\<open>/work/shop\<close>, which was not there before, is there afterwards. The empty
  specification, whose only entry is empty, parses to the empty list.
\<close>

theorem createProject_malformed_leaves_directory:
  "parseFields ''name'' = Inl (ZodError FieldSchema_message) \<and>
   ''/work/shop'' \<notin> dirs workspace \<and>
   exit_code (createProject ''v20.11.0'' workspace ''shop'' ''/work''
     [\<lparr>feature_name = ''user'', feature_fields = ''name''\<rparr>]) = Some 1 \<and>
   ''/work/shop'' \<in> dirs (fs_after (createProject ''v20.11.0'' workspace ''shop'' ''/work''
     [\<lparr>feature_name = ''user'', feature_fields = ''name''\<rparr>])) \<and>
   parseFields '''' = Inr []"
proof -
  have bad: "parseFields (or_default (feature_fields \<lparr>feature_name = ''user'', feature_fields = ''name''\<rparr>))
      = Inl (ZodError FieldSchema_message)"
    by (simp add: or_default_def parseFields_def parseFields_pair_def)
  have mem: "\<lparr>feature_name = ''user'', feature_fields = ''name''\<rparr>
      \<in> set [\<lparr>feature_name = ''user'', feature_fields = ''name''\<rparr>]" by simp
  note late = createProject_late_failure[OF node_20 workspace_free mem bad]
  have "parseFields ''name'' = Inl (ZodError FieldSchema_message)"
    by (simp add: parseFields_def parseFields_pair_def)
  moreover have "''/work/shop'' \<notin> dirs workspace" by (simp add: workspace_def)
  moreover have "parseFields '''' = Inr []" by (simp add: parseFields_def)
  ultimately show ?thesis
    using late(1) late(2) by (simp add: path_join_work_shop path_resolve_work_shop)
qed

text \<open>
  Claim C8: when the target of \<^verbatim>\<open>create\<close> exists, the run ends with status 1 and one
  error line, and the file system is left as it was: no directory is created and no file
  is written. With a supported Node.js the line is the report that the directory exists.
\<close>

theorem createProject_existing_target:
  assumes "fs_access fs (path_join [pathSpec, projectName])"
  shows "exit_code (createProject v fs projectName pathSpec features) = Some 1 \<and>
         fs_after (createProject v fs projectName pathSpec features) = fs \<and>
         (\<exists>msg. console (createProject v fs projectName pathSpec features) = [Error msg]) \<and>
         (\<forall>d. nodeVersion v = Some d \<and> parseInt NODE_VERSION \<le> parseInt d \<longrightarrow>
            console (createProject v fs projectName pathSpec features) =
              [Error (''Directory '' @ path_join [pathSpec, projectName] @
                 '' already exists. Please remove it or choose a different name.'')])"
  using assms by (auto simp: createProject_def Let_def split: option.splits)

theorem createProject_existing_target_witness:
  "fs_access (shop\<lparr>cwd := ''/work''\<rparr>) (path_join [''/work'', ''shop'']) \<and>
   exit_code (createProject ''v20.11.0'' (shop\<lparr>cwd := ''/work''\<rparr>) ''shop'' ''/work'' shop_features) = Some 1 \<and>
   fs_after (createProject ''v20.11.0'' (shop\<lparr>cwd := ''/work''\<rparr>) ''shop'' ''/work'' shop_features) =
     shop\<lparr>cwd := ''/work''\<rparr> \<and>
   console (createProject ''v20.11.0'' (shop\<lparr>cwd := ''/work''\<rparr>) ''shop'' ''/work'' shop_features) =
     [Error ''Directory /work/shop already exists. Please remove it or choose a different name.'']"
proof -
  have h: "fs_access (shop\<lparr>cwd := ''/work''\<rparr>) (path_join [''/work'', ''shop''])"
    using shop_generated(4) by (simp add: fs_access_def path_join_work_shop path_resolve_work_shop)
  show ?thesis
    using createProject_existing_target[OF h, of "''v20.11.0''" shop_features] h node_20
    by (simp add: path_join_work_shop)
qed

text \<open>
  Claim C9, as the code has it: when \<^verbatim>\<open>Server/index.ts\<close> is absent under the working
  directory, \<^verbatim>\<open>feature\<close> ends with status 1 and the file system is left as it was.
  (There is no check of the feature name against the roster.)
\<close>

theorem addFeature_marker_absent:
  assumes "\<not> fs_access fs (path_join [cwd fs, ''Server/index.ts''])"
  shows "exit_code (addFeature fs featureName fieldDefs) = Some 1 \<and>
         fs_after (addFeature fs featureName fieldDefs) = fs \<and>
         console (addFeature fs featureName fieldDefs) =
           [Error ''Error: Current directory is not a tsclean project. Run from the project root.'']"
  using assms by (simp add: addFeature_def Let_def)

theorem addFeature_marker_absent_witness:
  "\<not> fs_access workspace (path_join [cwd workspace, ''Server/index.ts'']) \<and>
   exit_code (addFeature workspace ''user'' ''name:string'') = Some 1 \<and>
   fs_after (addFeature workspace ''user'' ''name:string'') = workspace \<and>
   console (addFeature workspace ''user'' ''name:string'') =
     [Error ''Error: Current directory is not a tsclean project. Run from the project root.'']"
proof -
  have j: "path_join [''/work'', ''Server/index.ts''] = ''/work/Server/index.ts''"
    using path_join_absolute[of "[''work'']" "[''Server/index.ts'']"]
    by (simp add: absolute_path_def plain_segment_literal)
  have r: "path_resolve workspace ''/work/Server/index.ts'' = ''/work/Server/index.ts''"
    using path_resolve_absolute[of "[''work'', ''Server'', ''index.ts'']" workspace]
    by (simp add: absolute_path_def plain_segment_literal)
  have h: "\<not> fs_access workspace (path_join [cwd workspace, ''Server/index.ts''])"
    by (simp add: fs_access_def workspace_def j) (simp add: r[unfolded workspace_def])
  show ?thesis
    using addFeature_marker_absent[OF h, of "''user''" "''name:string''"] h by simp
qed

section \<open>Roster recovery from the generated files\<close>

subsection \<open>Characters and identifiers\<close>


lemma startsWith_prefix: "startsWith s p = prefix p s"
  unfolding startsWith_def prefix_def
  by (metis append_eq_conv_conj)

lemma of_char_upper: "97 \<le> (of_char c :: nat) \<Longrightarrow> (of_char c :: nat) \<le> 122 \<Longrightarrow>
    (of_char (upper_char c) :: nat) = of_char c - 32"
  by (simp add: upper_char_def Let_def)

lemma is_word_lower: "is_lower_word c \<Longrightarrow> is_word c"
  by (auto simp: is_lower_word_def is_word_def Let_def)

lemma is_word_upper_char: "is_word c \<Longrightarrow> is_word (upper_char c)"
  by (auto simp: is_word_def upper_char_def Let_def)

lemma lower_upper_char: "is_lower_word c \<Longrightarrow> lower_char (upper_char c) = c"
  apply (auto simp: is_lower_word_def upper_char_def lower_char_def Let_def)
  done

lemma lower_char_lower: "is_lower_word c \<Longrightarrow> lower_char c = c"
  by (auto simp: is_lower_word_def lower_char_def Let_def)


subsection \<open>capitalize\<close>

lemma capitalize_Cons: "capitalize (c # cs) = upper_char c # cs"
  by (simp add: capitalize_def toUpperCase_def)

lemma capitalize_word: "list_all is_word n \<Longrightarrow> list_all is_word (capitalize n)"
  by (cases n) (simp_all add: capitalize_Cons is_word_upper_char capitalize_def toUpperCase_def)

lemma capitalize_nonempty: "n \<noteq> [] \<Longrightarrow> capitalize n \<noteq> []"
  by (cases n) (simp_all add: capitalize_Cons)

lemma lower_identifier_word: "lower_identifier n \<Longrightarrow> list_all is_word n"
  by (auto simp: lower_identifier_def list_all_iff is_word_lower)

lemma toLowerCase_capitalize: "lower_identifier n \<Longrightarrow> toLowerCase (capitalize n) = n"
proof (cases n)
  case Nil
  then show ?thesis by (simp add: capitalize_def toLowerCase_def)
next
  case (Cons c cs)
  assume "lower_identifier n"
  with Cons have c: "is_lower_word c" and cs: "list_all is_lower_word cs"
    by (simp_all add: lower_identifier_def)
  from cs have "map lower_char cs = cs"
    by (induction cs) (simp_all add: lower_char_lower)
  with c Cons show ?thesis
    by (simp add: capitalize_Cons toLowerCase_def lower_upper_char)
qed

subsection \<open>Scanning\<close>

lemma match_all_skip_count: "match_all m (length u) (u @ rest) = match_all m 0 rest"
  by (induction u) simp_all

lemma match_all_hit:
  assumes "m (M @ rest) = Some (length M)" and "M \<noteq> []"
  shows "match_all m 0 (M @ rest) = M # match_all m 0 rest"
proof -
  from assms(2) obtain c cs where M: "M = c # cs" by (cases M) auto
  have "match_all m 0 (M @ rest) = take (length M) (M @ rest) # match_all m (length M - 1) (cs @ rest)"
    using assms(1) by (simp add: M)
  also have "match_all m (length M - 1) (cs @ rest) = match_all m 0 rest"
    using match_all_skip_count[of m cs rest] by (simp add: M)
  finally show ?thesis by simp
qed

lemma match_all_pass:
  assumes "\<And>v. v \<noteq> [] \<Longrightarrow> suffix v u \<Longrightarrow> m (v @ rest) = None"
  shows "match_all m 0 (u @ rest) = match_all m 0 rest"
  using assms
proof (induction u)
  case Nil
  then show ?case by simp
next
  case (Cons c cs)
  have "m ((c # cs) @ rest) = None" by (rule Cons.prems) (simp_all add: suffix_order.refl)
  moreover have "match_all m 0 (cs @ rest) = match_all m 0 rest"
    by (rule Cons.IH) (simp add: Cons.prems suffix_ConsI)
  ultimately show ?case by simp
qed

lemma clean_suffix: "clean P u \<Longrightarrow> v \<noteq> [] \<Longrightarrow> suffix v u \<Longrightarrow> \<not> prefix P v \<and> \<not> prefix v P"
proof (induction u)
  case Nil
  then show ?case by simp
next
  case (Cons c cs)
  then show ?case by (auto simp: suffix_Cons)
qed

lemma prefix_append_cases: "prefix P (v @ rest) \<Longrightarrow> prefix P v \<or> prefix v P"
  by (metis prefix_append prefix_def)

lemma pass_clean:
  assumes "clean P u" and "\<And>s k. m s = Some k \<Longrightarrow> prefix P s"
  shows "match_all m 0 (u @ rest) = match_all m 0 rest"
proof (rule match_all_pass)
  fix v assume v: "v \<noteq> []" "suffix v u"
  show "m (v @ rest) = None"
  proof (cases "m (v @ rest)")
    case None
    then show ?thesis .
  next
    case (Some k)
    then have "prefix P (v @ rest)" by (rule assms(2))
    then have "prefix P v \<or> prefix v P" by (rule prefix_append_cases)
    with clean_suffix[OF assms(1) v] show ?thesis by blast
  qed
qed

lemma pass_first_char:
  assumes "p \<notin> set u" and "\<And>s k. m s = Some k \<Longrightarrow> prefix (p # ps) s"
  shows "match_all m 0 (u @ rest) = match_all m 0 rest"
proof (rule match_all_pass)
  fix v assume v: "v \<noteq> []" "suffix v u"
  then obtain c cs where vc: "v = c # cs" by (cases v) auto
  with v have "c \<in> set u" by (auto simp: suffix_def)
  with assms(1) have "c \<noteq> p" by auto
  show "m (v @ rest) = None"
  proof (cases "m (v @ rest)")
    case None
    then show ?thesis .
  next
    case (Some k)
    then have "prefix (p # ps) (v @ rest)" by (rule assms(2))
    with vc \<open>c \<noteq> p\<close> show ?thesis by simp
  qed
qed

lemma pass_no_occurrence:
  assumes "\<not> sublist P u" and "d \<notin> set P" and "\<And>s k. m s = Some k \<Longrightarrow> prefix P s"
  shows "match_all m 0 (u @ d # rest) = match_all m 0 (d # rest)"
proof (rule match_all_pass)
  fix v assume v: "v \<noteq> []" "suffix v u"
  show "m (v @ d # rest) = None"
  proof (cases "m (v @ d # rest)")
    case None
    then show ?thesis .
  next
    case (Some k)
    then have pre: "prefix P (v @ d # rest)" by (rule assms(3))
    then consider "prefix P v" | us where "P = v @ us" "prefix us (d # rest)" "us \<noteq> []"
      by (auto simp: prefix_append) (metis append_Nil2 prefix_order.refl)
    then show ?thesis
    proof cases
      case 1
      with v(2) have "sublist P u"
        by (meson prefix_imp_sublist sublist_order.order_trans suffix_imp_sublist)
      with assms(1) show ?thesis by simp
    next
      case 2
      then obtain e es where "us = e # es" by (cases us) auto
      with 2 have "e = d" "e \<in> set P" by auto
      with assms(2) show ?thesis by simp
    qed
  qed
qed

lemma not_sublist_missing_char: "c \<in> set P \<Longrightarrow> c \<notin> set u \<Longrightarrow> \<not> sublist P u"
  by (auto simp: sublist_def)

lemma match_all_js_join:
  assumes line: "\<And>x Z. x \<in> set xs \<Longrightarrow> match_all m 0 (g x @ Z) = h x @ match_all m 0 Z"
    and sep: "\<And>Z. match_all m 0 (sep @ Z) = match_all m 0 Z"
  shows "match_all m 0 (js_join sep (map g xs) @ Z) = concat (map h xs) @ match_all m 0 Z"
  using line
proof (induction xs)
  case Nil
  then show ?case by simp
next
  case (Cons x xs)
  show ?case
  proof (cases xs)
    case Nil
    then show ?thesis using Cons.prems by simp
  next
    case (Cons y ys)
    have "match_all m 0 (js_join sep (map g (x # xs)) @ Z)
        = match_all m 0 (g x @ sep @ js_join sep (map g xs) @ Z)"
      using Cons by simp
    also have "\<dots> = h x @ match_all m 0 (sep @ js_join sep (map g xs) @ Z)"
      by (rule Cons.prems) simp
    also have "match_all m 0 (sep @ js_join sep (map g xs) @ Z)
        = match_all m 0 (js_join sep (map g xs) @ Z)" by (rule sep)
    also have "\<dots> = concat (map h xs) @ match_all m 0 Z"
      by (rule Cons.IH) (simp add: Cons.prems)
    finally show ?thesis by simp
  qed
qed

subsection \<open>The greedy word group\<close>

lemma backtrack_bounds: "backtrack rest s n = Some k \<Longrightarrow> 0 < k \<and> k \<le> n \<and> rest (drop k s)"
  by (induction n) (auto split: if_splits)

lemma backtrack_greatest:
  "0 < k \<Longrightarrow> k \<le> n \<Longrightarrow> rest (drop k s) \<Longrightarrow> (\<And>j. k < j \<Longrightarrow> j \<le> n \<Longrightarrow> \<not> rest (drop j s)) \<Longrightarrow>
   backtrack rest s n = Some k"
proof (induction n)
  case 0
  then show ?case by simp
next
  case (Suc n)
  show ?case
  proof (cases "k = Suc n")
    case True
    with Suc.prems show ?thesis by simp
  next
    case False
    with Suc.prems have "k \<le> n" by simp
    moreover have "\<not> rest (drop (Suc n) s)" using Suc.prems False by simp
    ultimately show ?thesis using Suc by simp
  qed
qed

lemma backtrack_none: "(\<And>j. 0 < j \<Longrightarrow> j \<le> n \<Longrightarrow> \<not> rest (drop j s)) \<Longrightarrow> backtrack rest s n = None"
  by (induction n) auto

lemma takeWhile_word_run:
  "list_all is_word w \<Longrightarrow> (r = [] \<or> \<not> is_word (hd r)) \<Longrightarrow> takeWhile is_word (w @ r) = w"
  by (induction w) (auto simp: takeWhile_eq_Nil_iff)

text \<open>a word literal C can only start where at least |C| word characters follow\<close>

lemma word_literal_needs_run:
  assumes "prefix C (drop j s)" and "list_all is_word C" and "j \<le> length (takeWhile is_word s)"
  shows "j + length C \<le> length (takeWhile is_word s)"
proof -
  let ?W = "takeWhile is_word s"
  have s: "s = ?W @ dropWhile is_word s" by simp
  have d: "drop j s = drop j ?W @ dropWhile is_word s"
    using assms(3) by (metis s drop_append diff_is_0_eq drop0)
  show ?thesis
  proof (rule ccontr)
    assume "\<not> j + length C \<le> length ?W"
    then have short: "length (drop j ?W) < length C" using assms(3) by simp
    from assms(1) d have "prefix C (drop j ?W @ dropWhile is_word s)" by simp
    have "\<not> prefix C (drop j ?W)"
      using short prefix_length_le by fastforce
    with \<open>prefix C (drop j ?W @ dropWhile is_word s)\<close>
    obtain us where us0: "C = drop j ?W @ us" "prefix us (dropWhile is_word s)"
      by (auto simp: prefix_append)
    with short have "us \<noteq> []" by auto
    note us = us0(1) this us0(2)
    then obtain e es where e: "us = e # es" by (cases us) auto
    with us(3) obtain zs where dz: "dropWhile is_word s = e # es @ zs"
      by (auto simp: prefix_def)
    then have "dropWhile is_word s \<noteq> []" by (metis list.distinct(1))
    then have "\<not> is_word (hd (dropWhile is_word s))" by (rule hd_dropWhile)
    then have "\<not> is_word e" unfolding dz by simp
    moreover have "is_word e" using assms(2) us(1) e by simp
    ultimately show False by simp
  qed
qed

lemma word_group_literal:
  assumes w: "list_all is_word w" "w \<noteq> []" and C: "list_all is_word C"
    and x: "x @ r = [] \<or> \<not> is_word (hd (x @ r))"
  shows "word_group (\<lambda>t. startsWith t (C @ x)) (w @ C @ x @ r) = Some (length w)"
proof -
  let ?s = "w @ C @ x @ r"
  have run: "takeWhile is_word ?s = w @ C"
  proof -
    have "list_all is_word (w @ C)" using w C by simp
    moreover note x
    ultimately have "takeWhile is_word ((w @ C) @ x @ r) = w @ C" by (rule takeWhile_word_run)
    then show ?thesis by simp
  qed
  show ?thesis
    unfolding word_group_def run
  proof (rule backtrack_greatest)
    show "0 < length w" using w by simp
    show "length w \<le> length (w @ C)" by simp
    show "startsWith (drop (length w) ?s) (C @ x)" by (simp add: startsWith_prefix)
    fix j assume j: "length w < j" "j \<le> length (w @ C)"
    show "\<not> startsWith (drop j ?s) (C @ x)"
    proof
      assume "startsWith (drop j ?s) (C @ x)"
      then have "prefix C (drop j ?s)" by (auto simp: startsWith_prefix prefix_def)
      from word_literal_needs_run[OF this C] j run
      show False by simp
    qed
  qed
qed


lemma scan_result: "scan m u out \<Longrightarrow> match_all m 0 u = out"
  unfolding scan_def by (metis append_Nil2 match_all.simps(1))

lemma scan_append: "scan m u o1 \<Longrightarrow> scan m v o2 \<Longrightarrow> scan m (u @ v) (o1 @ o2)"
  unfolding scan_def by simp

lemma scan_skip: "scan m u [] \<Longrightarrow> scan m v out \<Longrightarrow> scan m (u @ v) out"
  using scan_append[of m u "[]" v out] by simp

lemma scan_take: "scan m u out \<Longrightarrow> scan m v [] \<Longrightarrow> scan m (u @ v) out"
  using scan_append[of m u out v "[]"] by simp

lemma scan_clean: "needs m P \<Longrightarrow> clean P u \<Longrightarrow> scan m u []"
  unfolding scan_def needs_def using pass_clean[of P u m] by simp

lemma scan_first_char: "needs m (p # ps) \<Longrightarrow> p \<notin> set u \<Longrightarrow> scan m u []"
  unfolding scan_def needs_def using pass_first_char[of p u m ps] by simp

lemma scan_var_lit:
  assumes "needs m P" and "\<not> sublist P n" and "d \<notin> set P" and "clean P (d # l)"
  shows "scan m (n @ d # l) []"
  unfolding scan_def
proof
  fix rest
  have "match_all m 0 ((n @ d # l) @ rest) = match_all m 0 (n @ d # (l @ rest))" by simp
  also have "\<dots> = match_all m 0 (d # (l @ rest))"
    using assms(1,2,3) unfolding needs_def by (intro pass_no_occurrence) auto
  also have "\<dots> = match_all m 0 ((d # l) @ rest)" by simp
  also have "\<dots> = match_all m 0 rest"
    using assms(1,4) unfolding needs_def by (intro pass_clean) auto
  finally show "match_all m 0 ((n @ d # l) @ rest) = [] @ match_all m 0 rest" by simp
qed

lemma scan_var_lit_skip:
  assumes "needs m P" and "\<not> sublist P n" and "d \<notin> set P" and "clean P (d # l)" and "scan m v out"
  shows "scan m (n @ (d # l) @ v) out"
  using scan_skip[OF scan_var_lit[OF assms(1-4)] assms(5)] by simp

lemma scan_var_lit_end:
  assumes "needs m P" and "\<not> sublist P n" and "d \<notin> set P" and "clean P (d # l)"
  shows "scan m (n @ (d # l)) []"
  using scan_var_lit[OF assms] by simp

lemma scan_cons_none:
  assumes "\<And>rest. m (c # u @ rest) = None" and "scan m u []"
  shows "scan m (c # u) []"
  using assms unfolding scan_def by simp

lemma scan_hit:
  assumes "\<And>rest. m (M @ rest) = Some (length M)" and "M \<noteq> []"
  shows "scan m M [M]"
  unfolding scan_def by (simp add: match_all_hit assms)

lemma concat_map_Nil: "concat (map (\<lambda>x. []) xs) = []"
  by (induction xs) simp_all

lemma scan_js_join:
  assumes "\<And>x. x \<in> set xs \<Longrightarrow> scan m (g x) (h x)" and "scan m sep []"
  shows "scan m (js_join sep (map g xs)) (concat (map h xs))"
  unfolding scan_def
proof
  fix Z
  show "match_all m 0 (js_join sep (map g xs) @ Z) = concat (map h xs) @ match_all m 0 Z"
    using assms unfolding scan_def by (intro match_all_js_join) auto
qed

subsection \<open>The bootstrap file\<close>

lemma needs_import: "needs match_import_controller ''import { ''"
  by (auto simp: needs_def match_import_controller_def startsWith_prefix split: if_splits)

lemma space_not_word: "list_all is_word n \<Longrightarrow> CHR '' '' \<notin> set n"
  by (auto simp: list_all_iff is_word_def)

lemma no_import_in_word: "list_all is_word n \<Longrightarrow> \<not> sublist ''import { '' n"
  by (rule not_sublist_missing_char[of "CHR '' ''"]) (simp_all add: space_not_word)

lemma import_hit:
  assumes "list_all is_word w" and "w \<noteq> []"
  shows "match_import_controller ((''import { '' @ w @ ''Controller }'') @ rest) =
           Some (length (''import { '' @ w @ ''Controller }''))"
proof -
  have x: "'' }'' @ rest = [] \<or> \<not> is_word (hd ('' }'' @ rest))" by (simp add: is_word_def)
  have C: "list_all is_word ''Controller''" by (simp add: is_word_def)
  have "word_group (\<lambda>t. startsWith t (''Controller'' @ '' }'')) (w @ ''Controller'' @ '' }'' @ rest)
        = Some (length w)"
    using assms C x by (rule word_group_literal)
  then show ?thesis
    by (simp add: match_import_controller_def startsWith_simps)
qed

lemma scan_import_line:
  assumes "lower_identifier (feature_name f)"
  shows "scan match_import_controller (serverIndexTs_import f)
           [''import { '' @ capitalize (feature_name f) @ ''Controller }'']"
proof -
  let ?n = "feature_name f" and ?m = match_import_controller
  let ?M = "''import { '' @ capitalize ?n @ ''Controller }''"
  have w: "list_all is_word ?n" "?n \<noteq> []" "list_all is_word (capitalize ?n)" "capitalize ?n \<noteq> []"
    using assms by (simp_all add: lower_identifier_word capitalize_word capitalize_nonempty lower_identifier_def)
  have line: "serverIndexTs_import f =
      ?M @ '' from '../Features/'' @ ?n @ ''/delivery/controllers/'' @ ?n @ ''.controller';''"
    by (simp add: serverIndexTs_import_def)
  have hit: "scan ?m ?M [?M]"
    by (rule scan_hit) (use import_hit[OF w(3,4)] in simp_all)
  have rest: "scan ?m ('' from '../Features/'' @ ?n @ ''/delivery/controllers/'' @ ?n @ ''.controller';'') []"
    apply (rule scan_skip)
     apply (rule scan_clean[OF needs_import], simp)
    apply (rule scan_var_lit_skip[OF needs_import no_import_in_word[OF w(1)]], simp, simp)
    apply (rule scan_var_lit_end[OF needs_import no_import_in_word[OF w(1)]], simp, simp)
    done
  show ?thesis unfolding line by (rule scan_take[OF hit rest])
qed

lemma scan_route_line:
  assumes "lower_identifier (feature_name f)"
  shows "scan match_import_controller (serverIndexTs_route f) []"
proof -
  let ?n = "feature_name f" and ?m = match_import_controller
  have w: "list_all is_word ?n" "list_all is_word (capitalize ?n)"
    using assms by (simp_all add: lower_identifier_word capitalize_word)
  show ?thesis
    unfolding serverIndexTs_route_def
    apply (rule scan_skip)
     apply (rule scan_clean[OF needs_import], simp)
    apply (rule scan_var_lit_skip[OF needs_import no_import_in_word[OF w(1)]], simp, simp)
    apply (rule scan_var_lit_skip[OF needs_import no_import_in_word[OF w(2)]], simp, simp)
    apply (rule scan_skip)
     apply (rule scan_clean[OF needs_import], simp)
    apply (rule scan_var_lit_skip[OF needs_import no_import_in_word[OF w(1)]], simp, simp)
    apply (rule scan_var_lit_end[OF needs_import no_import_in_word[OF w(1)]], simp, simp)
    done
qed

lemma scan_serverIndexTs:
  assumes "\<forall>f\<in>set features. lower_identifier (feature_name f)"
  shows "match_all match_import_controller 0 (serverIndexTs features) =
           map (\<lambda>f. ''import { '' @ capitalize (feature_name f) @ ''Controller }'') features"
proof -
  let ?m = match_import_controller
  let ?h = "\<lambda>f. [''import { '' @ capitalize (feature_name f) @ ''Controller }'']"
  note lit = scan_clean[OF needs_import]
  have imps: "scan ?m (js_join ''\<newline>'' (map serverIndexTs_import features)) (concat (map ?h features))"
    by (rule scan_js_join) (use assms scan_import_line in auto, rule lit, simp)
  have routes: "scan ?m (js_join ''\<newline>'' (map serverIndexTs_route features)) []"
    using scan_js_join[of features ?m serverIndexTs_route "\<lambda>f. []" "''\<newline>''"] assms scan_route_line lit
    by (simp add: concat_map_Nil)
  have "scan ?m (serverIndexTs features) (concat (map ?h features))"
    unfolding serverIndexTs_def
    apply (rule scan_skip, (rule lit, simp; fail))+
    apply (rule scan_skip, rule scan_cons_none)
      apply (simp add: match_import_controller_def startsWith_simps word_group_def is_word_def)
     apply (rule lit, simp)
    apply (rule scan_skip, rule scan_cons_none)
      apply (simp add: match_import_controller_def startsWith_simps word_group_def is_word_def)
     apply (rule lit, simp)
    apply (rule scan_take[OF imps])
    apply (rule scan_skip, (rule lit, simp; fail))+
    apply (rule scan_skip[OF routes])
    apply (rule scan_skip, (rule lit, simp; fail))+
    apply (rule lit, simp)
    done
  then have "match_all ?m 0 (serverIndexTs features) = concat (map ?h features)"
    by (rule scan_result)
  also have "\<dots> = map (\<lambda>f. ''import { '' @ capitalize (feature_name f) @ ''Controller }'') features"
    by (induction features) simp_all
  finally show ?thesis .
qed


lemma map_throwing_Inr: "(\<And>x. x \<in> set xs \<Longrightarrow> f x = Inr (g x)) \<Longrightarrow> map_throwing f xs = Inr (map g xs)"
  by (induction xs) simp_all

lemma match_controller_short:
  assumes "length (takeWhile is_word s) \<le> 10"
  shows "match_controller s = None"
proof -
  have C: "list_all is_word ''Controller''" by (simp add: is_word_def)
  have "backtrack (\<lambda>r. startsWith r ''Controller'') s (length (takeWhile is_word s)) = None"
  proof (rule backtrack_none)
    fix j assume j: "0 < j" "j \<le> length (takeWhile is_word s)"
    show "\<not> startsWith (drop j s) ''Controller''"
    proof
      assume "startsWith (drop j s) ''Controller''"
      then have "prefix ''Controller'' (drop j s)" by (simp add: startsWith_prefix)
      from word_literal_needs_run[OF this C j(2)] j(1) assms show False by simp
    qed
  qed
  then show ?thesis by (simp add: match_controller_def word_group_def)
qed

lemma match_controller_hit:
  assumes "list_all is_word w" and "w \<noteq> []"
  shows "match_controller (w @ ''Controller }'') = Some w"
proof -
  have C: "list_all is_word ''Controller''" by (simp add: is_word_def)
  have "word_group (\<lambda>t. startsWith t (''Controller'' @ [])) (w @ ''Controller'' @ [] @ '' }'')
          = Some (length w)"
    using assms C by (rule word_group_literal) (simp add: is_word_def)
  then show ?thesis by (simp add: match_controller_def)
qed

lemma first_match_here: "m s = Some r \<Longrightarrow> first_match m s = Some r"
  by (cases s) simp_all

lemma first_match_import:
  assumes "list_all is_word w" and "w \<noteq> []"
  shows "first_match match_controller (''import { '' @ w @ ''Controller }'') = Some w"
proof -
  have run: "takeWhile is_word (w @ ''Controller }'') = w @ ''Controller''"
    using takeWhile_word_run[of "w @ ''Controller''" "'' }''"] assms(1)
    by (simp add: is_word_def)
  show ?thesis
    using first_match_here[of match_controller "w @ ''Controller }''" w] match_controller_hit[OF assms]
    by (simp add: match_controller_short is_word_def)
qed

lemma addFeature_serverFeatures_generated:
  assumes "\<forall>f\<in>set features. lower_identifier (feature_name f)"
  shows "addFeature_serverFeatures (serverIndexTs features) =
           Inr (map (\<lambda>f. \<lparr>feature_name = feature_name f, feature_fields = []\<rparr>) features)"
proof -
  let ?hit = "\<lambda>f. ''import { '' @ capitalize (feature_name f) @ ''Controller }''"
  let ?cb = "\<lambda>m. case first_match match_controller m of
               None \<Rightarrow> Inl (TypeError ''Cannot read properties of null'')
             | Some g \<Rightarrow> Inr \<lparr>feature_name = toLowerCase g, feature_fields = []\<rparr>"
  have each: "?cb (?hit f) = Inr \<lparr>feature_name = feature_name f, feature_fields = []\<rparr>"
    if "f \<in> set features" for f
  proof -
    from that assms have l: "lower_identifier (feature_name f)" by simp
    then have "first_match match_controller (?hit f) = Some (capitalize (feature_name f))"
      by (intro first_match_import)
         (simp_all add: lower_identifier_word capitalize_word capitalize_nonempty lower_identifier_def)
    with l show ?thesis by (simp add: toLowerCase_capitalize)
  qed
  have "map_throwing ?cb (map ?hit features) =
          Inr (map (\<lambda>f. \<lparr>feature_name = feature_name f, feature_fields = []\<rparr>) features)"
    using each by (induction features) simp_all
  then show ?thesis
    unfolding addFeature_serverFeatures_def scan_serverIndexTs[OF assms] .
qed

subsection \<open>The README\<close>


lemma scan_hit_ctx:
  assumes "\<And>rest. m (M @ v @ rest) = Some (length M)" and "M \<noteq> []" and "scan m v out"
  shows "scan m (M @ v) (M # out)"
  unfolding scan_def
proof
  fix rest
  have "match_all m 0 (M @ (v @ rest)) = M # match_all m 0 (v @ rest)"
    by (rule match_all_hit) (simp_all add: assms)
  with assms(3) show "match_all m 0 ((M @ v) @ rest) = (M # out) @ match_all m 0 rest"
    by (simp add: scan_def)
qed

lemma needs_create: "needs match_create_a ''Create a ''"
  by (auto simp: needs_def match_create_a_def startsWith_prefix split: if_splits)

lemma backtrack_True: "0 < n \<Longrightarrow> backtrack (\<lambda>r. True) s n = Some n"
  by (cases n) simp_all

lemma create_hit:
  assumes "list_all is_word n" and "n \<noteq> []" and "v @ rest \<noteq> []" and "\<not> is_word (hd (v @ rest))"
  shows "match_create_a ((''Create a '' @ n) @ v @ rest) = Some (length (''Create a '' @ n))"
proof -
  have "takeWhile is_word (n @ v @ rest) = n"
    using takeWhile_word_run[of n "v @ rest"] assms by simp
  then show ?thesis
    using assms(2) by (simp add: match_create_a_def startsWith_simps word_group_def backtrack_True)
qed

lemma lower_identifier_no_C: "lower_identifier n \<Longrightarrow> CHR ''C'' \<notin> set n"
  by (auto simp: lower_identifier_def list_all_iff is_lower_word_def)

lemma scan_request:
  assumes n: "lower_identifier (feature_name f)"
    and sj: "\<not> sublist ''Create a '' (template_index sampleJsons i)"
  shows "scan match_create_a (readmeMd_request sampleJsons (f, i)) [''Create a '' @ feature_name f]"
proof -
  let ?n = "feature_name f" and ?m = match_create_a
  note lit = scan_clean[OF needs_create]
  have w: "list_all is_word ?n" "?n \<noteq> []"
    using n by (simp_all add: lower_identifier_word lower_identifier_def)
  have nm: "scan ?m ?n []"
    by (rule scan_first_char[OF needs_create]) (rule lower_identifier_no_C[OF n])
  have line: "readmeMd_request sampleJsons (f, i) =
     ''- '' @ (''Create a '' @ ?n) @
     ('':\<newline>'' @ ''  ```bash\<newline>'' @ ''  curl -X POST http://localhost:3000/api/'' @ ?n @
      '' -H \"Content-Type: application/json\" -d '' @ [CHR 0x27] @
      template_index sampleJsons i @ '''\<newline>'' @ ''  ```'')"
    by (simp add: readmeMd_request_def)
  show ?thesis
    unfolding line
    apply (rule scan_skip, (rule lit, simp; fail))
    apply (rule scan_hit_ctx)
      apply (rule create_hit[OF w], simp, simp add: is_word_def)
     apply (simp add: w)
    apply (rule scan_skip, (rule lit, simp; fail))+
    apply (rule scan_skip[OF nm])
    apply (rule scan_skip, (rule lit, simp; fail))+
    apply (rule scan_var_lit_skip[OF needs_create sj], simp, simp)
    apply (rule lit, simp)
    done
qed


lemma template_index_clean:
  assumes "\<forall>s\<in>set sampleJsons. \<not> sublist ''Create a '' s"
  shows "\<not> sublist ''Create a '' (template_index sampleJsons i)"
proof (cases "i < length sampleJsons")
  case True
  with assms show ?thesis by (simp add: template_index_def)
next
  case False
  have "\<not> sublist ''Create a '' ''undefined''"
    by (rule not_sublist_missing_char[of "CHR ''C''"]) simp_all
  with False show ?thesis by (simp add: template_index_def)
qed

lemma map_fst_zip_same:
  "length xs = length ys \<Longrightarrow> map (\<lambda>x. g (fst x)) (zip xs ys) = map g xs"
  by (induction xs ys rule: list_induct2) simp_all

lemma scan_readmeMd_title:
  assumes names: "\<forall>f\<in>set features. lower_identifier (feature_name f)"
    and title: "scan match_create_a (projectName @ ''\<newline>'') t"
    and sjs: "\<forall>s\<in>set sampleJsons. \<not> sublist ''Create a '' s"
  shows "match_all match_create_a 0 (readmeMd projectName features sampleJsons) =
           t @ map (\<lambda>f. ''Create a '' @ feature_name f) features"
proof -
  let ?m = match_create_a
  let ?h = "\<lambda>(f, i::nat). [''Create a '' @ feature_name f]"
  let ?z = "zip features [0..<length features]"
  note lit = scan_clean[OF needs_create]
  have requests: "scan ?m (js_join ''\<newline>'' (map (readmeMd_request sampleJsons) ?z)) (concat (map ?h ?z))"
  proof (rule scan_js_join)
    fix x assume "x \<in> set ?z"
    moreover obtain f i where x: "x = (f, i)" by (cases x)
    ultimately have f: "f \<in> set features" by (auto dest: set_zip_leftD)
    show "scan ?m (readmeMd_request sampleJsons x) (?h x)"
      unfolding x using scan_request[of f sampleJsons i] names f template_index_clean[OF sjs] by simp
  next
    show "scan ?m ''\<newline>'' []" by (rule lit) simp
  qed
  have listed: "scan ?m (js_join '', '' (map feature_name features)) []"
    using scan_js_join[of features ?m feature_name "\<lambda>f. []" "'', ''"] names
      scan_first_char[OF needs_create lower_identifier_no_C] lit
    by (simp add: concat_map_Nil)
  have "scan ?m (readmeMd projectName features sampleJsons) (t @ concat (map ?h ?z))"
    unfolding readmeMd_def
    apply (rule scan_skip, (rule lit, simp; fail))
    apply (simp only: append_assoc[symmetric, of projectName "''\<newline>''"])
    apply (rule scan_append[OF title])
    apply (rule scan_skip, (rule lit, simp; fail))+
    apply (rule scan_take[OF requests])
    apply (rule scan_skip, (rule lit, simp; fail))+
    apply (rule scan_skip[OF listed])
    apply (rule scan_skip, (rule lit, simp; fail))+
    apply (rule lit, simp)
    done
  then have "match_all ?m 0 (readmeMd projectName features sampleJsons) = t @ concat (map ?h ?z)"
    by (rule scan_result)
  also have "concat (map ?h ?z) = map (\<lambda>x. ''Create a '' @ feature_name (fst x)) ?z"
    by (induction ?z) (auto simp: case_prod_beta)
  also have "\<dots> = map (\<lambda>f. ''Create a '' @ feature_name f) features"
    by (rule map_fst_zip_same) simp
  finally show ?thesis .
qed

lemma scan_readmeMd:
  assumes names: "\<forall>f\<in>set features. lower_identifier (feature_name f)"
    and pn: "\<not> sublist ''Create a '' projectName"
    and sjs: "\<forall>s\<in>set sampleJsons. \<not> sublist ''Create a '' s"
  shows "match_all match_create_a 0 (readmeMd projectName features sampleJsons) =
           map (\<lambda>f. ''Create a '' @ feature_name f) features"
proof -
  have "scan match_create_a (projectName @ ''\<newline>'') []"
    by (rule scan_var_lit_end[OF needs_create pn]) simp_all
  from scan_readmeMd_title[OF names this sjs] show ?thesis by simp
qed

lemma scan_title_create:
  assumes "list_all is_word n" and "n \<noteq> []"
  shows "scan match_create_a ((''Create a '' @ n) @ ''\<newline>'') [''Create a '' @ n]"
proof (rule scan_hit_ctx)
  show "match_create_a ((''Create a '' @ n) @ ''\<newline>'' @ rest) = Some (length (''Create a '' @ n))" for rest
    using create_hit[OF assms, of "''\<newline>''" rest] by (simp add: is_word_def)
  show "''Create a '' @ n \<noteq> []" by simp
  show "scan match_create_a ''\<newline>'' []" by (rule scan_clean[OF needs_create]) simp
qed

lemma create_a_third_piece:
  assumes "list_all is_word n"
  shows "js_split CHR '' '' (''Create a '' @ n) = [''Create'', ''a'', n]"
    and "js_split CHR '' '' (''Create a '' @ n) ! 2 = n"
  using js_split_no_sep[of "CHR '' ''" n] space_not_word[OF assms] by simp_all

lemma addFeature_existingFeatures_generated:
  assumes "\<forall>f\<in>set features. lower_identifier (feature_name f)"
    and "\<not> sublist ''Create a '' projectName"
    and "\<forall>s\<in>set sampleJsons. \<not> sublist ''Create a '' s"
  shows "addFeature_existingFeatures (readmeMd projectName features sampleJsons) =
           map feature_name features"
  unfolding addFeature_existingFeatures_def scan_readmeMd[OF assms]
  using assms(1)
  by (induction features) (simp_all add: js_split_no_sep space_not_word lower_identifier_word)

lemma addFeature_projectName_generated:
  assumes "projectName \<noteq> []" and "\<forall>c\<in>set projectName. \<not> is_line_terminator c"
  shows "addFeature_projectName (readmeMd projectName features sampleJsons) = projectName"
proof -
  have "takeWhile (\<lambda>c. \<not> is_line_terminator c) (projectName @ CHR ''\<newline>'' # rest) = projectName" for rest
    using assms(2) by (induction projectName) (simp_all add: is_line_terminator_def)
  then show ?thesis
    using assms(1)
    by (simp add: addFeature_projectName_def readmeMd_def match_heading_def startsWith_simps)
qed

section \<open>Adding a feature to a generated project\<close>

subsection \<open>Lines of the generated files\<close>

lemma select_lines_js_split:
  "select_lines P acc s =
     filter P (case js_split CHR ''\<newline>'' s of p # ps \<Rightarrow> (acc @ p) # ps | [] \<Rightarrow> [])"
proof (induction s arbitrary: acc)
  case Nil
  then show ?case by simp
next
  case (Cons c cs)
  obtain p ps where "js_split CHR ''\<newline>'' cs = p # ps"
    using js_split_nonempty by (cases "js_split CHR ''\<newline>'' cs") auto
  with Cons show ?case by simp
qed

lemma filter_text_lines: "filter P (text_lines s) = select_lines P [] s"
proof -
  obtain p ps where "js_split CHR ''\<newline>'' s = p # ps"
    using js_split_nonempty by (cases "js_split CHR ''\<newline>'' s") auto
  then show ?thesis by (simp add: select_lines_js_split text_lines_def)
qed

lemma select_lines_var:
  "CHR ''\<newline>'' \<notin> set v \<Longrightarrow> select_lines P acc (v @ s) = select_lines P (acc @ v) s"
  by (induction v arbitrary: acc) auto

lemma select_lines_var_end:
  "CHR ''\<newline>'' \<notin> set v \<Longrightarrow> select_lines P acc v = (if P (acc @ v) then [acc @ v] else [])"
  using select_lines_var[of v P acc "[]"] by simp

lemma select_lines_append:
  "select_lines P acc (a @ CHR ''\<newline>'' # b) = select_lines P acc a @ select_lines P [] b"
  by (induction a arbitrary: acc) simp_all

lemma select_lines_js_join:
  assumes "\<not> P []"
  shows "select_lines P [] (js_join ''\<newline>'' (map g xs) @ CHR ''\<newline>'' # rest) =
           concat (map (\<lambda>x. select_lines P [] (g x)) xs) @ select_lines P [] rest"
proof (induction xs)
  case Nil
  then show ?case using assms by simp
next
  case (Cons x xs)
  show ?case
  proof (cases xs)
    case Nil
    then show ?thesis by (simp add: select_lines_append)
  next
    case (Cons y ys)
    have "select_lines P [] (js_join ''\<newline>'' (map g (x # xs)) @ CHR ''\<newline>'' # rest) =
          select_lines P [] (g x @ CHR ''\<newline>'' # (js_join ''\<newline>'' (map g xs) @ CHR ''\<newline>'' # rest))"
      using Cons by simp
    also have "\<dots> = select_lines P [] (g x) @
          select_lines P [] (js_join ''\<newline>'' (map g xs) @ CHR ''\<newline>'' # rest)"
      by (rule select_lines_append)
    finally show ?thesis using Cons.IH by simp
  qed
qed

lemma concat_map_empty: "(\<And>x. x \<in> set xs \<Longrightarrow> g x = []) \<Longrightarrow> concat (map g xs) = []"
  by (induction xs) simp_all

lemma concat_map_single: "(\<And>x. x \<in> set xs \<Longrightarrow> g x = [h x]) \<Longrightarrow> concat (map g xs) = map h xs"
  by (induction xs) simp_all

lemma lower_identifier_chars:
  assumes "lower_identifier n"
  shows "CHR ''\<newline>'' \<notin> set n" and "CHR 0x27 \<notin> set n" and "CHR '' '' \<notin> set n"
  using assms by (auto simp: lower_identifier_def list_all_iff is_lower_word_def)

lemma capitalize_no_newline: "lower_identifier n \<Longrightarrow> CHR ''\<newline>'' \<notin> set (capitalize n)"
  using capitalize_word[OF lower_identifier_word, of n]
  by (auto simp: list_all_iff is_word_def)

lemma mount_import_line:
  assumes "lower_identifier (feature_name f)"
  shows \<open>select_lines is_mount [] (serverIndexTs_import f) = []\<close>
  using assms
  by (simp add: serverIndexTs_import_def select_lines_var select_lines_var_end
        lower_identifier_chars capitalize_no_newline startsWith_simps is_mount_def)

lemma mount_route_line:
  assumes "lower_identifier (feature_name f)"
  shows \<open>select_lines is_mount [] (serverIndexTs_route f) =
     [''app.use('/api/'' @ feature_name f @ ''', '' @ feature_name f @ ''Controller.getRouter());'']\<close>
  using assms
  by (simp add: serverIndexTs_route_def select_lines_var select_lines_var_end
        lower_identifier_chars capitalize_no_newline startsWith_simps is_mount_def)

lemma mounted_routes_serverIndexTs:
  assumes "\<forall>f\<in>set features. lower_identifier (feature_name f)"
  shows "mounted_routes (serverIndexTs features) = map (\<lambda>f. ''/api/'' @ feature_name f) features"
proof -
  let ?P = is_mount
  have imp: "concat (map (\<lambda>x. select_lines ?P [] (serverIndexTs_import x)) features) = []"
    by (rule concat_map_empty) (use assms mount_import_line in blast)
  have route: "concat (map (\<lambda>x. select_lines ?P [] (serverIndexTs_route x)) features) =
     map (\<lambda>f. ''app.use('/api/'' @ feature_name f @ ''', '' @ feature_name f @ ''Controller.getRouter());'') features"
    by (rule concat_map_single) (use assms mount_route_line in blast)
  have np: "\<not> is_mount []" by (simp add: startsWith_def is_mount_def)
  have "select_lines ?P [] (serverIndexTs features) =
     map (\<lambda>f. ''app.use('/api/'' @ feature_name f @ ''', '' @ feature_name f @ ''Controller.getRouter());'') features"
    unfolding serverIndexTs_def
    by (simp add: select_lines_js_join[of is_mount, OF np] imp route startsWith_simps is_mount_def)
  then show ?thesis
    using assms
    by (simp add: mounted_routes_def filter_text_lines comp_def lower_identifier_chars takeWhile_append_not_mem)
qed

lemma js_join_no_char:
  "(\<And>x. x \<in> set xs \<Longrightarrow> c \<notin> set x) \<Longrightarrow> c \<notin> set sep \<Longrightarrow> c \<notin> set (js_join sep xs)"
proof (induction xs)
  case Nil
  then show ?case by simp
next
  case (Cons x xs)
  then show ?case by (cases xs) auto
qed

lemma request_line:
  assumes n: "lower_identifier (feature_name f)"
    and sj: "CHR ''\<newline>'' \<notin> set (template_index sampleJsons i)"
  shows \<open>select_lines is_request [] (readmeMd_request sampleJsons (f, i)) =
     [''  curl -X POST http://localhost:3000/api/'' @ feature_name f @
      '' -H "Content-Type: application/json" -d '' @ [CHR 0x27] @ template_index sampleJsons i @
      [CHR 0x27]]\<close>
  using assms
  by (simp add: readmeMd_request_def select_lines_var select_lines_var_end
        lower_identifier_chars startsWith_simps is_request_def)

lemma request_lines_readmeMd:
  assumes names: "\<forall>f\<in>set features. lower_identifier (feature_name f)"
    and pn: "CHR ''\<newline>'' \<notin> set projectName"
  shows "filter is_request (text_lines (readmeMd projectName features sampleJsons)) =
           concat (map (\<lambda>x. select_lines is_request [] (readmeMd_request sampleJsons x))
             (zip features [0..<length features]))"
proof -
  have listed: "CHR ''\<newline>'' \<notin> set (js_join '', '' (map feature_name features))"
    by (rule js_join_no_char) (use names lower_identifier_chars in auto)
  have np: "\<not> is_request []" by (simp add: startsWith_def is_request_def)
  show ?thesis
    unfolding readmeMd_def filter_text_lines
    by (simp add: select_lines_js_join[of is_request, OF np] select_lines_var pn listed
          startsWith_simps is_request_def)
qed

lemma example_requests_readmeMd:
  assumes names: "\<forall>f\<in>set features. lower_identifier (feature_name f)"
    and pn: "CHR ''\<newline>'' \<notin> set projectName"
    and sjs: "\<forall>i<length features. CHR ''\<newline>'' \<notin> set (template_index sampleJsons i)"
  shows "example_requests (readmeMd projectName features sampleJsons) =
           map (\<lambda>f. ''http://localhost:3000/api/'' @ feature_name f) features"
proof -
  let ?z = "zip features [0..<length features]"
  let ?line = \<open>\<lambda>(f, i::nat). ''  curl -X POST http://localhost:3000/api/'' @ feature_name f @
      '' -H "Content-Type: application/json" -d '' @ [CHR 0x27] @ template_index sampleJsons i @
      [CHR 0x27]\<close>
  have requests: "concat (map (\<lambda>x. select_lines is_request [] (readmeMd_request sampleJsons x)) ?z) =
     map ?line ?z"
  proof (rule concat_map_single)
    fix x assume x: "x \<in> set ?z"
    obtain f i where fi: "x = (f, i)" by (cases x)
    with x have "f \<in> set features" "i < length features"
      by (auto dest: set_zip_leftD set_zip_rightD)
    with names sjs request_line[of f sampleJsons i]
    show "select_lines is_request [] (readmeMd_request sampleJsons x) = [?line x]"
      unfolding fi by simp
  qed
  have "example_requests (readmeMd projectName features sampleJsons) =
      map (\<lambda>x. ''http://localhost:3000/api/'' @ feature_name (fst x)) ?z"
    unfolding example_requests_def request_lines_readmeMd[OF names pn] requests
    using names
    by (auto simp: comp_def lower_identifier_chars takeWhile_append_not_mem dest: set_zip_leftD)
  also have "\<dots> = map (\<lambda>f. ''http://localhost:3000/api/'' @ feature_name f) features"
    by (rule map_fst_zip_same) simp
  finally show ?thesis .
qed

subsection \<open>The run\<close>

lemma addFeature_existingFeatures_titled:
  assumes names: "\<forall>f\<in>set features. lower_identifier (feature_name f)"
    and n: "list_all is_word n" "n \<noteq> []"
    and sjs: "\<forall>s\<in>set sampleJsons. \<not> sublist ''Create a '' s"
  shows "addFeature_existingFeatures (readmeMd (''Create a '' @ n) features sampleJsons) =
           n # map feature_name features"
proof -
  have "map (\<lambda>m. js_split CHR '' '' m ! 2) (map (\<lambda>f. ''Create a '' @ feature_name f) features) =
          map feature_name features"
    using names
    by (induction features) (simp_all add: js_split_no_sep space_not_word lower_identifier_word)
  then show ?thesis
    unfolding addFeature_existingFeatures_def
      scan_readmeMd_title[OF names scan_title_create[OF n] sjs]
    using create_a_third_piece(2)[OF n(1)] by simp
qed

lemma map_throwing_map:
  "(\<And>x. x \<in> set xs \<Longrightarrow> f x = Inr (g x)) \<Longrightarrow> map_throwing f xs = Inr (map g xs)"
  by (induction xs) simp_all

lemma addFeature_run:
  assumes cwd: "cwd fs = absolute_path ds" and ds: "list_all plain_segment ds"
    and server: "files fs (absolute_path (ds @ [''Server'', ''index.ts''])) = Some serverContent"
    and readme: "files fs (absolute_path (ds @ [''README.md''])) = Some readmeContent"
    and recovered: "addFeature_serverFeatures serverContent = Inr recovered"
    and c: "plain_segment c"
    and fd: "parseFields (or_default fd) = Inr pf"
  shows "exit_code (addFeature fs c fd) = None"
    and "files (fs_after (addFeature fs c fd)) (absolute_path (ds @ [''Server'', ''index.ts''])) =
           Some (serverIndexTs (recovered @ [\<lparr>feature_name = c, feature_fields = fd\<rparr>]))"
    and "files (fs_after (addFeature fs c fd)) (absolute_path (ds @ [''README.md''])) =
           Some (readmeMd (addFeature_projectName readmeContent)
             (addFeature_newFeatures (addFeature_existingFeatures readmeContent) c fd)
             (map (\<lambda>n. getSampleJson (if n = c then pf else default_parsed))
                (addFeature_existingFeatures readmeContent @ [c])))"
proof -
  let ?root = "absolute_path ds"
  let ?server = "absolute_path (ds @ [''Server'', ''index.ts''])"
  let ?readme = "absolute_path (ds @ [''README.md''])"
  let ?ex = "addFeature_existingFeatures readmeContent"
  let ?newServer = "serverIndexTs (recovered @ [\<lparr>feature_name = c, feature_fields = fd\<rparr>])"
  let ?newReadme = "readmeMd (addFeature_projectName readmeContent)
             (addFeature_newFeatures ?ex c fd)
             (map (\<lambda>n. getSampleJson (if n = c then pf else default_parsed)) (?ex @ [c]))"
  obtain fs1 out1 where gen: "generateFeature fs ?root c pf = (fs1, out1)"
    by (cases "generateFeature fs ?root c pf")
  have fs1: "files fs1 ?server = Some serverContent" "files fs1 ?readme = Some readmeContent"
    using files_generateFeature_kept[OF c ds, of fs pf] gen server readme by simp_all
  have pj: "path_join [?root, ''Server/index.ts''] = ?server" "path_join [?root, ''README.md''] = ?readme"
    using ds by (simp_all add: path_simps)
  have res: "path_resolve s ?server = ?server" "path_resolve s ?readme = ?readme" for s
    using ds by (simp_all add: path_simps)
  have differ: "?readme \<noteq> ?server"
    using ds by (simp add: path_simps)
  have acc: "fs_access fs ?server"
    using server by (simp add: fs_access_def res)
  have samples: "map_throwing
             (\<lambda>f. case parseFields (or_default (feature_fields f)) of
                     Inl e \<Rightarrow> Inl e
                   | Inr parsed \<Rightarrow> Inr (getSampleJson parsed))
             (addFeature_newFeatures ?ex c fd) =
          Inr (map (\<lambda>f. getSampleJson (if feature_name f = c then pf else default_parsed))
                (addFeature_newFeatures ?ex c fd))"
    by (rule map_throwing_map)
       (auto simp: addFeature_newFeatures_def fd or_default_Nil parseFields_default)
  have samples': "map (\<lambda>f. getSampleJson (if feature_name f = c then pf else default_parsed))
                (addFeature_newFeatures ?ex c fd) =
        map (\<lambda>n. getSampleJson (if n = c then pf else default_parsed)) (?ex @ [c])"
    by (simp add: addFeature_newFeatures_def comp_def)
  have "\<exists>out. addFeature_try fs ?root c fd =
     Inr (fs_writeFile (fs_writeFile fs1 ?server ?newServer) ?readme ?newReadme, out)"
    unfolding addFeature_try_def
    using differ
    by (simp add: fd gen pj fs_readFile_def res fs1 Let_def recovered fs_writeFile_def
          samples samples')
  then obtain out where tried: "addFeature_try fs ?root c fd =
     Inr (fs_writeFile (fs_writeFile fs1 ?server ?newServer) ?readme ?newReadme, out)" ..
  show "exit_code (addFeature fs c fd) = None"
    by (simp add: addFeature_def cwd pj acc tried)
  show "files (fs_after (addFeature fs c fd)) ?server = Some ?newServer"
    using differ by (simp add: addFeature_def cwd pj acc tried fs_writeFile_def res)
  show "files (fs_after (addFeature fs c fd)) ?readme = Some ?newReadme"
    by (simp add: addFeature_def cwd pj acc tried fs_writeFile_def res)
qed

lemma addFeature_malformed:
  assumes cwd: "cwd fs = absolute_path ds" and ds: "list_all plain_segment ds"
    and server: "files fs (absolute_path (ds @ [''Server'', ''index.ts''])) = Some serverContent"
    and fd: "parseFields (or_default fd) = Inl e"
  shows "exit_code (addFeature fs c fd) = Some 1" and "fs_after (addFeature fs c fd) = fs"
proof -
  have pj: "path_join [absolute_path ds, ''Server/index.ts''] = absolute_path (ds @ [''Server'', ''index.ts''])"
    using ds by (simp add: path_simps)
  have res: "path_resolve fs (absolute_path (ds @ [''Server'', ''index.ts''])) =
      absolute_path (ds @ [''Server'', ''index.ts''])"
    using ds by (simp add: path_simps)
  have acc: "fs_access fs (absolute_path (ds @ [''Server'', ''index.ts'']))"
    using server by (simp add: fs_access_def res)
  show "exit_code (addFeature fs c fd) = Some 1" and "fs_after (addFeature fs c fd) = fs"
    by (simp_all add: addFeature_def cwd pj acc addFeature_try_def fd)
qed

lemma heading_no_terminator:
  "first_match_at_line_start match_heading b s = Some g \<Longrightarrow> \<forall>ch\<in>set g. \<not> is_line_terminator ch"
proof (induction s arbitrary: b)
  case Nil
  then show ?case by (auto simp: match_heading_def startsWith_def split: if_splits)
next
  case (Cons c cs)
  show ?case
  proof (cases "if b then match_heading (c # cs) else None")
    case None
    with Cons show ?thesis by simp
  next
    case (Some r)
    with Cons.prems have "match_heading (c # cs) = Some g" by (auto split: if_splits)
    then have "g = takeWhile (\<lambda>c. \<not> is_line_terminator c) (drop 2 (c # cs))"
      by (auto simp: match_heading_def Let_def split: if_splits)
    then show ?thesis by (auto dest: set_takeWhileD)
  qed
qed

lemma addFeature_projectName_no_newline: "CHR ''\<newline>'' \<notin> set (addFeature_projectName readme)"
proof (cases "first_match_at_line_start match_heading True readme")
  case None
  then show ?thesis by (simp add: addFeature_projectName_def)
next
  case (Some g)
  from heading_no_terminator[OF this] show ?thesis
    using Some by (auto simp: addFeature_projectName_def is_line_terminator_def)
qed

lemma default_sample: \<open>getSampleJson default_parsed = ''{"name": "sample_name", "email": "test@example.com"}''\<close>
  by (simp add: default_parsed_def getSampleJson_def getSampleJson_value_def startsWith_def)

lemma lower_identifier_plain: "lower_identifier n \<Longrightarrow> plain_segment n"
  by (cases n) (auto simp: lower_identifier_def plain_segment_def list_all_iff is_lower_word_def)

lemma shop_features_ok:
  "\<forall>f\<in>set shop_features. plain_segment (feature_name f) \<and>
     parseFields (or_default (feature_fields f)) =
       Inr (if feature_name f = ''user'' then default_parsed
            else [\<lparr>name = ''title'', type = ''string'', rule = None\<rparr>,
                  \<lparr>name = ''price'', type = ''number'', rule = Some ''min=0''\<rparr>])"
  by (simp add: shop_features_def or_default_Nil parseFields_default plain_segment_literal)
     (simp add: or_default_def parseFields_def parseFields_pair_def FieldSchema_test_def not_colon_def)

lemma shop_samples:
  \<open>map (\<lambda>f. getSampleJson (if feature_name f = ''user'' then default_parsed
            else [\<lparr>name = ''title'', type = ''string'', rule = None\<rparr>,
                  \<lparr>name = ''price'', type = ''number'', rule = Some ''min=0''\<rparr>])) shop_features =
       [''{"name": "sample_name", "email": "test@example.com"}'',
        ''{"title": "sample_title", "price": 123}'']\<close>
  by (simp add: shop_features_def default_parsed_def getSampleJson_def getSampleJson_value_def
        startsWith_def)

lemma phrase_project_generated:
  \<open>cwd phrase_project = ''/work/Create a x''\<close>
  \<open>files phrase_project ''/work/Create a x/Server/index.ts'' = Some (serverIndexTs shop_features)\<close>
  \<open>files phrase_project ''/work/Create a x/README.md'' =
     Some (readmeMd ''Create a x'' shop_features
       [''{"name": "sample_name", "email": "test@example.com"}'',
        ''{"title": "sample_title", "price": 123}''])\<close>
proof -
  have free: "\<not> fs_access workspace (absolute_path ([''work''] @ [''Create a x'']))"
    using path_resolve_absolute[of "[''work'', ''Create a x'']" workspace]
    by (simp add: fs_access_def plain_segment_literal) (simp add: absolute_path_def workspace_def)
  have ws: "absolute_path [''work''] = ''/work''" by (simp add: absolute_path_def)
  note gen = createProject_generates[OF node_20 _ _ free shop_features_ok, unfolded ws shop_samples]
  show \<open>cwd phrase_project = ''/work/Create a x''\<close>
    using gen(2) by (simp add: phrase_project_def absolute_path_def plain_segment_literal)
  show \<open>files phrase_project ''/work/Create a x/Server/index.ts'' = Some (serverIndexTs shop_features)\<close>
    using gen(3) by (simp add: phrase_project_def absolute_path_def plain_segment_literal)
  show \<open>files phrase_project ''/work/Create a x/README.md'' =
     Some (readmeMd ''Create a x'' shop_features
       [''{"name": "sample_name", "email": "test@example.com"}'',
        ''{"title": "sample_title", "price": 123}''])\<close>
    using gen(4) by (simp add: phrase_project_def absolute_path_def plain_segment_literal)
qed

lemma shop_names: "\<forall>f\<in>set shop_features. lower_identifier (feature_name f)"
  by (simp add: shop_features_def lower_identifier_def is_lower_word_def)

lemma shop_samples_clean:
  \<open>\<forall>s\<in>set [''{"name": "sample_name", "email": "test@example.com"}'',
        ''{"title": "sample_title", "price": 123}'']. \<not> sublist ''Create a '' s\<close>
proof -
  have \<open>\<not> sublist ''Create a '' ''{"name": "sample_name", "email": "test@example.com"}''\<close>
    by (rule not_sublist_missing_char[of "CHR ''C''"]) simp_all
  moreover have \<open>\<not> sublist ''Create a '' ''{"title": "sample_title", "price": 123}''\<close>
    by (rule not_sublist_missing_char[of "CHR ''C''"]) simp_all
  ultimately show ?thesis by simp
qed

subsection \<open>Roster growth\<close>

text \<open>
  Claim C2, as the code has it: let the working directory hold \<^verbatim>\<open>Server/index.ts\<close>
  and \<^verbatim>\<open>README.md\<close> as they are generated for the roster \<open>[a, b]\<close> of lower-case
  names, where neither the project name nor a sample object of the README contains the
  phrase \<^verbatim>\<open>Create a \<close>, and let the field specification of the new feature \<open>c\<close> parse
  and its sample object have no line break. Then \<^verbatim>\<open>feature c\<close> returns normally; the
  bootstrap file it writes is the one generated for \<open>[a, b, c]\<close> and mounts exactly the
  routes \<^verbatim>\<open>/api/a\<close>, \<^verbatim>\<open>/api/b\<close>, \<^verbatim>\<open>/api/c\<close> in this order; the README it writes is
  the one generated for the same three features and holds exactly three example
  requests, to \<^verbatim>\<open>/api/a\<close>, \<^verbatim>\<open>/api/b\<close>, \<^verbatim>\<open>/api/c\<close> in this order. The title of the
  README is kept when it is a non-empty single line.
\<close>

theorem addFeature_roster_growth:
  assumes "lower_identifier a" and "lower_identifier b" and "lower_identifier c"
    and "cwd fs = absolute_path ds" and "list_all plain_segment ds"
    and "files fs (absolute_path (ds @ [''Server'', ''index.ts''])) =
           Some (serverIndexTs [\<lparr>feature_name = a, feature_fields = fa\<rparr>,
                                \<lparr>feature_name = b, feature_fields = fb\<rparr>])"
    and "files fs (absolute_path (ds @ [''README.md''])) =
           Some (readmeMd projectName [\<lparr>feature_name = a, feature_fields = fa\<rparr>,
                                       \<lparr>feature_name = b, feature_fields = fb\<rparr>] [sa, sb])"
    and "\<not> sublist ''Create a '' projectName"
    and "\<not> sublist ''Create a '' sa" and "\<not> sublist ''Create a '' sb"
    and "parseFields (or_default fieldDefs) = Inr parsed"
    and "CHR ''\<newline>'' \<notin> set (getSampleJson parsed)"
  shows "exit_code (addFeature fs c fieldDefs) = None \<and>
         (\<exists>bootstrap readme.
            files (fs_after (addFeature fs c fieldDefs)) (absolute_path (ds @ [''Server'', ''index.ts''])) =
              Some bootstrap \<and>
            bootstrap = serverIndexTs [\<lparr>feature_name = a, feature_fields = []\<rparr>,
                                       \<lparr>feature_name = b, feature_fields = []\<rparr>,
                                       \<lparr>feature_name = c, feature_fields = fieldDefs\<rparr>] \<and>
            mounted_routes bootstrap = [''/api/'' @ a, ''/api/'' @ b, ''/api/'' @ c] \<and>
            files (fs_after (addFeature fs c fieldDefs)) (absolute_path (ds @ [''README.md''])) =
              Some readme \<and>
            readme = readmeMd
              (addFeature_projectName
                (readmeMd projectName [\<lparr>feature_name = a, feature_fields = fa\<rparr>,
                                       \<lparr>feature_name = b, feature_fields = fb\<rparr>] [sa, sb]))
              [\<lparr>feature_name = a, feature_fields = (if a = c then fieldDefs else [])\<rparr>,
               \<lparr>feature_name = b, feature_fields = (if b = c then fieldDefs else [])\<rparr>,
               \<lparr>feature_name = c, feature_fields = fieldDefs\<rparr>]
              [getSampleJson (if a = c then parsed else default_parsed),
               getSampleJson (if b = c then parsed else default_parsed),
               getSampleJson parsed] \<and>
            example_requests readme =
              [''http://localhost:3000/api/'' @ a, ''http://localhost:3000/api/'' @ b,
               ''http://localhost:3000/api/'' @ c]) \<and>
         (projectName \<noteq> [] \<and> (\<forall>ch\<in>set projectName. \<not> is_line_terminator ch) \<longrightarrow>
            addFeature_projectName
              (readmeMd projectName [\<lparr>feature_name = a, feature_fields = fa\<rparr>,
                                     \<lparr>feature_name = b, feature_fields = fb\<rparr>] [sa, sb]) = projectName)"
proof -
  let ?old = "[\<lparr>feature_name = a, feature_fields = fa\<rparr>, \<lparr>feature_name = b, feature_fields = fb\<rparr>]"
  let ?new = "[\<lparr>feature_name = a, feature_fields = []\<rparr>, \<lparr>feature_name = b, feature_fields = []\<rparr>,
               \<lparr>feature_name = c, feature_fields = fieldDefs\<rparr>]"
  let ?new' = "[\<lparr>feature_name = a, feature_fields = (if a = c then fieldDefs else [])\<rparr>,
               \<lparr>feature_name = b, feature_fields = (if b = c then fieldDefs else [])\<rparr>,
               \<lparr>feature_name = c, feature_fields = fieldDefs\<rparr>]"
  let ?samples = "[getSampleJson (if a = c then parsed else default_parsed),
               getSampleJson (if b = c then parsed else default_parsed),
               getSampleJson parsed]"
  let ?title = "addFeature_projectName (readmeMd projectName ?old [sa, sb])"
  have names: "\<forall>f\<in>set ?old. lower_identifier (feature_name f)" using assms(1,2) by simp
  have sjs: "\<forall>s\<in>set [sa, sb]. \<not> sublist ''Create a '' s" using assms(9,10) by simp
  note rec = addFeature_serverFeatures_generated[OF names]
  note ex = addFeature_existingFeatures_generated[OF names assms(8) sjs]
  note run = addFeature_run[OF assms(4) assms(5) assms(6) assms(7) rec
      lower_identifier_plain[OF assms(3)] assms(11)]
  have server: "files (fs_after (addFeature fs c fieldDefs)) (absolute_path (ds @ [''Server'', ''index.ts''])) =
      Some (serverIndexTs ?new)"
    using run(2) by simp
  have readme: "files (fs_after (addFeature fs c fieldDefs)) (absolute_path (ds @ [''README.md''])) =
      Some (readmeMd ?title ?new' ?samples)"
    using run(3) by (simp add: ex addFeature_newFeatures_def)
  have routes: "mounted_routes (serverIndexTs ?new) = [''/api/'' @ a, ''/api/'' @ b, ''/api/'' @ c]"
    using mounted_routes_serverIndexTs[of ?new] assms(1-3) by simp
  have nl: "\<forall>i<length ?new'. CHR ''\<newline>'' \<notin> set (template_index ?samples i)"
    using assms(12) by (auto simp: template_index_def nth_Cons' default_sample)
  have requests: "example_requests (readmeMd ?title ?new' ?samples) =
      [''http://localhost:3000/api/'' @ a, ''http://localhost:3000/api/'' @ b,
       ''http://localhost:3000/api/'' @ c]"
    using example_requests_readmeMd[of ?new' ?title ?samples, OF _ addFeature_projectName_no_newline nl]
      assms(1-3) by simp
  show ?thesis
    using run(1) server readme routes requests
    by (simp add: addFeature_projectName_generated)
qed

theorem addFeature_roster_growth_witness:
  \<open>lower_identifier ''user'' \<and> lower_identifier ''product'' \<and> lower_identifier ''order'' \<and>
   cwd shop = absolute_path [''work'', ''shop''] \<and>
   list_all plain_segment [''work'', ''shop''] \<and>
   files shop ''/work/shop/Server/index.ts'' =
     Some (serverIndexTs [\<lparr>feature_name = ''user'', feature_fields = ''''\<rparr>,
       \<lparr>feature_name = ''product'', feature_fields = ''title:string,price:number:min=0''\<rparr>]) \<and>
   files shop ''/work/shop/README.md'' =
     Some (readmeMd ''shop'' [\<lparr>feature_name = ''user'', feature_fields = ''''\<rparr>,
       \<lparr>feature_name = ''product'', feature_fields = ''title:string,price:number:min=0''\<rparr>]
       [''{"name": "sample_name", "email": "test@example.com"}'',
        ''{"title": "sample_title", "price": 123}'']) \<and>
   \<not> sublist ''Create a '' ''shop'' \<and>
   \<not> sublist ''Create a '' ''{"name": "sample_name", "email": "test@example.com"}'' \<and>
   \<not> sublist ''Create a '' ''{"title": "sample_title", "price": 123}'' \<and>
   parseFields (or_default ''status:string:enum=open|closed'') =
     Inr [\<lparr>name = ''status'', type = ''string'', rule = Some ''enum=open|closed''\<rparr>] \<and>
   getSampleJson [\<lparr>name = ''status'', type = ''string'', rule = Some ''enum=open|closed''\<rparr>] =
     ''{"status": "open"}'' \<and>
   exit_code (addFeature shop ''order'' ''status:string:enum=open|closed'') = None \<and>
   files (fs_after (addFeature shop ''order'' ''status:string:enum=open|closed''))
       ''/work/shop/Server/index.ts'' =
     Some (serverIndexTs [\<lparr>feature_name = ''user'', feature_fields = ''''\<rparr>,
       \<lparr>feature_name = ''product'', feature_fields = ''''\<rparr>,
       \<lparr>feature_name = ''order'', feature_fields = ''status:string:enum=open|closed''\<rparr>]) \<and>
   mounted_routes (serverIndexTs [\<lparr>feature_name = ''user'', feature_fields = ''''\<rparr>,
       \<lparr>feature_name = ''product'', feature_fields = ''''\<rparr>,
       \<lparr>feature_name = ''order'', feature_fields = ''status:string:enum=open|closed''\<rparr>]) =
     [''/api/user'', ''/api/product'', ''/api/order''] \<and>
   files (fs_after (addFeature shop ''order'' ''status:string:enum=open|closed''))
       ''/work/shop/README.md'' =
     Some (readmeMd ''shop'' [\<lparr>feature_name = ''user'', feature_fields = ''''\<rparr>,
       \<lparr>feature_name = ''product'', feature_fields = ''''\<rparr>,
       \<lparr>feature_name = ''order'', feature_fields = ''status:string:enum=open|closed''\<rparr>]
       [''{"name": "sample_name", "email": "test@example.com"}'',
        ''{"name": "sample_name", "email": "test@example.com"}'',
        ''{"status": "open"}'']) \<and>
   example_requests (readmeMd ''shop'' [\<lparr>feature_name = ''user'', feature_fields = ''''\<rparr>,
       \<lparr>feature_name = ''product'', feature_fields = ''''\<rparr>,
       \<lparr>feature_name = ''order'', feature_fields = ''status:string:enum=open|closed''\<rparr>]
       [''{"name": "sample_name", "email": "test@example.com"}'',
        ''{"name": "sample_name", "email": "test@example.com"}'',
        ''{"status": "open"}'']) =
     [''http://localhost:3000/api/user'', ''http://localhost:3000/api/product'',
      ''http://localhost:3000/api/order'']\<close>
proof -
  have h1: "lower_identifier ''user''" and h2: "lower_identifier ''product''"
    and h3: "lower_identifier ''order''"
    by (simp_all add: lower_identifier_def is_lower_word_def)
  have h4: "cwd shop = absolute_path [''work'', ''shop'']"
    using shop_generated(1) by (simp add: absolute_path_def)
  have h5: "list_all plain_segment [''work'', ''shop'']" by (simp add: plain_segment_literal)
  have h6: "files shop (absolute_path ([''work'', ''shop''] @ [''Server'', ''index.ts''])) =
     Some (serverIndexTs [\<lparr>feature_name = ''user'', feature_fields = ''''\<rparr>,
       \<lparr>feature_name = ''product'', feature_fields = ''title:string,price:number:min=0''\<rparr>])"
    using shop_generated(2) by (simp add: shop_features_def absolute_path_def)
  have h7: \<open>files shop (absolute_path ([''work'', ''shop''] @ [''README.md''])) =
     Some (readmeMd ''shop'' [\<lparr>feature_name = ''user'', feature_fields = ''''\<rparr>,
       \<lparr>feature_name = ''product'', feature_fields = ''title:string,price:number:min=0''\<rparr>]
       [''{"name": "sample_name", "email": "test@example.com"}'',
        ''{"title": "sample_title", "price": 123}''])\<close>
    using shop_generated(3) by (simp add: shop_features_def absolute_path_def)
  have h8: "\<not> sublist ''Create a '' ''shop''"
    by (rule not_sublist_missing_char[of "CHR ''C''"]) simp_all
  have h9: \<open>\<not> sublist ''Create a '' ''{"name": "sample_name", "email": "test@example.com"}''\<close>
    and h10: \<open>\<not> sublist ''Create a '' ''{"title": "sample_title", "price": 123}''\<close>
    using shop_samples_clean by simp_all
  have h11: "parseFields (or_default ''status:string:enum=open|closed'') =
     Inr [\<lparr>name = ''status'', type = ''string'', rule = Some ''enum=open|closed''\<rparr>]"
    by (simp add: or_default_def parseFields_def parseFields_pair_def FieldSchema_test_def
          not_colon_def)
  have s: \<open>getSampleJson [\<lparr>name = ''status'', type = ''string'', rule = Some ''enum=open|closed''\<rparr>]
      = ''{"status": "open"}''\<close>
    by (simp add: getSampleJson_def getSampleJson_value_def startsWith_def)
  have h12: "CHR ''\<newline>'' \<notin> set (getSampleJson
      [\<lparr>name = ''status'', type = ''string'', rule = Some ''enum=open|closed''\<rparr>])"
    by (simp add: s)
  have t: "addFeature_projectName (readmeMd ''shop'' fs sj) = ''shop''" for fs sj
    by (rule addFeature_projectName_generated) (simp_all add: is_line_terminator_def)
  show ?thesis
    using addFeature_roster_growth[OF h1 h2 h3 h4 h5 h6 h7 h8 h9 h10 h11 h12]
      h1 h2 h3 h4 h5 h6 h7 h8 h9 h10 h11 s
    by (simp add: absolute_path_def t default_sample)
qed

text \<open>
  Claim C2 as first stated puts no condition on the project name, on the sample objects
  or on the new field specification. For the project named \<^verbatim>\<open>Create a x\<close> the roster
  read back from the README is \<open>[x, user, product]\<close>, and the README written by
  \<^verbatim>\<open>feature order\<close> holds four example requests, the first to \<^verbatim>\<open>/api/x\<close>. With the
  malformed specification \<^verbatim>\<open>status\<close> the run ends with status 1 and writes nothing.
  With a field name that holds a line break and the start of a request line, the README
  holds five such lines.
\<close>

theorem addFeature_roster_growth_fails:
  \<open>cwd phrase_project = ''/work/Create a x'' \<and>
   files phrase_project ''/work/Create a x/Server/index.ts'' = Some (serverIndexTs shop_features) \<and>
   files phrase_project ''/work/Create a x/README.md'' =
     Some (readmeMd ''Create a x'' shop_features
       [''{"name": "sample_name", "email": "test@example.com"}'',
        ''{"title": "sample_title", "price": 123}'']) \<and>
   exit_code (addFeature phrase_project ''order'' '''') = None \<and>
   files (fs_after (addFeature phrase_project ''order'' '''')) ''/work/Create a x/README.md'' =
     Some (readmeMd ''Create a x''
       [\<lparr>feature_name = ''x'', feature_fields = ''''\<rparr>,
        \<lparr>feature_name = ''user'', feature_fields = ''''\<rparr>,
        \<lparr>feature_name = ''product'', feature_fields = ''''\<rparr>,
        \<lparr>feature_name = ''order'', feature_fields = ''''\<rparr>]
       [''{"name": "sample_name", "email": "test@example.com"}'',
        ''{"name": "sample_name", "email": "test@example.com"}'',
        ''{"name": "sample_name", "email": "test@example.com"}'',
        ''{"name": "sample_name", "email": "test@example.com"}'']) \<and>
   example_requests (readmeMd ''Create a x''
       [\<lparr>feature_name = ''x'', feature_fields = ''''\<rparr>,
        \<lparr>feature_name = ''user'', feature_fields = ''''\<rparr>,
        \<lparr>feature_name = ''product'', feature_fields = ''''\<rparr>,
        \<lparr>feature_name = ''order'', feature_fields = ''''\<rparr>]
       [''{"name": "sample_name", "email": "test@example.com"}'',
        ''{"name": "sample_name", "email": "test@example.com"}'',
        ''{"name": "sample_name", "email": "test@example.com"}'',
        ''{"name": "sample_name", "email": "test@example.com"}'']) =
     [''http://localhost:3000/api/x'', ''http://localhost:3000/api/user'',
      ''http://localhost:3000/api/product'', ''http://localhost:3000/api/order''] \<and>
   exit_code (addFeature shop ''order'' ''status'') = Some 1 \<and>
   fs_after (addFeature shop ''order'' ''status'') = shop \<and>
   exit_code (addFeature shop ''order'' ''a\<newline>  curl -X POST b:string'') = None \<and>
   files (fs_after (addFeature shop ''order'' ''a\<newline>  curl -X POST b:string''))
       ''/work/shop/README.md'' =
     Some (readmeMd ''shop''
       [\<lparr>feature_name = ''user'', feature_fields = ''''\<rparr>,
        \<lparr>feature_name = ''product'', feature_fields = ''''\<rparr>,
        \<lparr>feature_name = ''order'', feature_fields = ''a\<newline>  curl -X POST b:string''\<rparr>]
       [''{"name": "sample_name", "email": "test@example.com"}'',
        ''{"name": "sample_name", "email": "test@example.com"}'',
        ''{"a\<newline>  curl -X POST b": "sample_a\<newline>  curl -X POST b"}'']) \<and>
   example_requests (readmeMd ''shop''
       [\<lparr>feature_name = ''user'', feature_fields = ''''\<rparr>,
        \<lparr>feature_name = ''product'', feature_fields = ''''\<rparr>,
        \<lparr>feature_name = ''order'', feature_fields = ''a\<newline>  curl -X POST b:string''\<rparr>]
       [''{"name": "sample_name", "email": "test@example.com"}'',
        ''{"name": "sample_name", "email": "test@example.com"}'',
        ''{"a\<newline>  curl -X POST b": "sample_a\<newline>  curl -X POST b"}'']) =
     [''http://localhost:3000/api/user'', ''http://localhost:3000/api/product'',
      ''http://localhost:3000/api/order'', ''b":'', ''b"}'' @ [CHR 0x27]]\<close>
proof -
  let ?d = \<open>''{"name": "sample_name", "email": "test@example.com"}''\<close>
  \<comment> \<open>the project whose name holds the phrase\<close>
  have p_cwd: "cwd phrase_project = absolute_path [''work'', ''Create a x'']"
    using phrase_project_generated(1) by (simp add: absolute_path_def)
  have p_ds: "list_all plain_segment [''work'', ''Create a x'']" by (simp add: plain_segment_literal)
  have p_server: "files phrase_project (absolute_path ([''work'', ''Create a x''] @ [''Server'', ''index.ts''])) =
      Some (serverIndexTs shop_features)"
    using phrase_project_generated(2) by (simp add: absolute_path_def)
  have p_readme: \<open>files phrase_project (absolute_path ([''work'', ''Create a x''] @ [''README.md''])) =
      Some (readmeMd ''Create a x'' shop_features
       [''{"name": "sample_name", "email": "test@example.com"}'',
        ''{"title": "sample_title", "price": 123}''])\<close>
    using phrase_project_generated(3) by (simp add: absolute_path_def)
  have order: "plain_segment ''order''" by (simp add: plain_segment_literal)
  have dflt: "parseFields (or_default '''') = Inr default_parsed"
    by (simp add: or_default_Nil parseFields_default)
  have x: "list_all is_word ''x''" "''x'' \<noteq> []" by (simp_all add: is_word_def)
  have ex: \<open>addFeature_existingFeatures (readmeMd ''Create a x'' shop_features
       [''{"name": "sample_name", "email": "test@example.com"}'',
        ''{"title": "sample_title", "price": 123}'']) = [''x'', ''user'', ''product'']\<close>
    using addFeature_existingFeatures_titled[OF shop_names x shop_samples_clean]
    by (simp add: shop_features_def)
  have title: "addFeature_projectName (readmeMd ''Create a x'' fs sj) = ''Create a x''" for fs sj
    by (rule addFeature_projectName_generated) (simp_all add: is_line_terminator_def)
  note p_run = addFeature_run[OF p_cwd p_ds p_server p_readme
      addFeature_serverFeatures_generated[OF shop_names] order dflt]
  let ?four = "[\<lparr>feature_name = ''x'', feature_fields = ''''\<rparr>,
        \<lparr>feature_name = ''user'', feature_fields = ''''\<rparr>,
        \<lparr>feature_name = ''product'', feature_fields = ''''\<rparr>,
        \<lparr>feature_name = ''order'', feature_fields = ''''\<rparr>]"
  have p_new: "files (fs_after (addFeature phrase_project ''order'' '''')) ''/work/Create a x/README.md'' =
     Some (readmeMd ''Create a x'' ?four [?d, ?d, ?d, ?d])"
    using p_run(3) by (simp add: ex title addFeature_newFeatures_def default_sample absolute_path_def)
  have four: "\<forall>f\<in>set ?four. lower_identifier (feature_name f)"
    by (simp add: lower_identifier_def is_lower_word_def)
  have p_requests: "example_requests (readmeMd ''Create a x'' ?four [?d, ?d, ?d, ?d]) =
     [''http://localhost:3000/api/x'', ''http://localhost:3000/api/user'',
      ''http://localhost:3000/api/product'', ''http://localhost:3000/api/order'']"
    using example_requests_readmeMd[OF four, of "''Create a x''" "[?d, ?d, ?d, ?d]"]
    by (simp add: template_index_def nth_Cons' less_Suc_eq all_conj_distrib)
  \<comment> \<open>the sample project\<close>
  have s_cwd: "cwd shop = absolute_path [''work'', ''shop'']"
    using shop_generated(1) by (simp add: absolute_path_def)
  have s_ds: "list_all plain_segment [''work'', ''shop'']" by (simp add: plain_segment_literal)
  have s_server: "files shop (absolute_path ([''work'', ''shop''] @ [''Server'', ''index.ts''])) =
      Some (serverIndexTs shop_features)"
    using shop_generated(2) by (simp add: absolute_path_def)
  have s_readme: \<open>files shop (absolute_path ([''work'', ''shop''] @ [''README.md''])) =
      Some (readmeMd ''shop'' shop_features
       [''{"name": "sample_name", "email": "test@example.com"}'',
        ''{"title": "sample_title", "price": 123}''])\<close>
    using shop_generated(3) by (simp add: absolute_path_def)
  have bad: "parseFields (or_default ''status'') = Inl (ZodError FieldSchema_message)"
    by (simp add: or_default_def parseFields_def parseFields_pair_def)
  note s_bad = addFeature_malformed[OF s_cwd s_ds s_server bad, of "''order''"]
  let ?fd = "''a\<newline>  curl -X POST b:string''"
  let ?s3 = \<open>''{"a\<newline>  curl -X POST b": "sample_a\<newline>  curl -X POST b"}''\<close>
  have broken: "parseFields (or_default ?fd) =
      Inr [\<lparr>name = ''a\<newline>  curl -X POST b'', type = ''string'', rule = None\<rparr>]"
    by (simp add: or_default_def parseFields_def parseFields_pair_def FieldSchema_test_def
          not_colon_def)
  have s3: "getSampleJson [\<lparr>name = ''a\<newline>  curl -X POST b'', type = ''string'', rule = None\<rparr>] = ?s3"
    by (simp add: getSampleJson_def getSampleJson_value_def startsWith_def)
  have shop_clean: "\<not> sublist ''Create a '' ''shop''"
    by (rule not_sublist_missing_char[of "CHR ''C''"]) simp_all
  have s_ex: \<open>addFeature_existingFeatures (readmeMd ''shop'' shop_features
       [''{"name": "sample_name", "email": "test@example.com"}'',
        ''{"title": "sample_title", "price": 123}'']) = [''user'', ''product'']\<close>
    using addFeature_existingFeatures_generated[OF shop_names shop_clean shop_samples_clean]
    by (simp add: shop_features_def)
  have s_title: "addFeature_projectName (readmeMd ''shop'' fs sj) = ''shop''" for fs sj
    by (rule addFeature_projectName_generated) (simp_all add: is_line_terminator_def)
  note s_run = addFeature_run[OF s_cwd s_ds s_server s_readme
      addFeature_serverFeatures_generated[OF shop_names] order broken]
  let ?three = "[\<lparr>feature_name = ''user'', feature_fields = ''''\<rparr>,
        \<lparr>feature_name = ''product'', feature_fields = ''''\<rparr>,
        \<lparr>feature_name = ''order'', feature_fields = ?fd\<rparr>]"
  have s_new: "files (fs_after (addFeature shop ''order'' ?fd)) ''/work/shop/README.md'' =
     Some (readmeMd ''shop'' ?three [?d, ?d, ?s3])"
    using s_run(3) by (simp add: s_ex s_title addFeature_newFeatures_def default_sample s3 absolute_path_def)
  have three: "\<forall>f\<in>set ?three. lower_identifier (feature_name f)"
    by (simp add: lower_identifier_def is_lower_word_def)
  have l0: "select_lines is_request [] (readmeMd_request [?d, ?d, ?s3] (\<lparr>feature_name = ''user'', feature_fields = ''''\<rparr>, 0)) =
      [''  curl -X POST http://localhost:3000/api/user -H \"Content-Type: application/json\" -d '' @ [CHR 0x27] @ ?d @ [CHR 0x27]]"
    using request_line[of "\<lparr>feature_name = ''user'', feature_fields = ''''\<rparr>" "[?d, ?d, ?s3]" 0]
    by (simp add: template_index_def lower_identifier_def is_lower_word_def)
  have l1: "select_lines is_request [] (readmeMd_request [?d, ?d, ?s3] (\<lparr>feature_name = ''product'', feature_fields = ''''\<rparr>, Suc 0)) =
      [''  curl -X POST http://localhost:3000/api/product -H \"Content-Type: application/json\" -d '' @ [CHR 0x27] @ ?d @ [CHR 0x27]]"
    using request_line[of "\<lparr>feature_name = ''product'', feature_fields = ''''\<rparr>" "[?d, ?d, ?s3]" "Suc 0"]
    by (simp add: template_index_def lower_identifier_def is_lower_word_def)
  have l2: "select_lines is_request [] (readmeMd_request [?d, ?d, ?s3] (\<lparr>feature_name = ''order'', feature_fields = ?fd\<rparr>, Suc (Suc 0))) =
      [''  curl -X POST http://localhost:3000/api/order -H \"Content-Type: application/json\" -d '' @ [CHR 0x27] @ ''{\"a'',
       ''  curl -X POST b\": \"sample_a'',
       ''  curl -X POST b\"}'' @ [CHR 0x27]]"
    by (simp add: readmeMd_request_def template_index_def is_request_def startsWith_simps)
  have s_requests: "example_requests (readmeMd ''shop'' ?three [?d, ?d, ?s3]) =
     [''http://localhost:3000/api/user'', ''http://localhost:3000/api/product'',
      ''http://localhost:3000/api/order'', ''b\":'', ''b\"}'' @ [CHR 0x27]]"
    unfolding example_requests_def request_lines_readmeMd[OF three, of "''shop''" "[?d, ?d, ?s3]", simplified]
    by (simp add: l0 l1 l2)
  show ?thesis
    using phrase_project_generated p_run(1) p_new p_requests s_bad s_run(1) s_new s_requests
    by simp
qed

text \<open>
  Claim C9 as first stated has \<^verbatim>\<open>feature\<close> end with a non-zero status and write
  nothing when the name is in the recovered roster. Adding \<^verbatim>\<open>user\<close> to the sample
  project, whose roster already has it, returns normally and rewrites the bootstrap
  file, now with \<^verbatim>\<open>user\<close> twice.
\<close>

theorem addFeature_duplicate_accepted:
  "addFeature_serverFeatures (serverIndexTs shop_features) =
     Inr [\<lparr>feature_name = ''user'', feature_fields = ''''\<rparr>,
          \<lparr>feature_name = ''product'', feature_fields = ''''\<rparr>] \<and>
   files shop ''/work/shop/Server/index.ts'' = Some (serverIndexTs shop_features) \<and>
   exit_code (addFeature shop ''user'' '''') = None \<and>
   files (fs_after (addFeature shop ''user'' '''')) ''/work/shop/Server/index.ts'' =
     Some (serverIndexTs [\<lparr>feature_name = ''user'', feature_fields = ''''\<rparr>,
       \<lparr>feature_name = ''product'', feature_fields = ''''\<rparr>,
       \<lparr>feature_name = ''user'', feature_fields = ''''\<rparr>]) \<and>
   files (fs_after (addFeature shop ''user'' '''')) ''/work/shop/Server/index.ts'' \<noteq>
     files shop ''/work/shop/Server/index.ts''"
proof -
  have cwd: "cwd shop = absolute_path [''work'', ''shop'']"
    using shop_generated(1) by (simp add: absolute_path_def)
  have ds: "list_all plain_segment [''work'', ''shop'']" by (simp add: plain_segment_literal)
  have server: "files shop (absolute_path ([''work'', ''shop''] @ [''Server'', ''index.ts''])) =
      Some (serverIndexTs shop_features)"
    using shop_generated(2) by (simp add: absolute_path_def)
  have readme: \<open>files shop (absolute_path ([''work'', ''shop''] @ [''README.md''])) =
      Some (readmeMd ''shop'' shop_features
       [''{"name": "sample_name", "email": "test@example.com"}'',
        ''{"title": "sample_title", "price": 123}''])\<close>
    using shop_generated(3) by (simp add: absolute_path_def)
  have user: "plain_segment ''user''" by (simp add: plain_segment_literal)
  have dflt: "parseFields (or_default '''') = Inr default_parsed"
    by (simp add: or_default_Nil parseFields_default)
  note r = addFeature_run[OF cwd ds server readme addFeature_serverFeatures_generated[OF shop_names]
      user dflt]
  let ?twice = "[\<lparr>feature_name = ''user'', feature_fields = ''''\<rparr>,
       \<lparr>feature_name = ''product'', feature_fields = ''''\<rparr>,
       \<lparr>feature_name = ''user'', feature_fields = ''''\<rparr>]"
  have "\<forall>f\<in>set ?twice. lower_identifier (feature_name f)"
    by (simp add: lower_identifier_def is_lower_word_def)
  from addFeature_serverFeatures_generated[OF this] addFeature_serverFeatures_generated[OF shop_names]
  have differ: "serverIndexTs ?twice \<noteq> serverIndexTs shop_features"
    by (auto simp: shop_features_def)
  show ?thesis
    using r(1) r(2) addFeature_serverFeatures_generated[OF shop_names] shop_generated(2) differ
    by (simp add: shop_features_def absolute_path_def)
qed

end
